theory Spec2Isabelle
  imports Complex_Main "HOL-Library.Multiset"
begin

chapter \<open>Kandid: the weekly Hunters-vs-Ghosts contest engine\<close>

text \<open>
  A shallow embedding of the contest engine of the Kandid server (the Express
  application): \<open>getContestWindow\<close>, \<open>shuffle\<close>, \<open>ensureActiveContest\<close>,
  \<open>syncContestAssignments\<close>, \<open>createInboxEntry\<close>, \<open>handleContestLocationUpdate\<close>,
  \<open>handleContestCapture\<close> and the route \<open>POST /api/posts\<close>.

  Conventions of the model.
  \<^item> Timestamps are JavaScript time values: integral milliseconds since the epoch,
    here \<open>int\<close>.
  \<^item> Coordinates and distances are JavaScript numbers. A finite one is a \<open>real\<close>;
    the infinite ones and \<open>NaN\<close> are constructors of their own, and \<open>null\<close> is
    \<open>None\<close>. The rounding of the double arithmetic is a parameter of the distance
    computation, so that what is proved holds whatever the rounding is.
  \<^item> Every SQL table is the list of its rows, in insertion order. A \<open>SELECT\<close> is a
    \<open>filter\<close>, \<open>db.get\<close> is \<open>find\<close>, \<open>UPDATE ... WHERE\<close> maps over the rows,
    \<open>DELETE ... WHERE\<close> filters them out, \<open>INSERT\<close> appends.
  \<^item> \<open>Date.now()\<close>, \<open>Math.random()\<close> and \<open>createId()\<close> are inputs of the function
    that calls them: one parameter per call site, indexed by the loop position where
    the call sits in a loop.
\<close>

section \<open>The program\<close>

subsection \<open>Constants\<close>

definition CONTEST_START_DAY_UTC :: int where
  "CONTEST_START_DAY_UTC = 0"

definition CONTEST_START_HOUR_UTC :: int where
  "CONTEST_START_HOUR_UTC = 20"

definition CONTEST_DURATION_MS :: int where
  "CONTEST_DURATION_MS = 7 * 24 * 60 * 60 * 1000"

definition CONTEST_PROXIMITY_KM :: real where
  "CONTEST_PROXIMITY_KM = 3 / 10"

definition CONTEST_ALERT_COOLDOWN_MS :: int where
  "CONTEST_ALERT_COOLDOWN_MS = 60 * 60 * 1000"

definition CONTEST_CAMPING_THRESHOLD_MS :: int where
  "CONTEST_CAMPING_THRESHOLD_MS = 6 * 60 * 60 * 1000"

definition CONTEST_CAMPING_DISTANCE_KM :: real where
  "CONTEST_CAMPING_DISTANCE_KM = 1 / 10"

definition CONTEST_CHALLENGES :: "string list" where
  "CONTEST_CHALLENGES =
     [''Capture them eating'',
      ''Catch them laughing'',
      ''Spot them with a colorful outfit'',
      ''Find them using their phone'',
      ''Capture them in motion'',
      ''Catch them with a group of friends'']"

subsection \<open>The JavaScript \<open>Date\<close> operations used by the engine\<close>

text \<open>
  The time-value arithmetic of ECMAScript (section "Date Objects"): \<open>Day\<close>,
  \<open>TimeWithinDay\<close>, \<open>WeekDay\<close>, the field extractors, \<open>MakeTime\<close>, \<open>MakeDate\<close>.
  Division and modulo are the flooring ones, as in the standard, which is what
  \<open>div\<close> and \<open>mod\<close> on \<open>int\<close> are.
\<close>

definition msPerDay :: int where
  "msPerDay = 86400000"

definition Day :: "int \<Rightarrow> int" where
  "Day t = t div msPerDay"

definition TimeWithinDay :: "int \<Rightarrow> int" where
  "TimeWithinDay t = t mod msPerDay"

definition WeekDay :: "int \<Rightarrow> int" where
  "WeekDay t = (Day t + 4) mod 7"

definition HourFromTime :: "int \<Rightarrow> int" where
  "HourFromTime t = (t div 3600000) mod 24"

definition MinFromTime :: "int \<Rightarrow> int" where
  "MinFromTime t = (t div 60000) mod 60"

definition SecFromTime :: "int \<Rightarrow> int" where
  "SecFromTime t = (t div 1000) mod 60"

definition msFromTime :: "int \<Rightarrow> int" where
  "msFromTime t = t mod 1000"

definition MakeTime :: "int \<Rightarrow> int \<Rightarrow> int \<Rightarrow> int \<Rightarrow> int" where
  "MakeTime h m s ms = h * 3600000 + m * 60000 + s * 1000 + ms"

definition MakeDate :: "int \<Rightarrow> int \<Rightarrow> int" where
  "MakeDate day time = day * msPerDay + time"

text \<open>
  The day of the month of a day number, in the proleptic Gregorian calendar
  (days are counted from 1970-01-01; the computation works in eras of 400 years
  that start on 1 March).
\<close>

definition DateFromDay :: "int \<Rightarrow> int" where
  "DateFromDay d =
     (let z = d + 719468;
          doe = z mod 146097;
          yoe = (doe - doe div 1460 + doe div 36524 - doe div 146096) div 365;
          doy = doe - (365 * yoe + yoe div 4 - yoe div 100);
          mp = (5 * doy + 2) div 153
      in doy - (153 * mp + 2) div 5 + 1)"

definition DateFromTime :: "int \<Rightarrow> int" where
  "DateFromTime t = DateFromDay (Day t)"

definition getUTCDay :: "int \<Rightarrow> int" where
  "getUTCDay t = WeekDay t"

definition getUTCDate :: "int \<Rightarrow> int" where
  "getUTCDate t = DateFromTime t"

definition setUTCMilliseconds :: "int \<Rightarrow> int \<Rightarrow> int" where
  "setUTCMilliseconds t ms =
     MakeDate (Day t) (MakeTime (HourFromTime t) (MinFromTime t) (SecFromTime t) ms)"

definition setUTCSeconds :: "int \<Rightarrow> int \<Rightarrow> int" where
  "setUTCSeconds t s =
     MakeDate (Day t) (MakeTime (HourFromTime t) (MinFromTime t) s (msFromTime t))"

definition setUTCMinutes :: "int \<Rightarrow> int \<Rightarrow> int" where
  "setUTCMinutes t m =
     MakeDate (Day t) (MakeTime (HourFromTime t) m (SecFromTime t) (msFromTime t))"

definition setUTCHours :: "int \<Rightarrow> int \<Rightarrow> int" where
  "setUTCHours t h =
     MakeDate (Day t) (MakeTime h (MinFromTime t) (SecFromTime t) (msFromTime t))"

text \<open>
  \<open>setUTCDate(dt)\<close> is \<open>MakeDate(MakeDay(YearFromTime t, MonthFromTime t, dt),
  TimeWithinDay t)\<close>, and \<open>MakeDay(y, m, dt)\<close> is the day number of the first day of
  month \<open>m\<close> of year \<open>y\<close>, plus \<open>dt - 1\<close>; \<open>dt\<close> may be zero or negative and then
  reaches into the months before. The first day of the month of \<open>t\<close> is
  \<open>Day t - DateFromTime t + 1\<close>.
\<close>

definition setUTCDate :: "int \<Rightarrow> int \<Rightarrow> int" where
  "setUTCDate t dt =
     MakeDate ((Day t - DateFromTime t + 1) + dt - 1) (TimeWithinDay t)"

subsection \<open>WindowCalculator: \<open>getContestWindow\<close>\<close>

record contest_window =
  startsAt :: int
  endsAt :: int

definition getContestWindow :: "int \<Rightarrow> contest_window" where
  "getContestWindow now =
     (let current = now;
          start = current;
          start = setUTCMilliseconds start 0;
          start = setUTCSeconds start 0;
          start = setUTCMinutes start 0;
          start = setUTCHours start CONTEST_START_HOUR_UTC;
          dayDiff = (getUTCDay current - CONTEST_START_DAY_UTC + 7) mod 7;
          start = setUTCDate start (getUTCDate current - dayDiff);
          start = (if start > now then setUTCDate start (getUTCDate start - 7) else start);
          end = start + CONTEST_DURATION_MS
      in \<lparr> startsAt = start, endsAt = end \<rparr>)"

text \<open>An instant is a contest start: a Sunday, at 20:00:00.000 UTC.\<close>

definition is_contest_start :: "int \<Rightarrow> bool" where
  "is_contest_start s \<longleftrightarrow>
     getUTCDay s = CONTEST_START_DAY_UTC \<and> HourFromTime s = CONTEST_START_HOUR_UTC \<and>
     MinFromTime s = 0 \<and> SecFromTime s = 0 \<and> msFromTime s = 0"

subsection \<open>Tables\<close>

text \<open>
  The rows of the tables the engine reads and writes, with the columns it touches
  (the profile columns of \<open>users\<close>, which no contest code reads, are left out).
  Column names are prefixed where two tables share one. A nullable column is an
  \<open>option\<close>; the 0/1 flags \<open>bekandid_enabled\<close>, \<open>survival_flag\<close>,
  \<open>camping_violation\<close> and \<open>read\<close> are booleans. The \<open>CREATE TABLE\<close> statements
  of the three contest tables are not part of the sources at hand: their columns are
  the ones the queries name, and \<open>camping_violation\<close>, which no \<open>INSERT\<close> sets,
  starts as false (the column default).

  A statement that reaches the storage layer is taken to succeed. The one failure that
  a request provokes by its own input, a post for a recipient that is not a user, is a
  branch of the route below.
\<close>

type_synonym id = string

text \<open>
  A coordinate as the location route stores it. The route takes whatever JSON number
  the request carries (\<open>typeof lat === 'number'\<close>), and a literal such as \<open>1e999\<close>
  is parsed to an infinity.
\<close>

datatype number = Finite real | PosInfinity | NegInfinity

record user =
  u_id :: id
  display_name :: string
  location_lat :: "number option"
  location_lng :: "number option"
  location_updated_at :: "int option"
  bekandid_enabled :: bool

record contest_week =
  cw_id :: id
  starts_at :: int
  ends_at :: int
  challenge :: string

record assignment =
  contest_id :: id
  user_id :: id
  role :: string
  captures :: int
  survival_flag :: bool
  camping_violation :: bool
  last_location_lat :: "number option"
  last_location_lng :: "number option"
  last_move_at :: "int option"

record capture =
  cap_id :: id
  cap_contest_id :: id
  hunter_id :: id
  ghost_id :: id
  cap_post_id :: id
  cap_challenge :: string
  cap_created_at :: int

record inbox_message =
  msg_id :: id
  recipient_id :: id
  msg_post_id :: "id option"
  sender_id :: id
  msg_created_at :: int
  read :: bool
  msg_type :: string
  message :: "string option"

record post =
  p_id :: id
  author_id :: id
  p_recipient_id :: id
  image :: string
  caption :: string
  p_created_at :: int
  visibility :: string
  original_post_id :: "id option"

record database =
  users :: "user list"
  contest_weeks :: "contest_week list"
  contest_assignments :: "assignment list"
  contest_captures :: "capture list"
  inbox_messages :: "inbox_message list"
  posts :: "post list"

text \<open>
  The handlers run only after \<open>initializeDatabase\<close> has set the module variable
  \<open>db\<close> (the server starts listening inside that promise's continuation), so the
  guard \<open>if (!db) return null\<close> of \<open>ensureActiveContest\<close> is never taken by a
  request and the model starts from a database that is there.
\<close>

subsection \<open>Distances\<close>

datatype distance = Km real | Infinity | NaN

text \<open>
  \<open>d > x\<close> and \<open>d <= x\<close> for a distance \<open>d\<close> that may be \<open>Infinity\<close> or \<open>NaN\<close>:
  every comparison with \<open>NaN\<close> is false.
\<close>

fun dist_gt :: "distance \<Rightarrow> real \<Rightarrow> bool" where
  "dist_gt Infinity x = True"
| "dist_gt NaN x = False"
| "dist_gt (Km r) x = (r > x)"

fun dist_le :: "distance \<Rightarrow> real \<Rightarrow> bool" where
  "dist_le Infinity x = False"
| "dist_le NaN x = False"
| "dist_le (Km r) x = (r \<le> x)"

definition deg2rad :: "real \<Rightarrow> real" where
  "deg2rad deg = deg * (pi / 180)"

text \<open>\<open>Math.atan2(y, x)\<close>: the angle of the point \<open>(x, y)\<close>, in \<open>(-pi, pi]\<close>.\<close>

definition atan2 :: "real \<Rightarrow> real \<Rightarrow> real" where
  "atan2 y x =
     (if x > 0 then arctan (y / x)
      else if x < 0 \<and> y \<ge> 0 then arctan (y / x) + pi
      else if x < 0 \<and> y < 0 then arctan (y / x) - pi
      else if y > 0 then pi / 2
      else if y < 0 then - (pi / 2)
      else 0)"

text \<open>
  The haversine sum \<open>a\<close> is computed in doubles. In exact arithmetic it lies between 0
  and 1; the double may fall just outside (for two points that are nearly antipodal it
  can exceed 1), and then one of the two square roots is \<open>NaN\<close> and so is the distance.
  \<open>of_sum fl lat1 lon1 lat2 lon2 x\<close> is the double the code obtains for \<open>a\<close> at these
  coordinates, where \<open>x\<close> is the exact value of the sum, and
  \<open>of_distance fl lat1 lon1 lat2 lon2 d\<close> the double it returns when \<open>a\<close> lies between 0
  and 1, where \<open>d\<close> is the exact value of \<open>R * c\<close> for that \<open>a\<close>; \<open>exact\<close> is the
  arithmetic without rounding. When a coordinate is infinite, the differences are
  infinite or \<open>NaN\<close>, their sines are \<open>NaN\<close>, and the distance is \<open>NaN\<close>.
\<close>

record rounding =
  of_sum :: "real \<Rightarrow> real \<Rightarrow> real \<Rightarrow> real \<Rightarrow> real \<Rightarrow> real"
  of_distance :: "real \<Rightarrow> real \<Rightarrow> real \<Rightarrow> real \<Rightarrow> real \<Rightarrow> real"

definition exact :: rounding where
  "exact = \<lparr> of_sum = (\<lambda>lat1 lon1 lat2 lon2 x. x), of_distance = (\<lambda>lat1 lon1 lat2 lon2 d. d) \<rparr>"

fun finite_value :: "number \<Rightarrow> real option" where
  "finite_value (Finite r) = Some r"
| "finite_value PosInfinity = None"
| "finite_value NegInfinity = None"

definition distanceKm ::
  "rounding \<Rightarrow> number option \<Rightarrow> number option \<Rightarrow> number option \<Rightarrow> number option \<Rightarrow> distance" where
  "distanceKm fl lat1 lon1 lat2 lon2 =
     (case (lat1, lon1, lat2, lon2) of
        (Some lat1, Some lon1, Some lat2, Some lon2) \<Rightarrow>
          (case (finite_value lat1, finite_value lon1, finite_value lat2, finite_value lon2) of
             (Some lat1, Some lon1, Some lat2, Some lon2) \<Rightarrow>
               (let R = 6371;
                    dLat = deg2rad (lat2 - lat1);
                    dLon = deg2rad (lon2 - lon1);
                    a = of_sum fl lat1 lon1 lat2 lon2
                          (sin (dLat / 2) * sin (dLat / 2) +
                           cos (deg2rad lat1) * cos (deg2rad lat2) * sin (dLon / 2) * sin (dLon / 2));
                    c = 2 * atan2 (sqrt a) (sqrt (1 - a))
                in if a < 0 \<or> 1 < a then NaN else Km (of_distance fl lat1 lon1 lat2 lon2 (R * c)))
           | _ \<Rightarrow> NaN)
      | _ \<Rightarrow> Infinity)"

subsection \<open>\<open>shuffle\<close>\<close>

text \<open>
  The Fisher-Yates loop, \<open>i\<close> running from \<open>length - 1\<close> down to 1. \<open>rnd i\<close> is the
  value \<open>Math.random()\<close> returns in the iteration with index \<open>i\<close>. The destructuring
  swap reads both elements before it writes either.
\<close>

fun shuffle_loop :: "(nat \<Rightarrow> real) \<Rightarrow> nat \<Rightarrow> 'a list \<Rightarrow> 'a list" where
  "shuffle_loop rnd 0 copy = copy"
| "shuffle_loop rnd (Suc k) copy =
     (let i = Suc k;
          j = nat \<lfloor>rnd i * real (i + 1)\<rfloor>
      in shuffle_loop rnd k (copy[i := copy ! j, j := copy ! i]))"

definition shuffle :: "(nat \<Rightarrow> real) \<Rightarrow> 'a list \<Rightarrow> 'a list" where
  "shuffle rnd array = shuffle_loop rnd (length array - 1) array"

text \<open>\<open>Math.random()\<close> returns a number in \<open>[0, 1)\<close>.\<close>

definition random_ok :: "(nat \<Rightarrow> real) \<Rightarrow> bool" where
  "random_ok rnd \<longleftrightarrow> (\<forall>i. 0 \<le> rnd i \<and> rnd i < 1)"

subsection \<open>RoleAssignor: \<open>syncContestAssignments\<close>\<close>

definition new_assignment :: "id \<Rightarrow> id \<Rightarrow> string \<Rightarrow> int \<Rightarrow> assignment" where
  "new_assignment contestId userId r now =
     \<lparr> contest_id = contestId, user_id = userId, role = r, captures = 0,
       survival_flag = True, camping_violation = False,
       last_location_lat = None, last_location_lng = None, last_move_at = Some now \<rparr>"

text \<open>The incremental join: the loop over \<open>toAssign\<close> with its two running counts.\<close>

fun assign_loop :: "id \<Rightarrow> int \<Rightarrow> nat \<Rightarrow> nat \<Rightarrow> id list \<Rightarrow> assignment list \<Rightarrow> assignment list" where
  "assign_loop contestId now hunterCount ghostCount [] rows = rows"
| "assign_loop contestId now hunterCount ghostCount (participant # rest) rows =
     (let r = (if hunterCount \<le> ghostCount then ''hunter'' else ''ghost'');
          rows = rows @ [new_assignment contestId participant r now]
      in if r = ''hunter''
         then assign_loop contestId now (hunterCount + 1) ghostCount rest rows
         else assign_loop contestId now hunterCount (ghostCount + 1) rest rows)"

definition syncContestAssignments :: "id \<Rightarrow> int \<Rightarrow> (nat \<Rightarrow> real) \<Rightarrow> database \<Rightarrow> database" where
  "syncContestAssignments contestId now rnd db =
     (let participants = map u_id (filter (\<lambda>u. \<not> bekandid_enabled u) (users db));
          bekandid = map u_id (filter bekandid_enabled (users db));
          db = (if bekandid \<noteq> []
                then db\<lparr> contest_assignments :=
                       filter (\<lambda>a. \<not> (contest_id a = contestId \<and> user_id a \<in> set bekandid))
                         (contest_assignments db) \<rparr>
                else db);
          existing = filter (\<lambda>a. contest_id a = contestId) (contest_assignments db);
          assignedSet = set (map user_id existing);
          toAssign = filter (\<lambda>p. p \<notin> assignedSet) participants
      in if existing = []
         then (let shuffled = shuffle rnd participants;
                   midpoint = nat \<lceil>real (length shuffled) / 2\<rceil>;
                   hunters = take midpoint shuffled;
                   ghosts = drop midpoint shuffled
               in db\<lparr> contest_assignments := contest_assignments db
                      @ map (\<lambda>p. new_assignment contestId p ''hunter'' now) hunters
                      @ map (\<lambda>p. new_assignment contestId p ''ghost'' now) ghosts \<rparr>)
         else (let hunterCount = length (filter (\<lambda>a. role a = ''hunter'') existing);
                   ghostCount = length (filter (\<lambda>a. role a = ''ghost'') existing)
               in db\<lparr> contest_assignments :=
                      assign_loop contestId now hunterCount ghostCount toAssign (contest_assignments db) \<rparr>))"

subsection \<open>ContestRegistry: \<open>ensureActiveContest\<close>\<close>

text \<open>
  What one call of \<open>ensureActiveContest\<close> draws from outside: the two clock readings
  (its own and the one inside the sync), the identifier and the random number it uses
  if it creates the week, and the random numbers of the shuffle.
\<close>

record ambient =
  contest_now :: int
  contest_new_id :: id
  contest_random :: real
  sync_now :: int
  sync_random :: "nat \<Rightarrow> real"

definition ensureActiveContest :: "ambient \<Rightarrow> database \<Rightarrow> contest_week \<times> database" where
  "ensureActiveContest amb db =
     (let now = contest_now amb;
          window = getContestWindow now;
          (contest, db) =
            (case find (\<lambda>c. starts_at c = startsAt window) (contest_weeks db) of
               Some contest \<Rightarrow> (contest, db)
             | None \<Rightarrow>
                 (let id = contest_new_id amb;
                      challenge = CONTEST_CHALLENGES !
                        nat \<lfloor>contest_random amb * real (length CONTEST_CHALLENGES)\<rfloor>;
                      contest = \<lparr> cw_id = id, starts_at = startsAt window,
                                  ends_at = endsAt window, challenge = challenge \<rparr>
                  in (contest, db\<lparr> contest_weeks := contest_weeks db @ [contest] \<rparr>)))
      in (contest, syncContestAssignments (cw_id contest) (sync_now amb) (sync_random amb) db))"

subsection \<open>NotificationSink: \<open>createInboxEntry\<close>\<close>

definition createInboxEntry ::
  "id \<Rightarrow> id \<Rightarrow> id \<Rightarrow> id option \<Rightarrow> string \<Rightarrow> string option \<Rightarrow> int \<Rightarrow> database \<Rightarrow> database" where
  "createInboxEntry newId recipientId senderId postId type msg createdAt db =
     db\<lparr> inbox_messages := inbox_messages db @
       [\<lparr> msg_id = newId, recipient_id = recipientId, msg_post_id = postId,
          sender_id = senderId, msg_created_at = createdAt, read = False,
          msg_type = type, message = msg \<rparr>] \<rparr>"

subsection \<open>LocationUpdateProcessor: \<open>handleContestLocationUpdate\<close>\<close>

text \<open>\<open>UPDATE contest_assignments SET ... WHERE contest_id = ? AND user_id = ?\<close>.\<close>

definition update_assignment :: "id \<Rightarrow> id \<Rightarrow> (assignment \<Rightarrow> assignment) \<Rightarrow> database \<Rightarrow> database" where
  "update_assignment contestId userId f db =
     db\<lparr> contest_assignments :=
       map (\<lambda>a. if contest_id a = contestId \<and> user_id a = userId then f a else a)
         (contest_assignments db) \<rparr>"

text \<open>\<open>SELECT * FROM contest_assignments WHERE contest_id = ? AND user_id = ?\<close>, one row.\<close>

definition get_assignment :: "id \<Rightarrow> id \<Rightarrow> database \<Rightarrow> assignment option" where
  "get_assignment contestId userId db =
     find (\<lambda>a. contest_id a = contestId \<and> user_id a = userId) (contest_assignments db)"

text \<open>
  The rows of the join of the surviving ghosts of a contest with their \<open>users\<close> rows:
  the ghost's position is the one of the user directory.
\<close>

record ghost_row =
  g_user_id :: id
  g_display_name :: string
  g_location_lat :: "number option"
  g_location_lng :: "number option"

definition select_ghosts :: "id \<Rightarrow> database \<Rightarrow> ghost_row list" where
  "select_ghosts contestId db =
     concat (map (\<lambda>ca. map (\<lambda>u. \<lparr> g_user_id = user_id ca, g_display_name = display_name u,
                                   g_location_lat = location_lat u, g_location_lng = location_lng u \<rparr>)
                          (filter (\<lambda>u. user_id ca = u_id u) (users db)))
                 (filter (\<lambda>ca. contest_id ca = contestId \<and> role ca = ''ghost'' \<and> survival_flag ca)
                    (contest_assignments db)))"

text \<open>
  The most recent proximity alert of a (hunter, ghost) pair:
  \<open>WHERE recipient_id = ? AND sender_id = ? AND type = 'contest_alert'
  ORDER BY created_at DESC LIMIT 1\<close>.
\<close>

definition recentAlert :: "id \<Rightarrow> id \<Rightarrow> inbox_message list \<Rightarrow> inbox_message option" where
  "recentAlert recipientId senderId inbox =
     (case filter (\<lambda>m. recipient_id m = recipientId \<and> sender_id m = senderId \<and>
                        msg_type m = ''contest_alert'') inbox of
        [] \<Rightarrow> None
      | m # ms \<Rightarrow> Some (fold (\<lambda>x best. if msg_created_at x > msg_created_at best then x else best) ms m))"

text \<open>Decimal digits of an integer, and \<open>Math.round\<close>, for the text of the alert.\<close>

fun show_nat :: "nat \<Rightarrow> string" where
  "show_nat n = (if n < 10 then [char_of (48 + n)] else show_nat (n div 10) @ [char_of (48 + n mod 10)])"

declare show_nat.simps [simp del]

definition show_int :: "int \<Rightarrow> string" where
  "show_int i = (if i < 0 then ''-'' @ show_nat (nat (- i)) else show_nat (nat i))"

definition Math_round :: "real \<Rightarrow> int" where
  "Math_round x = \<lfloor>x + 1 / 2\<rfloor>"

definition alert_message :: "string \<Rightarrow> distance \<Rightarrow> string" where
  "alert_message name d =
     name @ '' is within '' @
     (case d of Km r \<Rightarrow> show_int (Math_round (r * 1000)) | Infinity \<Rightarrow> ''Infinity''
      | NaN \<Rightarrow> ''NaN'') @
     '' meters!''"

text \<open>
  The loop over the ghosts; \<open>ids k\<close> is the identifier \<open>createId()\<close> returns while the
  \<open>k\<close>-th ghost of the list is processed.
\<close>

fun alert_loop ::
  "rounding \<Rightarrow> (nat \<Rightarrow> id) \<Rightarrow> nat \<Rightarrow> id \<Rightarrow> number \<Rightarrow> number \<Rightarrow> int \<Rightarrow> ghost_row list \<Rightarrow>
   database \<Rightarrow> database" where
  "alert_loop fl ids k userId lat lng now [] db = db"
| "alert_loop fl ids k userId lat lng now (ghost # rest) db =
     (let distance = distanceKm fl (Some lat) (Some lng) (g_location_lat ghost) (g_location_lng ghost);
          db = (if dist_le distance CONTEST_PROXIMITY_KM
                then (case recentAlert userId (g_user_id ghost) (inbox_messages db) of
                        None \<Rightarrow>
                          createInboxEntry (ids k) userId (g_user_id ghost) None ''contest_alert''
                            (Some (alert_message (g_display_name ghost) distance)) now db
                      | Some alert \<Rightarrow>
                          if now - msg_created_at alert > CONTEST_ALERT_COOLDOWN_MS
                          then createInboxEntry (ids k) userId (g_user_id ghost) None ''contest_alert''
                                 (Some (alert_message (g_display_name ghost) distance)) now db
                          else db)
                else db)
      in alert_loop fl ids (Suc k) userId lat lng now rest db)"

declare alert_loop.simps(2) [simp del]

definition handleContestLocationUpdate ::
  "rounding \<Rightarrow> ambient \<Rightarrow> int \<Rightarrow> (nat \<Rightarrow> id) \<Rightarrow> id \<Rightarrow> number \<Rightarrow> number \<Rightarrow> database \<Rightarrow> database" where
  "handleContestLocationUpdate fl amb now ids userId lat lng db =
     (let (contest, db) = ensureActiveContest amb db
      in case get_assignment (cw_id contest) userId db of
           None \<Rightarrow> db
         | Some assignment \<Rightarrow>
             (let db = update_assignment (cw_id contest) userId
                         (\<lambda>a. a\<lparr> last_location_lat := Some lat, last_location_lng := Some lng,
                                 last_move_at := (case last_move_at a of None \<Rightarrow> Some now
                                                  | Some t \<Rightarrow> Some t) \<rparr>) db
              in if role assignment = ''ghost''
                 then (let previousLat = last_location_lat assignment;
                           previousLng = last_location_lng assignment;
                           previousMove = (case last_move_at assignment of
                                             None \<Rightarrow> now
                                           | Some t \<Rightarrow> if t = 0 then now else t);
                           movedDistance = distanceKm fl previousLat previousLng (Some lat) (Some lng)
                       in if dist_gt movedDistance CONTEST_CAMPING_DISTANCE_KM
                          then update_assignment (cw_id contest) userId
                                 (\<lambda>a. a\<lparr> camping_violation := False, last_move_at := Some now \<rparr>) db
                          else if now - previousMove > CONTEST_CAMPING_THRESHOLD_MS
                          then createInboxEntry (ids 0) userId userId None ''contest_warning''
                                 (Some ''Ghost alert: move around! Staying put will get you disqualified.'')
                                 now
                                 (update_assignment (cw_id contest) userId
                                    (\<lambda>a. a\<lparr> camping_violation := True \<rparr>) db)
                          else db)
                 else if role assignment \<noteq> ''hunter'' then db
                 else alert_loop fl ids 0 userId lat lng now (select_ghosts (cw_id contest) db) db))"

subsection \<open>CaptureValidator: \<open>handleContestCapture\<close>\<close>

text \<open>A thrown \<open>Error\<close> with its \<open>statusCode\<close> and message.\<close>

datatype error = Error nat string

datatype outcome = Returned | Thrown error

definition challenge_mismatch :: error where
  "challenge_mismatch = Error 400 ''This capture does not match the weekly contest challenge.''"

definition not_a_hunter :: error where
  "not_a_hunter = Error 400 ''Only hunters can submit contest captures.''"

definition not_an_active_ghost :: error where
  "not_an_active_ghost = Error 400 ''Target is not an active ghost.''"

text \<open>The three identifiers a successful capture draws: for the capture row and the two notifications.\<close>

record capture_ids =
  capture_row_id :: id
  hunter_msg_id :: id
  ghost_msg_id :: id

definition handleContestCapture ::
  "ambient \<Rightarrow> int \<Rightarrow> capture_ids \<Rightarrow> id \<Rightarrow> id \<Rightarrow> id \<Rightarrow> string \<Rightarrow> database \<Rightarrow> outcome \<times> database" where
  "handleContestCapture amb now ids hunterId ghostId postId chal db =
     (let (contest, db) = ensureActiveContest amb db
      in if challenge contest \<noteq> chal then (Thrown challenge_mismatch, db)
         else
           (let hunterAssignment = get_assignment (cw_id contest) hunterId db;
                ghostAssignment = get_assignment (cw_id contest) ghostId db
            in if (case hunterAssignment of None \<Rightarrow> True | Some h \<Rightarrow> role h \<noteq> ''hunter'')
               then (Thrown not_a_hunter, db)
               else if (case ghostAssignment of None \<Rightarrow> True | Some g \<Rightarrow> role g \<noteq> ''ghost'')
               then (Thrown not_an_active_ghost, db)
               else
                 (let db = db\<lparr> contest_captures := contest_captures db @
                             [\<lparr> cap_id = capture_row_id ids, cap_contest_id = cw_id contest,
                                hunter_id = hunterId, ghost_id = ghostId, cap_post_id = postId,
                                cap_challenge = chal, cap_created_at = now \<rparr>] \<rparr>;
                      db = update_assignment (cw_id contest) hunterId
                             (\<lambda>a. a\<lparr> captures := captures a + 1 \<rparr>) db;
                      db = update_assignment (cw_id contest) ghostId
                             (\<lambda>a. a\<lparr> survival_flag := False \<rparr>) db;
                      db = createInboxEntry (hunter_msg_id ids) hunterId ghostId (Some postId)
                             ''contest_capture'' (Some ''Capture logged! Score updated.'') now db;
                      db = createInboxEntry (ghost_msg_id ids) ghostId hunterId (Some postId)
                             ''contest_captured'' (Some ''You were captured! Better luck next week.'') now db
                  in (Returned, db))))"

subsection \<open>The route \<open>POST /api/posts\<close>\<close>

text \<open>
  The fields of the request the route reads; a field that is absent from the body is
  \<open>None\<close>. \<open>!x\<close> holds of an absent and of an empty string.
\<close>

record post_request =
  req_userId :: id
  body_recipientId :: "string option"
  body_image :: "string option"
  body_caption :: "string option"
  body_visibility :: "string option"
  body_contestCapture :: bool
  body_contestChallenge :: "string option"

definition falsy :: "string option \<Rightarrow> bool" where
  "falsy x \<longleftrightarrow> (case x of None \<Rightarrow> True | Some s \<Rightarrow> s = [])"

text \<open>The response: the status, and the error text when the body is \<open>{ error }\<close>.\<close>

record response =
  status :: nat
  error_text :: "string option"

text \<open>What the route draws from outside, in the order of the calls.\<close>

record post_ambient =
  post_now :: int
  post_new_id :: id
  drop_msg_id :: id
  capture_ambient :: ambient
  capture_now :: int
  capture_new_ids :: capture_ids
  state_ambient :: ambient

text \<open>
  \<open>posts.author_id\<close> and \<open>posts.recipient_id\<close> reference \<open>users(id)\<close> and foreign keys
  are enforced, so the \<open>INSERT\<close> of a post for a recipient or an author that is not a
  user fails; the \<open>catch\<close> answers an error that has a (truthy) \<open>statusCode\<close> with that
  status and its message, and any other failure, as that of the \<open>INSERT\<close>, with a 500.
  After a capture that did not throw, \<open>buildState\<close> calls \<open>ensureActiveContest\<close> once
  more before it reads the tables.
\<close>

definition post_api_posts :: "post_ambient \<Rightarrow> post_request \<Rightarrow> database \<Rightarrow> response \<times> database" where
  "post_api_posts pa req db =
     (if falsy (body_recipientId req) \<or> falsy (body_image req)
      then (\<lparr> status = 400, error_text = Some ''Recipient and image are required.'' \<rparr>, db)
      else
        (let recipientId = the (body_recipientId req);
             img = the (body_image req);
             cap = (case body_caption req of None \<Rightarrow> [] | Some c \<Rightarrow> c);
             vis = (case body_visibility req of None \<Rightarrow> ''public'' | Some v \<Rightarrow> v);
             now = post_now pa;
             postId = post_new_id pa
         in if req_userId req \<notin> set (map u_id (users db)) \<or> recipientId \<notin> set (map u_id (users db))
            then (\<lparr> status = 500, error_text = Some ''Failed to create post.'' \<rparr>, db)
            else
              (let db = db\<lparr> posts := posts db @
                          [\<lparr> p_id = postId, author_id = req_userId req, p_recipient_id = recipientId,
                             image = img, caption = cap, p_created_at = now, visibility = vis,
                             original_post_id = None \<rparr>] \<rparr>;
                   recipientRow = find (\<lambda>u. u_id u = recipientId) (users db);
                   type = (if (case recipientRow of None \<Rightarrow> False | Some u \<Rightarrow> bekandid_enabled u)
                           then ''bekandid_drop'' else ''drop'');
                   db = createInboxEntry (drop_msg_id pa) recipientId (req_userId req) (Some postId)
                          type None now db;
                   (result, db) =
                     (if body_contestCapture req
                      then handleContestCapture (capture_ambient pa) (capture_now pa)
                             (capture_new_ids pa) (req_userId req) recipientId postId
                             (if falsy (body_contestChallenge req) then []
                              else the (body_contestChallenge req)) db
                      else (Returned, db))
               in case result of
                    Thrown (Error code msg) \<Rightarrow>
                      (if code \<noteq> 0 then \<lparr> status = code, error_text = Some msg \<rparr>
                       else \<lparr> status = 500, error_text = Some ''Failed to create post.'' \<rparr>, db)
                  | Returned \<Rightarrow>
                      (\<lparr> status = 201, error_text = None \<rparr>,
                       snd (ensureActiveContest (state_ambient pa) db)))))"

section \<open>Notions used in the statements\<close>

subsection \<open>Populations, rows and keys\<close>

text \<open>
  The two populations the sync reads from \<open>users\<close>, the rows of a contest and of a
  (contest, user) pair, and the keys of the tables: \<open>users.id\<close> is the primary key of
  \<open>users\<close>, and an assignment is keyed by (contest, user).
\<close>

definition eligible_ids :: "database \<Rightarrow> id list" where
  "eligible_ids db = map u_id (filter (\<lambda>u. \<not> bekandid_enabled u) (users db))"

definition opted_out_ids :: "database \<Rightarrow> id list" where
  "opted_out_ids db = map u_id (filter bekandid_enabled (users db))"

definition contest_rows :: "id \<Rightarrow> database \<Rightarrow> assignment list" where
  "contest_rows contestId db = filter (\<lambda>a. contest_id a = contestId) (contest_assignments db)"

definition rows_of :: "id \<Rightarrow> id \<Rightarrow> database \<Rightarrow> assignment list" where
  "rows_of contestId userId db =
     filter (\<lambda>a. contest_id a = contestId \<and> user_id a = userId) (contest_assignments db)"

definition assignment_key :: "assignment \<Rightarrow> id \<times> id" where
  "assignment_key a = (contest_id a, user_id a)"

definition keys_ok :: "database \<Rightarrow> bool" where
  "keys_ok db \<longleftrightarrow> distinct (map u_id (users db)) \<and> distinct (map assignment_key (contest_assignments db))"

text \<open>The assignment table after the retraction step of the sync.\<close>

definition retract :: "id \<Rightarrow> database \<Rightarrow> assignment list" where
  "retract contestId db =
     filter (\<lambda>a. \<not> (contest_id a = contestId \<and> user_id a \<in> set (opted_out_ids db))) (contest_assignments db)"

text \<open>A row as the sync inserts it.\<close>

definition fresh_row :: "id \<Rightarrow> int \<Rightarrow> assignment \<Rightarrow> bool" where
  "fresh_row contestId now a \<longleftrightarrow>
     contest_id a = contestId \<and> (role a = ''hunter'' \<or> role a = ''ghost'') \<and> captures a = 0 \<and>
     survival_flag a \<and> \<not> camping_violation a \<and> last_location_lat a = None \<and>
     last_location_lng a = None \<and> last_move_at a = Some now"

subsection \<open>Location updates of a ghost\<close>

text \<open>The warning a camping ghost receives.\<close>

definition camping_warning :: "id \<Rightarrow> id \<Rightarrow> int \<Rightarrow> inbox_message" where
  "camping_warning newId userId now =
     \<lparr> msg_id = newId, recipient_id = userId, msg_post_id = None, sender_id = userId,
       msg_created_at = now, read = False, msg_type = ''contest_warning'',
       message = Some ''Ghost alert: move around! Staying put will get you disqualified.'' \<rparr>"

text \<open>\<open>assignment.last_move_at || now\<close>: a missing and a zero timestamp both give \<open>now\<close>.\<close>

definition previous_move :: "assignment \<Rightarrow> int \<Rightarrow> int" where
  "previous_move a now = (case last_move_at a of None \<Rightarrow> now | Some t \<Rightarrow> if t = 0 then now else t)"

subsection \<open>Proximity alerts and their cooldown\<close>

text \<open>
  The proximity alerts of a (hunter, ghost) pair are the rows the cooldown query selects.
  The cooldown of the pair is over when the query finds no row, or when the row it
  finds is more than the cooldown window old.
\<close>

definition is_alert :: "id \<Rightarrow> id \<Rightarrow> inbox_message \<Rightarrow> bool" where
  "is_alert hunterId ghostId m \<longleftrightarrow>
     recipient_id m = hunterId \<and> sender_id m = ghostId \<and> msg_type m = ''contest_alert''"

definition cooldown_over :: "id \<Rightarrow> id \<Rightarrow> int \<Rightarrow> inbox_message list \<Rightarrow> bool" where
  "cooldown_over hunterId ghostId now inbox =
     (case recentAlert hunterId ghostId inbox of
        None \<Rightarrow> True
      | Some alert \<Rightarrow> now - msg_created_at alert > CONTEST_ALERT_COOLDOWN_MS)"

text \<open>
  No two alerts of one pair are within the cooldown window of each other; and the alerts
  of a pair that fall into the window of one hour that starts at \<open>w\<close>.
\<close>

fun alerts_spaced :: "inbox_message list \<Rightarrow> bool" where
  "alerts_spaced [] = True"
| "alerts_spaced (m # ms) =
     ((\<forall>m' \<in> set ms. is_alert (recipient_id m) (sender_id m) m \<and> is_alert (recipient_id m) (sender_id m) m'
          \<longrightarrow> \<bar>msg_created_at m - msg_created_at m'\<bar> > CONTEST_ALERT_COOLDOWN_MS) \<and>
      alerts_spaced ms)"

definition alerts_in_window :: "id \<Rightarrow> id \<Rightarrow> int \<Rightarrow> inbox_message list \<Rightarrow> inbox_message list" where
  "alerts_in_window hunterId ghostId w inbox =
     filter (\<lambda>m. is_alert hunterId ghostId m \<and> w \<le> msg_created_at m \<and>
                 msg_created_at m \<le> w + CONTEST_ALERT_COOLDOWN_MS) inbox"

definition proximity_alert :: "id \<Rightarrow> id \<Rightarrow> ghost_row \<Rightarrow> distance \<Rightarrow> int \<Rightarrow> inbox_message" where
  "proximity_alert newId hunterId ghost d now =
     \<lparr> msg_id = newId, recipient_id = hunterId, msg_post_id = None, sender_id = g_user_id ghost,
       msg_created_at = now, read = False, msg_type = ''contest_alert'',
       message = Some (alert_message (g_display_name ghost) d) \<rparr>"

definition in_range :: "rounding \<Rightarrow> number \<Rightarrow> number \<Rightarrow> ghost_row \<Rightarrow> bool" where
  "in_range fl lat lng ghost \<longleftrightarrow>
     dist_le (distanceKm fl (Some lat) (Some lng) (g_location_lat ghost) (g_location_lng ghost))
       CONTEST_PROXIMITY_KM"

subsection \<open>Captures\<close>

text \<open>The notifications of a recorded capture.\<close>

definition is_capture_notice :: "inbox_message \<Rightarrow> bool" where
  "is_capture_notice m \<longleftrightarrow> msg_type m = ''contest_capture'' \<or> msg_type m = ''contest_captured''"

text \<open>\<open>req.body.contestChallenge || ''\<close>.\<close>

definition claimed_challenge :: "post_request \<Rightarrow> string" where
  "claimed_challenge req =
     (if falsy (body_contestChallenge req) then [] else the (body_contestChallenge req))"

text \<open>
  The database with every location field blanked: the reported position of each user
  and the last position recorded on each assignment.
\<close>

definition erase_user_location :: "user \<Rightarrow> user" where
  "erase_user_location u = u\<lparr> location_lat := None, location_lng := None, location_updated_at := None \<rparr>"

definition erase_assignment_location :: "assignment \<Rightarrow> assignment" where
  "erase_assignment_location a = a\<lparr> last_location_lat := None, last_location_lng := None \<rparr>"

definition erase_locations :: "database \<Rightarrow> database" where
  "erase_locations db = db\<lparr>
     users := map erase_user_location (users db),
     contest_assignments := map erase_assignment_location (contest_assignments db) \<rparr>"

section \<open>Example states\<close>

text \<open>
  The week that starts on Sunday 2024-01-07 at 20:00 UTC, four users of whom Devon has
  opted out, and two states of that week: before any assignment, and with one hunter
  and a stale row of the opted-out user.
\<close>

definition week1 :: contest_week where
  "week1 = \<lparr> cw_id = ''w1'', starts_at = 1704657600000, ends_at = 1705262400000,
             challenge = ''Capture them eating'' \<rparr>"

definition mk_user :: "id \<Rightarrow> string \<Rightarrow> bool \<Rightarrow> user" where
  "mk_user i name optedOut =
     \<lparr> u_id = i, display_name = name, location_lat = None, location_lng = None,
       location_updated_at = None, bekandid_enabled = optedOut \<rparr>"

definition mk_assignment :: "id \<Rightarrow> string \<Rightarrow> assignment" where
  "mk_assignment userId r = new_assignment ''w1'' userId r 1704657600000"

definition no_random :: "nat \<Rightarrow> real" where
  "no_random i = 0"

definition empty_db :: database where
  "empty_db = \<lparr> users = [], contest_weeks = [], contest_assignments = [], contest_captures = [],
                inbox_messages = [], posts = [] \<rparr>"

definition fresh_week_db :: database where
  "fresh_week_db = empty_db\<lparr>
     users := [mk_user ''ari'' ''Ari'' False, mk_user ''mina'' ''Mina'' False,
               mk_user ''kim'' ''Kim'' False, mk_user ''devon'' ''Devon'' True],
     contest_weeks := [week1] \<rparr>"

definition midweek_db :: database where
  "midweek_db = fresh_week_db\<lparr>
     contest_assignments := [mk_assignment ''ari'' ''hunter'', mk_assignment ''devon'' ''ghost''] \<rparr>"

text \<open>
  A state of the example week with two participants, Ari hunting and Mina hiding; the
  row of the ghost is a parameter. The clock reads Monday 2024-01-08, 07:46:40 UTC.
\<close>

definition duel_db :: "assignment \<Rightarrow> database" where
  "duel_db ghost = empty_db\<lparr>
     users := [mk_user ''ari'' ''Ari'' False, mk_user ''mina'' ''Mina'' False],
     contest_weeks := [week1],
     contest_assignments := [mk_assignment ''ari'' ''hunter'', ghost] \<rparr>"

definition monday :: int where
  "monday = 1704700000000"

definition amb0 :: ambient where
  "amb0 = \<lparr> contest_now = monday, contest_new_id = ''w2'', contest_random = 0,
            sync_now = monday, sync_random = no_random \<rparr>"

definition no_ids :: "nat \<Rightarrow> id" where
  "no_ids k = ''m'' @ show_nat k"

text \<open>A ghost that has stayed at (10, 20) since Sunday 20:40 and is flagged already.\<close>

definition camping_ghost :: assignment where
  "camping_ghost = (mk_assignment ''mina'' ''ghost'')\<lparr>
     camping_violation := True, last_location_lat := Some (Finite 10), last_location_lng := Some (Finite 20),
     last_move_at := Some 1704660000000 \<rparr>"

text \<open>
  A ghost that was last seen at (8, -180), eleven hours ago, and is not flagged. For her
  move to (-8, 0), the point opposite on the globe, the exact haversine sum is 1 and the
  doubles give 1.0000000000000002, one unit in the last place more: \<open>one_ulp_up\<close> is a
  rounding that does so.
\<close>

definition antipodal_ghost :: assignment where
  "antipodal_ghost = (mk_assignment ''mina'' ''ghost'')\<lparr>
     last_location_lat := Some (Finite 8), last_location_lng := Some (Finite (- 180)),
     last_move_at := Some 1704660000000 \<rparr>"

definition one_ulp_up :: rounding where
  "one_ulp_up = \<lparr> of_sum = (\<lambda>lat1 lon1 lat2 lon2 x. x + 1 / 4503599627370496),
                  of_distance = (\<lambda>lat1 lon1 lat2 lon2 d. d) \<rparr>"

text \<open>Mina hides at (10, 20); her position is in the user directory.\<close>

definition nearby_db :: database where
  "nearby_db = (duel_db (mk_assignment ''mina'' ''ghost''))\<lparr>
     users := [mk_user ''ari'' ''Ari'' False,
               (mk_user ''mina'' ''Mina'' False)\<lparr> location_lat := Some (Finite 10), location_lng := Some (Finite 20) \<rparr>] \<rparr>"

definition alerted_db :: database where
  "alerted_db = handleContestLocationUpdate exact amb0 monday no_ids ''ari'' (Finite 10) (Finite 20) nearby_db"

text \<open>
  Ari posts a picture of Mina as a contest capture. In \<open>signup_db\<close> the two have signed
  up and nothing else has happened; \<open>captured_db\<close> is the example week after Ari has
  captured Mina once.
\<close>

definition signup_db :: database where
  "signup_db = empty_db\<lparr> users := [mk_user ''ari'' ''Ari'' False, mk_user ''mina'' ''Mina'' False] \<rparr>"

definition week2 :: contest_week where
  "week2 = \<lparr> cw_id = ''w2'', starts_at = 1704657600000, ends_at = 1705262400000,
             challenge = ''Capture them eating'' \<rparr>"

definition capture_request :: "string \<Rightarrow> post_request" where
  "capture_request chal =
     \<lparr> req_userId = ''ari'', body_recipientId = Some ''mina'', body_image = Some ''data:image/png;base64,AAAA'',
       body_caption = None, body_visibility = None, body_contestCapture = True,
       body_contestChallenge = Some chal \<rparr>"

definition ids1 :: capture_ids where
  "ids1 = \<lparr> capture_row_id = ''c1'', hunter_msg_id = ''n1'', ghost_msg_id = ''n2'' \<rparr>"

definition ids2 :: capture_ids where
  "ids2 = \<lparr> capture_row_id = ''c2'', hunter_msg_id = ''n3'', ghost_msg_id = ''n4'' \<rparr>"

definition pa0 :: post_ambient where
  "pa0 = \<lparr> post_now = monday, post_new_id = ''p1'', drop_msg_id = ''d1'', capture_ambient = amb0,
           capture_now = monday, capture_new_ids = ids1, state_ambient = amb0 \<rparr>"

definition captured_db :: database where
  "captured_db = snd (handleContestCapture amb0 monday ids1 ''ari'' ''mina'' ''p1'' ''Capture them eating''
                        (duel_db (mk_assignment ''mina'' ''ghost'')))"

text \<open>
  Ari has never reported a position; in \<open>far_db\<close> he is in Sydney, far from Mina.
  \<open>posted\<close> is a state as the capture handler meets it: the route has stored Ari's post
  \<open>p1\<close> and the drop message for Mina.
\<close>

definition posted :: "database \<Rightarrow> database" where
  "posted db = db\<lparr>
     posts := [\<lparr> p_id = ''p1'', author_id = ''ari'', p_recipient_id = ''mina'',
                 image = ''data:image/png;base64,AAAA'', caption = [], p_created_at = monday,
                 visibility = ''public'', original_post_id = None \<rparr>],
     inbox_messages := [\<lparr> msg_id = ''d1'', recipient_id = ''mina'', msg_post_id = Some ''p1'',
                          sender_id = ''ari'', msg_created_at = monday, read = False,
                          msg_type = ''drop'', message = None \<rparr>] \<rparr>"

definition far_db :: database where
  "far_db = nearby_db\<lparr>
     users := [(mk_user ''ari'' ''Ari'' False)\<lparr> location_lat := Some (Finite (- 34)), location_lng := Some (Finite 151),
                                              location_updated_at := Some monday \<rparr>,
               (mk_user ''mina'' ''Mina'' False)\<lparr> location_lat := Some (Finite 10), location_lng := Some (Finite 20) \<rparr>] \<rparr>"

section \<open>Verification\<close>

subsection \<open>The contest window\<close>

lemma divmod_unique:
  fixes a b q r :: int
  assumes "a = b * q + r" "0 \<le> r" "r < b"
  shows "a div b = q" and "a mod b = r"
  using assms by (auto simp: int_div_pos_eq int_mod_pos_eq)

lemma fields:
  fixes d h m s ms :: int
  assumes "0 \<le> h" "h < 24" "0 \<le> m" "m < 60" "0 \<le> s" "s < 60" "0 \<le> ms" "ms < 1000"
  shows "Day (MakeDate d (MakeTime h m s ms)) = d"
    and "HourFromTime (MakeDate d (MakeTime h m s ms)) = h"
    and "MinFromTime (MakeDate d (MakeTime h m s ms)) = m"
    and "SecFromTime (MakeDate d (MakeTime h m s ms)) = s"
    and "msFromTime (MakeDate d (MakeTime h m s ms)) = ms"
    and "TimeWithinDay (MakeDate d (MakeTime h m s ms)) = MakeTime h m s ms"
proof -
  let ?T = "MakeDate d (MakeTime h m s ms)"
  have T: "?T = d * 86400000 + h * 3600000 + m * 60000 + s * 1000 + ms"
    by (simp add: MakeDate_def MakeTime_def msPerDay_def)
  have "?T div 86400000 = d" "?T mod 86400000 = h * 3600000 + m * 60000 + s * 1000 + ms"
    using assms by (auto intro!: divmod_unique [where q = d] simp: T)
  then show "Day ?T = d" "TimeWithinDay ?T = MakeTime h m s ms"
    by (simp_all add: Day_def TimeWithinDay_def msPerDay_def MakeTime_def)
  have "?T div 3600000 = d * 24 + h"
    using assms by (intro divmod_unique(1) [where r = "m * 60000 + s * 1000 + ms"]) (auto simp: T)
  moreover have "(d * 24 + h) mod 24 = h"
    using assms by (intro divmod_unique(2) [where q = d]) auto
  ultimately show "HourFromTime ?T = h"
    by (simp only: HourFromTime_def)
  have "?T div 60000 = (d * 24 + h) * 60 + m"
    using assms by (intro divmod_unique(1) [where r = "s * 1000 + ms"]) (auto simp: T)
  moreover have "((d * 24 + h) * 60 + m) mod 60 = m"
    using assms by (intro divmod_unique(2) [where q = "d * 24 + h"]) auto
  ultimately show "MinFromTime ?T = m"
    by (simp only: MinFromTime_def)
  have "?T div 1000 = ((d * 24 + h) * 60 + m) * 60 + s"
    using assms by (intro divmod_unique(1) [where r = "ms"]) (auto simp: T)
  moreover have "(((d * 24 + h) * 60 + m) * 60 + s) mod 60 = s"
    using assms by (intro divmod_unique(2) [where q = "(d * 24 + h) * 60 + m"]) auto
  ultimately show "SecFromTime ?T = s"
    by (simp only: SecFromTime_def)
  have "?T mod 1000 = ms"
    using assms by (intro divmod_unique(2) [where q = "((d * 24 + h) * 60 + m) * 60 + s"]) (auto simp: T)
  then show "msFromTime ?T = ms"
    by (simp add: msFromTime_def)
qed

lemma field_bounds:
  "0 \<le> HourFromTime t" "HourFromTime t < 24" "0 \<le> MinFromTime t" "MinFromTime t < 60"
  "0 \<le> SecFromTime t" "SecFromTime t < 60" "0 \<le> msFromTime t" "msFromTime t < 1000"
  by (simp_all add: HourFromTime_def MinFromTime_def SecFromTime_def msFromTime_def)

lemma start_of_day:
  "setUTCHours (setUTCMinutes (setUTCSeconds (setUTCMilliseconds t 0) 0) 0) 20 = MakeDate (Day t) (MakeTime 20 0 0 0)"
  by (simp add: setUTCMilliseconds_def setUTCSeconds_def setUTCMinutes_def setUTCHours_def fields field_bounds)

lemma Day_start_of_day: "Day (MakeDate d (MakeTime 20 0 0 0)) = d"
  and TimeWithinDay_start_of_day: "TimeWithinDay (MakeDate d (MakeTime 20 0 0 0)) = MakeTime 20 0 0 0"
  by (simp_all add: fields)

lemma setUTCDate_start_of_day:
  "setUTCDate (MakeDate d (MakeTime 20 0 0 0)) (getUTCDate (MakeDate d (MakeTime 20 0 0 0)) - k) =
     MakeDate (d - k) (MakeTime 20 0 0 0)"
  by (simp add: setUTCDate_def getUTCDate_def DateFromTime_def Day_start_of_day TimeWithinDay_start_of_day)

lemma getUTCDate_start_of_day: "getUTCDate (MakeDate (Day t) (MakeTime 20 0 0 0)) = getUTCDate t"
  by (simp add: getUTCDate_def DateFromTime_def Day_start_of_day)

lemma dayDiff_eq: "(getUTCDay t - CONTEST_START_DAY_UTC + 7) mod 7 = WeekDay t"
  by (simp add: getUTCDay_def CONTEST_START_DAY_UTC_def WeekDay_def)

lemma dayDiff_eq': "(getUTCDay t - CONTEST_START_DAY_UTC) mod 7 = WeekDay t"
  using dayDiff_eq [of t] by simp

lemma getContestWindow_closed:
  "getContestWindow t =
     (let s1 = MakeDate (Day t - WeekDay t) (MakeTime 20 0 0 0);
          s = (if s1 > t then MakeDate (Day t - WeekDay t - 7) (MakeTime 20 0 0 0) else s1)
      in \<lparr> startsAt = s, endsAt = s + CONTEST_DURATION_MS \<rparr>)"
proof -
  have "setUTCDate (MakeDate (Day t) (MakeTime 20 0 0 0)) (getUTCDate t - WeekDay t) =
        MakeDate (Day t - WeekDay t) (MakeTime 20 0 0 0)"
    using setUTCDate_start_of_day [of "Day t" "WeekDay t"] by (simp add: getUTCDate_start_of_day)
  then show ?thesis
    by (simp add: getContestWindow_def Let_def start_of_day CONTEST_START_HOUR_UTC_def dayDiff_eq dayDiff_eq'
        setUTCDate_start_of_day)
qed

lemma is_contest_start_MakeDate:
  "(d + 4) mod 7 = 0 \<Longrightarrow> is_contest_start (MakeDate d (MakeTime 20 0 0 0))"
  by (simp add: is_contest_start_def getUTCDay_def WeekDay_def fields CONTEST_START_DAY_UTC_def CONTEST_START_HOUR_UTC_def)

lemma recompose: "t = MakeDate (Day t) (MakeTime (HourFromTime t) (MinFromTime t) (SecFromTime t) (msFromTime t))"
proof -
  define q1 q2 q3 where "q1 = t div 1000" and "q2 = t div 60000" and "q3 = t div 3600000"
  define d h m s ms where "d = Day t" and "h = HourFromTime t" and "m = MinFromTime t"
    and "s = SecFromTime t" and "ms = msFromTime t"
  have d1: "q2 = q1 div 60" and d2: "q3 = q2 div 60" and d3: "d = q3 div 24"
    by (simp_all add: q1_def q2_def q3_def d_def Day_def msPerDay_def zdiv_zmult2_eq [symmetric])
  have e1: "t = 1000 * q1 + ms"
    by (simp add: q1_def ms_def msFromTime_def)
  have e2: "q1 = 60 * q2 + s"
    unfolding d1 by (simp add: s_def SecFromTime_def q1_def)
  have e3: "q2 = 60 * q3 + m"
    unfolding d2 by (simp add: m_def MinFromTime_def q2_def)
  have e4: "q3 = 24 * d + h"
    unfolding d3 by (simp add: h_def HourFromTime_def q3_def)
  have "t = d * 86400000 + h * 3600000 + m * 60000 + s * 1000 + ms"
    using e1 e2 e3 e4 by linarith
  then show ?thesis
    by (simp add: MakeDate_def MakeTime_def msPerDay_def d_def h_def m_def s_def ms_def)
qed

lemma is_contest_start_form:
  assumes "is_contest_start s"
  shows "s = MakeDate (Day s) (MakeTime 20 0 0 0)" "(Day s + 4) mod 7 = 0"
proof -
  from assms have "HourFromTime s = 20" "MinFromTime s = 0" "SecFromTime s = 0" "msFromTime s = 0" "(Day s + 4) mod 7 = 0"
    by (simp_all add: is_contest_start_def getUTCDay_def WeekDay_def CONTEST_START_DAY_UTC_def CONTEST_START_HOUR_UTC_def)
  then show "s = MakeDate (Day s) (MakeTime 20 0 0 0)" "(Day s + 4) mod 7 = 0"
    using recompose [of s] by simp_all
qed

lemma Day_bounds: "Day t * 86400000 \<le> t" "t < Day t * 86400000 + 86400000"
proof -
  have "t = 86400000 * (t div 86400000) + t mod 86400000" by simp
  moreover have "0 \<le> t mod 86400000" "t mod 86400000 < 86400000" by simp_all
  ultimately show "Day t * 86400000 \<le> t" "t < Day t * 86400000 + 86400000"
    unfolding Day_def msPerDay_def by linarith+
qed

lemma WeekDay_bounds: "0 \<le> WeekDay t" "WeekDay t \<le> 6" "(Day t - WeekDay t + 4) mod 7 = 0" "(Day t - WeekDay t - 7 + 4) mod 7 = 0"
  unfolding WeekDay_def by presburger+

lemma window_props:
  "is_contest_start (startsAt (getContestWindow t))"
  "startsAt (getContestWindow t) \<le> t"
  "t < startsAt (getContestWindow t) + CONTEST_DURATION_MS"
  "endsAt (getContestWindow t) = startsAt (getContestWindow t) + CONTEST_DURATION_MS"
proof -
  have "is_contest_start (MakeDate (Day t - WeekDay t) (MakeTime 20 0 0 0))"
    by (rule is_contest_start_MakeDate) (rule WeekDay_bounds(3))
  moreover have "is_contest_start (MakeDate (Day t - WeekDay t - 7) (MakeTime 20 0 0 0))"
    by (rule is_contest_start_MakeDate) (rule WeekDay_bounds(4))
  ultimately show "is_contest_start (startsAt (getContestWindow t))"
    by (simp add: getContestWindow_closed Let_def)
  show "startsAt (getContestWindow t) \<le> t"
    using Day_bounds [of t] WeekDay_bounds(1,2) [of t]
    by (simp add: getContestWindow_closed Let_def MakeDate_def MakeTime_def msPerDay_def)
  show "t < startsAt (getContestWindow t) + CONTEST_DURATION_MS"
    using Day_bounds [of t] WeekDay_bounds(1,2) [of t]
    by (simp add: getContestWindow_closed Let_def MakeDate_def MakeTime_def msPerDay_def CONTEST_DURATION_MS_def)
  show "endsAt (getContestWindow t) = startsAt (getContestWindow t) + CONTEST_DURATION_MS"
    by (simp add: getContestWindow_closed Let_def)
qed

lemma contest_starts_apart:
  assumes "is_contest_start a" "is_contest_start b" "a < b + CONTEST_DURATION_MS"
  shows "a \<le> b"
proof -
  have a: "a = Day a * 86400000 + 72000000" and b: "b = Day b * 86400000 + 72000000"
    using is_contest_start_form(1) [OF assms(1)] is_contest_start_form(1) [OF assms(2)]
    by (simp_all add: MakeDate_def MakeTime_def msPerDay_def)
  have "Day a < Day b + 7"
    using assms(3) a b unfolding CONTEST_DURATION_MS_def by linarith
  moreover have "(Day a + 4) mod 7 = 0" "(Day b + 4) mod 7 = 0"
    using is_contest_start_form(2) assms by blast+
  ultimately have "Day a \<le> Day b" by presburger
  then show ?thesis using a b by linarith
qed

text \<open>
  Claim C6. For every instant \<open>t\<close> the window starts at a Sunday 20:00:00.000 UTC that
  is at or before \<open>t\<close>, no later contest start is at or before \<open>t\<close> (so it is the
  most recent one), and the window ends 7 days after it starts. At an instant that is
  itself a contest start the window starts at that instant; one second earlier
  (Sunday 19:59:59) it is the window of the week before. The window is a function of
  the instant alone.
\<close>

theorem getContestWindow_most_recent_start:
  "is_contest_start (startsAt (getContestWindow t)) \<and>
   startsAt (getContestWindow t) \<le> t \<and>
   (\<forall>s. is_contest_start s \<and> s \<le> t \<longrightarrow> s \<le> startsAt (getContestWindow t)) \<and>
   endsAt (getContestWindow t) = startsAt (getContestWindow t) + 7 * 24 * 60 * 60 * 1000 \<and>
   (is_contest_start t \<longrightarrow>
      startsAt (getContestWindow t) = t \<and>
      startsAt (getContestWindow (t - 1000)) = t - 7 * 24 * 60 * 60 * 1000)"
proof -
  have recent: "s \<le> startsAt (getContestWindow u)" if "is_contest_start s" "s \<le> u" for s u
    using that window_props(3) [of u] by (intro contest_starts_apart window_props(1)) auto
  have exact: "startsAt (getContestWindow t) = t" if "is_contest_start t"
    using recent [OF that, of t] window_props(2) [of t] by simp
  have before: "startsAt (getContestWindow (t - 1000)) = t - 7 * 24 * 60 * 60 * 1000" if st: "is_contest_start t"
  proof -
    let ?p = "t - 7 * 24 * 60 * 60 * 1000"
    have t: "t = MakeDate (Day t) (MakeTime 20 0 0 0)" and wd: "(Day t + 4) mod 7 = 0"
      using is_contest_start_form [OF st] by simp_all
    have "?p = MakeDate (Day t - 7) (MakeTime 20 0 0 0)"
      using t by (simp add: MakeDate_def msPerDay_def)
    moreover have "(Day t - 7 + 4) mod 7 = 0" using wd by presburger
    ultimately have p: "is_contest_start ?p"
      using is_contest_start_MakeDate [of "Day t - 7"] by simp
    have le: "?p \<le> startsAt (getContestWindow (t - 1000))"
      using recent [OF p, of "t - 1000"] by simp
    have "startsAt (getContestWindow (t - 1000)) < ?p + CONTEST_DURATION_MS"
      using window_props(2) [of "t - 1000"] by (simp add: CONTEST_DURATION_MS_def)
    then have "startsAt (getContestWindow (t - 1000)) \<le> ?p"
      by (intro contest_starts_apart window_props(1) p)
    with le show ?thesis by simp
  qed
  show ?thesis
    using recent exact before window_props [of t] by (auto simp: CONTEST_DURATION_MS_def)
qed

text \<open>
  2024-01-07 was a Sunday: 20:00:00 UTC on that day is the time value 1704657600000, and
  the Sunday before was 2023-12-31, in another month and year.
\<close>

lemma sunday_ex: "is_contest_start 1704657600000"
  by (simp add: is_contest_start_def getUTCDay_def WeekDay_def Day_def msPerDay_def HourFromTime_def
     MinFromTime_def SecFromTime_def msFromTime_def CONTEST_START_DAY_UTC_def CONTEST_START_HOUR_UTC_def)

theorem getContestWindow_most_recent_start_witness:
  "is_contest_start 1704657600000 \<and>
   getContestWindow 1704657600000 = \<lparr> startsAt = 1704657600000, endsAt = 1705262400000 \<rparr> \<and>
   getContestWindow 1704657599000 = \<lparr> startsAt = 1704052800000, endsAt = 1704657600000 \<rparr>"
proof -
  have s: "is_contest_start 1704657600000" by (rule sunday_ex)
  have "startsAt (getContestWindow 1704657600000) = 1704657600000"
       "endsAt (getContestWindow 1704657600000) = startsAt (getContestWindow 1704657600000) + 7 * 24 * 60 * 60 * 1000"
       "startsAt (getContestWindow (1704657600000 - 1000)) = 1704657600000 - 7 * 24 * 60 * 60 * 1000"
    using getContestWindow_most_recent_start [of 1704657600000] s by simp_all
  moreover have "endsAt (getContestWindow 1704657599000) = startsAt (getContestWindow 1704657599000) + 7 * 24 * 60 * 60 * 1000"
    using getContestWindow_most_recent_start [of 1704657599000] by simp
  ultimately show ?thesis using s by simp
qed

subsection \<open>The role assignment\<close>

lemma random_index:
  assumes "0 \<le> r" "r < 1"
  shows "nat \<lfloor>r * real (Suc n)\<rfloor> \<le> n"
proof -
  have "r * real (Suc n) < real (Suc n)" using assms by simp
  then have "\<lfloor>r * real (Suc n)\<rfloor> < int (Suc n)" by linarith
  then show ?thesis by linarith
qed

lemma length_shuffle_loop: "length (shuffle_loop rnd k xs) = length xs"
  by (induction k arbitrary: xs) (simp_all add: Let_def)

lemma length_shuffle: "length (shuffle rnd xs) = length xs"
  by (simp add: shuffle_def length_shuffle_loop)

lemma mset_shuffle_loop:
  "random_ok rnd \<Longrightarrow> k < length xs \<Longrightarrow> mset (shuffle_loop rnd k xs) = mset xs"
proof (induction k arbitrary: xs)
  case 0
  then show ?case by simp
next
  case (Suc k)
  let ?j = "nat \<lfloor>rnd (Suc k) * real (Suc k + 1)\<rfloor>"
  have "?j \<le> Suc k"
    using Suc.prems(1) random_index [of "rnd (Suc k)" "Suc k"] by (simp add: random_ok_def)
  then have j: "?j < length xs" using Suc.prems(2) by simp
  have "mset (xs[Suc k := xs ! ?j, ?j := xs ! Suc k]) = mset xs"
    using mset_swap [OF j Suc.prems(2)] .
  moreover have "mset (shuffle_loop rnd k (xs[Suc k := xs ! ?j, ?j := xs ! Suc k])) =
        mset (xs[Suc k := xs ! ?j, ?j := xs ! Suc k])"
    using Suc.prems by (intro Suc.IH) simp_all
  ultimately show ?case by (simp add: Let_def)
qed

lemma mset_shuffle: "random_ok rnd \<Longrightarrow> mset (shuffle rnd xs) = mset xs"
proof (cases xs)
  case Nil
  then show ?thesis by (simp add: shuffle_def)
next
  case (Cons x ys)
  assume "random_ok rnd"
  then show ?thesis unfolding shuffle_def by (intro mset_shuffle_loop) (simp_all add: Cons)
qed

lemma set_shuffle: "random_ok rnd \<Longrightarrow> set (shuffle rnd xs) = set xs"
  by (metis mset_shuffle set_mset_mset)

lemma distinct_shuffle: "random_ok rnd \<Longrightarrow> distinct (shuffle rnd xs) = distinct xs"
  by (metis mset_shuffle mset_eq_imp_distinct_iff)

lemma retract_alt:
  "(if opted_out_ids db \<noteq> []
    then db\<lparr> contest_assignments :=
            filter (\<lambda>a. \<not> (contest_id a = cid \<and> user_id a \<in> set (opted_out_ids db))) (contest_assignments db) \<rparr>
    else db) = db\<lparr> contest_assignments := retract cid db \<rparr>"
  by (simp add: retract_def)

lemma sync_eq:
  "syncContestAssignments cid now rnd db =
     (let A = retract cid db;
          existing = filter (\<lambda>a. contest_id a = cid) A
      in if existing = []
         then db\<lparr> contest_assignments := A
                @ map (\<lambda>p. new_assignment cid p ''hunter'' now)
                    (take (nat \<lceil>real (length (eligible_ids db)) / 2\<rceil>) (shuffle rnd (eligible_ids db)))
                @ map (\<lambda>p. new_assignment cid p ''ghost'' now)
                    (drop (nat \<lceil>real (length (eligible_ids db)) / 2\<rceil>) (shuffle rnd (eligible_ids db))) \<rparr>
         else db\<lparr> contest_assignments :=
                assign_loop cid now (length (filter (\<lambda>a. role a = ''hunter'') existing))
                  (length (filter (\<lambda>a. role a = ''ghost'') existing))
                  (filter (\<lambda>p. p \<notin> user_id ` set existing) (eligible_ids db)) A \<rparr>)"
  unfolding syncContestAssignments_def eligible_ids_def [symmetric] opted_out_ids_def [symmetric]
  by (simp add: Let_def retract_alt length_shuffle del: One_nat_def)

lemma assign_loop_append:
  "\<exists>rs. length rs = length ps \<and> set rs \<subseteq> {''hunter'', ''ghost''} \<and>
        assign_loop cid now hc gc ps rows = rows @ map (\<lambda>(p, r). new_assignment cid p r now) (zip ps rs)"
proof (induction ps arbitrary: hc gc rows)
  case Nil
  then show ?case by simp
next
  case (Cons p ps)
  let ?r = "if hc \<le> gc then ''hunter'' else ''ghost''"
  let ?rows = "rows @ [new_assignment cid p ?r now]"
  obtain hc' gc' where step: "assign_loop cid now hc gc (p # ps) rows = assign_loop cid now hc' gc' ps ?rows"
    by (cases "hc \<le> gc") (simp_all add: Let_def)
  from Cons.IH [of hc' gc' ?rows] obtain rs where rs: "length rs = length ps" "set rs \<subseteq> {''hunter'', ''ghost''}"
    "assign_loop cid now hc' gc' ps ?rows = ?rows @ map (\<lambda>(p, r). new_assignment cid p r now) (zip ps rs)"
    by blast
  show ?case
    by (rule exI [of _ "?r # rs"]) (use rs step in simp)
qed

lemma assign_loop_keys:
  "map assignment_key (assign_loop cid now hc gc ps rows) = map assignment_key rows @ map (Pair cid) ps"
proof -
  obtain rs where rs: "length rs = length ps"
    "assign_loop cid now hc gc ps rows = rows @ map (\<lambda>(p, r). new_assignment cid p r now) (zip ps rs)"
    using assign_loop_append by blast
  have "map assignment_key (map (\<lambda>(p, r). new_assignment cid p r now) (zip ps rs)) = map (Pair cid) (map fst (zip ps rs))"
    by (simp add: assignment_key_def new_assignment_def case_prod_beta)
  then show ?thesis using rs by simp
qed

lemma users_sync [simp]: "users (syncContestAssignments cid now rnd db) = users db"
  by (simp add: sync_eq Let_def)

lemma fresh_row_new [simp]:
  "fresh_row cid now (new_assignment cid p r now) \<longleftrightarrow> r = ''hunter'' \<or> r = ''ghost''"
  by (simp add: fresh_row_def new_assignment_def)

lemma user_id_new [simp]: "user_id (new_assignment cid p r now) = p"
  by (simp add: new_assignment_def)

lemma sync_assignments:
  "\<exists>new. contest_assignments (syncContestAssignments cid now rnd db) = retract cid db @ new \<and>
     (\<forall>a \<in> set new. fresh_row cid now a) \<and>
     (random_ok rnd \<longrightarrow> mset (map user_id new) =
        mset (filter (\<lambda>p. p \<notin> user_id ` set (filter (\<lambda>a. contest_id a = cid) (retract cid db))) (eligible_ids db)))"
proof (cases "filter (\<lambda>a. contest_id a = cid) (retract cid db) = []")
  case True
  let ?sh = "shuffle rnd (eligible_ids db)"
  let ?m = "nat \<lceil>real (length (eligible_ids db)) / 2\<rceil>"
  let ?new = "map (\<lambda>p. new_assignment cid p ''hunter'' now) (take ?m ?sh) @
              map (\<lambda>p. new_assignment cid p ''ghost'' now) (drop ?m ?sh)"
  have "contest_assignments (syncContestAssignments cid now rnd db) = retract cid db @ ?new"
    using True by (simp add: sync_eq Let_def)
  moreover have "\<forall>a \<in> set ?new. fresh_row cid now a" by auto
  moreover have "map user_id ?new = take ?m ?sh @ drop ?m ?sh"
    by (simp add: comp_def)
  then have "map user_id ?new = ?sh"
    by (simp only: append_take_drop_id)
  ultimately show ?thesis
    using True by (intro exI [of _ ?new]) (simp add: mset_shuffle)
next
  case False
  let ?E = "filter (\<lambda>a. contest_id a = cid) (retract cid db)"
  let ?ps = "filter (\<lambda>p. p \<notin> user_id ` set ?E) (eligible_ids db)"
  obtain rs where rs: "length rs = length ?ps" "set rs \<subseteq> {''hunter'', ''ghost''}"
    "assign_loop cid now (length (filter (\<lambda>a. role a = ''hunter'') ?E)) (length (filter (\<lambda>a. role a = ''ghost'') ?E)) ?ps (retract cid db)
       = retract cid db @ map (\<lambda>(p, r). new_assignment cid p r now) (zip ?ps rs)"
    using assign_loop_append by blast
  let ?new = "map (\<lambda>(p, r). new_assignment cid p r now) (zip ?ps rs)"
  have "contest_assignments (syncContestAssignments cid now rnd db) = retract cid db @ ?new"
    using False rs(3) by (simp add: sync_eq Let_def)
  moreover have "\<forall>a \<in> set ?new. fresh_row cid now a"
    using rs(2) by (auto dest!: set_zip_rightD)
  moreover have "map user_id ?new = map fst (zip ?ps rs)"
    by (simp add: case_prod_beta)
  then have "map user_id ?new = ?ps" using rs(1) by simp
  ultimately show ?thesis
    by (intro exI [of _ ?new]) simp
qed

lemma length_filter_key:
  "distinct (map f xs) \<Longrightarrow> length (filter (\<lambda>x. f x = k) xs) = (if k \<in> f ` set xs then 1 else 0)"
  by (induction xs) auto

lemma rows_of_key: "rows_of cid uid db = filter (\<lambda>a. assignment_key a = (cid, uid)) (contest_assignments db)"
  by (simp add: rows_of_def assignment_key_def)

lemma distinct_retract:
  "distinct (map assignment_key (contest_assignments db)) \<Longrightarrow> distinct (map assignment_key (retract cid db))"
  by (simp add: retract_def distinct_map_filter)

lemma eligible_not_opted_out:
  "distinct (map u_id (users db)) \<Longrightarrow> set (eligible_ids db) \<inter> set (opted_out_ids db) = {}"
  by (auto simp: eligible_ids_def opted_out_ids_def distinct_map inj_on_def)

lemma distinct_eligible: "distinct (map u_id (users db)) \<Longrightarrow> distinct (eligible_ids db)"
  by (simp add: eligible_ids_def distinct_map_filter)

text \<open>The facts about a sync that the claims rest on.\<close>

lemma sync_summary:
  fixes cid :: id and now :: int
  assumes ok: "keys_ok db" and rnd: "random_ok rnd"
  defines "db' \<equiv> syncContestAssignments cid now rnd db"
  shows "distinct (map assignment_key (contest_assignments db'))"
    and "\<And>p. p \<in> set (eligible_ids db) \<Longrightarrow> (cid, p) \<in> assignment_key ` set (contest_assignments db')"
    and "\<And>p. p \<in> set (opted_out_ids db) \<Longrightarrow> (cid, p) \<notin> assignment_key ` set (contest_assignments db')"
proof -
  let ?A = "retract cid db"
  let ?E = "filter (\<lambda>a. contest_id a = cid) ?A"
  let ?ps = "filter (\<lambda>p. p \<notin> user_id ` set ?E) (eligible_ids db)"
  from ok have du: "distinct (map u_id (users db))" and da: "distinct (map assignment_key (contest_assignments db))"
    by (simp_all add: keys_ok_def)
  obtain new where new: "contest_assignments db' = ?A @ new" "\<forall>a \<in> set new. fresh_row cid now a"
    "mset (map user_id new) = mset ?ps"
    using sync_assignments [of cid now rnd db] rnd unfolding db'_def by blast
  have keys_new: "map assignment_key new = map (Pair cid) (map user_id new)"
    using new(2) by (simp add: assignment_key_def fresh_row_def)
  have mem_new: "(cid, p) \<in> assignment_key ` set new \<longleftrightarrow> p \<in> user_id ` set new" for p
    using new(2) by (force simp: assignment_key_def fresh_row_def)
  have set_new: "set (map user_id new) = set ?ps"
    using new(3) by (metis set_mset_mset)
  have dist_new: "distinct (map user_id new)"
    using new(3) distinct_eligible [OF du] by (metis distinct_filter mset_eq_imp_distinct_iff)
  have disj: "set (map assignment_key ?A) \<inter> set (map assignment_key new) = {}"
  proof -
    have "False" if "a \<in> set ?A" "assignment_key a = (cid, p)" "p \<in> set ?ps" for a p
      using that by (auto simp: assignment_key_def)
    moreover have "set (map assignment_key new) = Pair cid ` set ?ps"
      unfolding keys_new using set_new by (simp only: set_map)
    ultimately show ?thesis by (simp only: set_map) blast
  qed
  show "distinct (map assignment_key (contest_assignments db'))"
    using distinct_retract [OF da, of cid] dist_new disj
    by (simp add: new(1) keys_new distinct_map inj_on_def)
  show "(cid, p) \<in> assignment_key ` set (contest_assignments db')" if "p \<in> set (eligible_ids db)" for p
  proof (cases "p \<in> user_id ` set ?E")
    case True
    then show ?thesis by (auto simp: new(1) assignment_key_def image_iff)
  next
    case False
    with that have "p \<in> user_id ` set new" using set_new by simp
    then have "(cid, p) \<in> assignment_key ` set new" using mem_new [of p] by blast
    then show ?thesis by (simp add: new(1) image_Un)
  qed
  show "(cid, p) \<notin> assignment_key ` set (contest_assignments db')" if "p \<in> set (opted_out_ids db)" for p
  proof -
    have A: "(cid, p) \<notin> assignment_key ` set ?A"
      using that by (auto simp: retract_def assignment_key_def)
    have "p \<notin> set (eligible_ids db)"
      using that eligible_not_opted_out [OF du] by blast
    then have "p \<notin> set ?ps" by simp
    moreover have "user_id ` set new = set ?ps"
      using set_new by (simp only: set_map)
    ultimately have "p \<notin> user_id ` set new"
      by blast
    then have "(cid, p) \<notin> assignment_key ` set new" using mem_new [of p] by blast
    with A show ?thesis by (simp add: new(1) image_Un)
  qed
qed

text \<open>
  Claim C5. After a sync against a contest, every eligible (not opted-out) user has
  exactly one assignment row in that contest and every opted-out user has none. The
  tables are taken with their keys intact (one \<open>users\<close> row per id, at most one
  assignment row per contest and user) and \<open>Math.random()\<close> within \<open>[0, 1)\<close>.
\<close>

theorem sync_one_assignment_each:
  assumes "keys_ok db" and "random_ok rnd"
  shows "\<forall>u \<in> set (users db).
           length (rows_of cid (u_id u) (syncContestAssignments cid now rnd db)) =
             (if bekandid_enabled u then 0 else 1)"
proof
  fix u assume u: "u \<in> set (users db)"
  let ?db' = "syncContestAssignments cid now rnd db"
  note s = sync_summary [OF assms, where cid = cid and now = now]
  have len: "length (rows_of cid (u_id u) ?db') = (if (cid, u_id u) \<in> assignment_key ` set (contest_assignments ?db') then 1 else 0)"
    unfolding rows_of_key by (rule length_filter_key) (rule s(1))
  show "length (rows_of cid (u_id u) ?db') = (if bekandid_enabled u then 0 else 1)"
  proof (cases "bekandid_enabled u")
    case True
    with u have "u_id u \<in> set (opted_out_ids db)" by (auto simp: opted_out_ids_def)
    from s(3) [OF this] len True show ?thesis by simp
  next
    case False
    with u have "u_id u \<in> set (eligible_ids db)" by (auto simp: eligible_ids_def)
    from s(2) [OF this] len False show ?thesis by simp
  qed
qed

lemma ceiling_half: "\<lceil>real n / 2\<rceil> = int ((n + 1) div 2)"
proof -
  have "\<lceil>real n / 2\<rceil> = \<lceil>real_of_int (int n) / real_of_int 2\<rceil>" by simp
  also have "\<dots> = - (- int n div 2)" by (rule ceiling_divide_eq_div)
  also have "\<dots> = int ((n + 1) div 2)" by presburger
  finally show ?thesis .
qed

lemma floor_half: "\<lfloor>real n / 2\<rfloor> = int (n div 2)"
proof -
  have "\<lfloor>real n / 2\<rfloor> = \<lfloor>real_of_int (int n) / real_of_int 2\<rfloor>" by simp
  also have "\<dots> = int n div 2" by (rule floor_divide_of_int_eq)
  finally show ?thesis by simp
qed

lemma retract_none:
  "contest_rows cid db = [] \<Longrightarrow> retract cid db = contest_assignments db"
  by (auto simp: contest_rows_def retract_def filter_empty_conv filter_id_conv)

text \<open>
  Claim C7. A sync against a week without assignments appends one row per eligible user,
  in the order of the shuffled population: the first \<open>ceil(n/2)\<close> as hunters, the
  remaining \<open>floor(n/2)\<close> as ghosts, so the two counts differ by at most one; every
  such row has \<open>captures = 0\<close>, \<open>survival_flag\<close> set and \<open>last_move_at = now\<close>.
\<close>

theorem initial_partition:
  assumes "contest_rows cid db = []" and "random_ok rnd"
  shows "let n = length (eligible_ids db);
             db' = syncContestAssignments cid now rnd db;
             rows = contest_rows cid db'
         in contest_assignments db' = contest_assignments db @ rows \<and>
            map user_id rows = shuffle rnd (eligible_ids db) \<and>
            mset (map user_id rows) = mset (eligible_ids db) \<and>
            map role rows = replicate (nat \<lceil>real n / 2\<rceil>) ''hunter'' @ replicate (nat \<lfloor>real n / 2\<rfloor>) ''ghost'' \<and>
            int (length (filter (\<lambda>a. role a = ''hunter'') rows)) = \<lceil>real n / 2\<rceil> \<and>
            int (length (filter (\<lambda>a. role a = ''ghost'') rows)) = \<lfloor>real n / 2\<rfloor> \<and>
            \<bar>int (length (filter (\<lambda>a. role a = ''hunter'') rows)) -
              int (length (filter (\<lambda>a. role a = ''ghost'') rows))\<bar> \<le> 1 \<and>
            (\<forall>a \<in> set rows. captures a = 0 \<and> survival_flag a \<and> last_move_at a = Some now)"
proof -
  let ?n = "length (eligible_ids db)"
  let ?sh = "shuffle rnd (eligible_ids db)"
  let ?m = "nat \<lceil>real ?n / 2\<rceil>"
  let ?new = "map (\<lambda>p. new_assignment cid p ''hunter'' now) (take ?m ?sh) @
              map (\<lambda>p. new_assignment cid p ''ghost'' now) (drop ?m ?sh)"
  let ?db' = "syncContestAssignments cid now rnd db"
  have m: "?m = (?n + 1) div 2" by (simp add: ceiling_half)
  have fl: "nat \<lfloor>real ?n / 2\<rfloor> = ?n div 2" by (simp add: floor_half)
  have E: "filter (\<lambda>a. contest_id a = cid) (retract cid db) = []"
    using assms(1) by (simp add: retract_none) (simp add: contest_rows_def)
  have A: "contest_assignments ?db' = contest_assignments db @ ?new"
    using E assms(1) by (simp add: sync_eq Let_def retract_none)
  have "filter (\<lambda>a. contest_id a = cid) ?new = ?new"
    by (simp add: filter_id_conv new_assignment_def)
  then have rows: "contest_rows cid ?db' = ?new"
    using assms(1) unfolding contest_rows_def A by simp
  have ids: "map user_id ?new = ?sh"
  proof -
    have "map user_id ?new = take ?m ?sh @ drop ?m ?sh" by (simp add: comp_def)
    then show ?thesis by (simp only: append_take_drop_id)
  qed
  have lens: "length (take ?m ?sh) = ?m" "length (drop ?m ?sh) = ?n div 2"
    unfolding m by (simp_all add: length_shuffle)
  have roles: "map role ?new = replicate ?m ''hunter'' @ replicate (?n div 2) ''ghost''"
    using lens by (simp add: comp_def new_assignment_def map_replicate_const)
  have h: "length (filter (\<lambda>a. role a = ''hunter'') ?new) = ?m"
    using lens(1) by (simp add: new_assignment_def comp_def)
  have g: "length (filter (\<lambda>a. role a = ''ghost'') ?new) = ?n div 2"
    using lens(2) by (simp add: new_assignment_def comp_def)
  have init: "\<forall>a \<in> set ?new. captures a = 0 \<and> survival_flag a \<and> last_move_at a = Some now"
    by (auto simp: new_assignment_def)
  have diff: "\<bar>int ?m - int (?n div 2)\<bar> \<le> 1" unfolding m by presburger
  have c: "int ?m = \<lceil>real ?n / 2\<rceil>" "int (?n div 2) = \<lfloor>real ?n / 2\<rfloor>"
    by (simp_all add: ceiling_half floor_half)
  show ?thesis
    unfolding Let_def rows
    using A ids roles init diff c mset_shuffle [OF assms(2), of "eligible_ids db"]
    by (simp only: h g fl)
qed

lemma sync_nothing_to_assign:
  assumes "filter (\<lambda>p. p \<notin> user_id ` set (filter (\<lambda>a. contest_id a = cid) (retract cid db))) (eligible_ids db) = []"
  shows "contest_assignments (syncContestAssignments cid now rnd db) = retract cid db"
proof (cases "filter (\<lambda>a. contest_id a = cid) (retract cid db) = []")
  case True
  with assms have "eligible_ids db = []" by simp
  then show ?thesis using True by (simp add: sync_eq Let_def shuffle_def)
next
  case False
  then show ?thesis using assms by (simp add: sync_eq Let_def)
qed

text \<open>
  Claim C9. A second sync of the same contest, with the \<open>users\<close> table as the first
  sync saw it, changes nothing: the database after it is the database before it,
  whatever the clock and the random numbers of the second run are.
\<close>

theorem sync_idempotent:
  assumes du: "distinct (map u_id (users db))" and rnd: "random_ok rnd"
  shows "syncContestAssignments cid now' rnd' (syncContestAssignments cid now rnd db) =
         syncContestAssignments cid now rnd db"
proof -
  let ?db1 = "syncContestAssignments cid now rnd db"
  let ?A = "retract cid db"
  let ?E = "filter (\<lambda>a. contest_id a = cid) ?A"
  let ?ps = "filter (\<lambda>p. p \<notin> user_id ` set ?E) (eligible_ids db)"
  obtain new where new: "contest_assignments ?db1 = ?A @ new" "\<forall>a \<in> set new. fresh_row cid now a"
    "mset (map user_id new) = mset ?ps"
    using sync_assignments [of cid now rnd db] rnd by blast
  have set_new: "user_id ` set new = set ?ps"
    using new(3) by (metis set_mset_mset set_map)
  have el: "eligible_ids ?db1 = eligible_ids db" and oo: "opted_out_ids ?db1 = opted_out_ids db"
    by (simp_all add: eligible_ids_def opted_out_ids_def)
  have "\<not> (contest_id a = cid \<and> user_id a \<in> set (opted_out_ids db))" if "a \<in> set (?A @ new)" for a
  proof (cases "a \<in> set ?A")
    case True
    then show ?thesis by (simp add: retract_def)
  next
    case False
    with that have "user_id a \<in> set ?ps" using set_new by auto
    then have "user_id a \<in> set (eligible_ids db)" by simp
    then show ?thesis using eligible_not_opted_out [OF du] by blast
  qed
  then have r1: "retract cid ?db1 = ?A @ new"
    unfolding retract_def oo new(1) by (simp only: filter_id_conv) blast
  let ?E1 = "filter (\<lambda>a. contest_id a = cid) (?A @ new)"
  have cover: "p \<in> user_id ` set ?E1" if "p \<in> set (eligible_ids db)" for p
  proof (cases "p \<in> user_id ` set ?E")
    case True
    then show ?thesis by auto
  next
    case False
    with that have "p \<in> user_id ` set new" using set_new by simp
    then obtain a where "a \<in> set new" "user_id a = p" by blast
    moreover from this new(2) have "contest_id a = cid" by (simp add: fresh_row_def)
    ultimately show ?thesis by force
  qed
  then have none: "filter (\<lambda>p. p \<notin> user_id ` set ?E1) (eligible_ids db) = []"
    by (simp only: filter_empty_conv) blast
  have "contest_assignments (syncContestAssignments cid now' rnd' ?db1) = contest_assignments ?db1"
    using none sync_nothing_to_assign [of cid ?db1 now' rnd'] unfolding r1 el new(1) by simp
  moreover have "syncContestAssignments cid now' rnd' ?db1 =
      ?db1\<lparr> contest_assignments := contest_assignments (syncContestAssignments cid now' rnd' ?db1) \<rparr>"
    by (simp add: sync_eq [of cid now' rnd' ?db1] Let_def)
  ultimately show ?thesis by simp
qed

lemma random_ok_no_random: "random_ok no_random"
  by (simp add: random_ok_def no_random_def)

lemmas example_defs = week1_def mk_user_def mk_assignment_def empty_db_def fresh_week_db_def midweek_db_def
  new_assignment_def

lemma sync_fresh:
  "contest_assignments (syncContestAssignments ''w1'' 1704700000000 no_random fresh_week_db) =
     [new_assignment ''w1'' ''mina'' ''hunter'' 1704700000000,
      new_assignment ''w1'' ''kim'' ''hunter'' 1704700000000,
      new_assignment ''w1'' ''ari'' ''ghost'' 1704700000000]"
  by (simp add: syncContestAssignments_def example_defs shuffle_def no_random_def Let_def)

lemma sync_midweek:
  "contest_assignments (syncContestAssignments ''w1'' 1704700000000 no_random midweek_db) =
     [mk_assignment ''ari'' ''hunter'',
      new_assignment ''w1'' ''mina'' ''ghost'' 1704700000000,
      new_assignment ''w1'' ''kim'' ''hunter'' 1704700000000]"
  by (simp add: syncContestAssignments_def example_defs shuffle_def no_random_def Let_def)

theorem sync_one_assignment_each_witness:
  "keys_ok midweek_db \<and> random_ok no_random \<and>
   map (\<lambda>u. length (rows_of ''w1'' (u_id u) (syncContestAssignments ''w1'' 1704700000000 no_random midweek_db)))
     (users midweek_db) = [1, 1, 1, 0]"
proof -
  have ok: "keys_ok midweek_db"
    by (simp add: keys_ok_def example_defs assignment_key_def)
  have "\<forall>u \<in> set (users midweek_db).
          length (rows_of ''w1'' (u_id u) (syncContestAssignments ''w1'' 1704700000000 no_random midweek_db)) =
          (if bekandid_enabled u then 0 else 1)"
    using sync_one_assignment_each [OF ok random_ok_no_random] .
  then show ?thesis
    using ok random_ok_no_random by (simp add: example_defs)
qed

theorem initial_partition_witness:
  "contest_rows ''w1'' fresh_week_db = [] \<and> random_ok no_random \<and>
   map user_id (contest_rows ''w1'' (syncContestAssignments ''w1'' 1704700000000 no_random fresh_week_db))
     = [''mina'', ''kim'', ''ari''] \<and>
   map role (contest_rows ''w1'' (syncContestAssignments ''w1'' 1704700000000 no_random fresh_week_db))
     = [''hunter'', ''hunter'', ''ghost'']"
proof -
  have none: "contest_rows ''w1'' fresh_week_db = []"
    by (simp add: contest_rows_def example_defs)
  have sh: "shuffle no_random (eligible_ids fresh_week_db) = [''mina'', ''kim'', ''ari'']"
    by (simp add: shuffle_def eligible_ids_def example_defs no_random_def Let_def)
  have n: "length (eligible_ids fresh_week_db) = 3"
    by (simp add: eligible_ids_def example_defs)
  have c: "nat \<lceil>real 3 / 2\<rceil> = 2" "nat \<lfloor>real 3 / 2\<rfloor> = 1"
    by (simp_all add: ceiling_half floor_half)
  have r: "replicate 2 ''hunter'' @ replicate 1 ''ghost'' = [''hunter'', ''hunter'', ''ghost'']"
    by (simp add: numeral_2_eq_2)
  from initial_partition [OF none random_ok_no_random, of 1704700000000]
  have "map user_id (contest_rows ''w1'' (syncContestAssignments ''w1'' 1704700000000 no_random fresh_week_db)) = [''mina'', ''kim'', ''ari'']"
    and "map role (contest_rows ''w1'' (syncContestAssignments ''w1'' 1704700000000 no_random fresh_week_db)) = [''hunter'', ''hunter'', ''ghost'']"
    unfolding Let_def sh n c r by blast+
  with none random_ok_no_random show ?thesis by blast
qed

theorem sync_idempotent_witness:
  "distinct (map u_id (users midweek_db)) \<and> random_ok no_random \<and>
   syncContestAssignments ''w1'' 1704800000000 no_random
     (syncContestAssignments ''w1'' 1704700000000 no_random midweek_db) =
   syncContestAssignments ''w1'' 1704700000000 no_random midweek_db \<and>
   syncContestAssignments ''w1'' 1704700000000 no_random midweek_db \<noteq> midweek_db"
proof -
  have du: "distinct (map u_id (users midweek_db))"
    by (simp add: example_defs)
  have "contest_assignments (syncContestAssignments ''w1'' 1704700000000 no_random midweek_db) \<noteq> contest_assignments midweek_db"
    unfolding sync_midweek by (simp add: example_defs)
  then have "syncContestAssignments ''w1'' 1704700000000 no_random midweek_db \<noteq> midweek_db"
    by auto
  then show ?thesis
    using du random_ok_no_random sync_idempotent [OF du random_ok_no_random, of "''w1''" 1704800000000 no_random 1704700000000]
    by simp
qed

subsection \<open>Location updates of a ghost\<close>

lemma sync_frame [simp]:
  "contest_weeks (syncContestAssignments cid now rnd db) = contest_weeks db"
  "contest_captures (syncContestAssignments cid now rnd db) = contest_captures db"
  "inbox_messages (syncContestAssignments cid now rnd db) = inbox_messages db"
  "posts (syncContestAssignments cid now rnd db) = posts db"
  by (simp_all add: sync_eq Let_def)

lemma ensure_frame [simp]:
  "users (snd (ensureActiveContest amb db)) = users db"
  "contest_captures (snd (ensureActiveContest amb db)) = contest_captures db"
  "inbox_messages (snd (ensureActiveContest amb db)) = inbox_messages db"
  "posts (snd (ensureActiveContest amb db)) = posts db"
  by (simp_all add: ensureActiveContest_def Let_def split: option.splits)

lemma update_assignment_frame [simp]:
  "users (update_assignment cid uid f db) = users db"
  "contest_weeks (update_assignment cid uid f db) = contest_weeks db"
  "contest_captures (update_assignment cid uid f db) = contest_captures db"
  "inbox_messages (update_assignment cid uid f db) = inbox_messages db"
  "posts (update_assignment cid uid f db) = posts db"
  by (simp_all add: update_assignment_def)

lemma createInboxEntry_frame [simp]:
  "users (createInboxEntry i r s p t m c db) = users db"
  "contest_weeks (createInboxEntry i r s p t m c db) = contest_weeks db"
  "contest_assignments (createInboxEntry i r s p t m c db) = contest_assignments db"
  "contest_captures (createInboxEntry i r s p t m c db) = contest_captures db"
  "posts (createInboxEntry i r s p t m c db) = posts db"
  by (simp_all add: createInboxEntry_def)

lemma find_update_key:
  assumes "\<And>a. P (f a) = P a"
  shows "find P (map (\<lambda>a. if P a then f a else a) xs) = map_option f (find P xs)"
  using assms by (induction xs) auto

lemma get_assignment_update:
  assumes "\<And>a. contest_id (f a) = contest_id a" "\<And>a. user_id (f a) = user_id a"
  shows "get_assignment cid uid (update_assignment cid uid f db) = map_option f (get_assignment cid uid db)"
  unfolding get_assignment_def update_assignment_def
  using find_update_key [of "\<lambda>a. contest_id a = cid \<and> user_id a = uid" f "contest_assignments db"] assms
  by simp

lemma get_assignment_inbox [simp]:
  "get_assignment cid uid (db\<lparr> inbox_messages := ms \<rparr>) = get_assignment cid uid db"
  by (simp add: get_assignment_def)

lemma update_assignment_twice:
  assumes "\<And>a. contest_id (f a) = contest_id a" "\<And>a. user_id (f a) = user_id a"
  shows "update_assignment cid uid g (update_assignment cid uid f db) = update_assignment cid uid (g \<circ> f) db"
  using assms by (simp add: update_assignment_def comp_def)

text \<open>What a ghost's location update does, branch by branch.\<close>

lemma ghost_update:
  assumes e: "ensureActiveContest amb db = (contest, db1)"
    and a: "get_assignment (cw_id contest) userId db1 = Some a"
    and g: "role a = ''ghost''"
  shows "handleContestLocationUpdate fl amb now ids userId lat lng db =
     (let stored = update_assignment (cw_id contest) userId
                     (\<lambda>a. a\<lparr> last_location_lat := Some lat, last_location_lng := Some lng,
                             last_move_at := (case last_move_at a of None \<Rightarrow> Some now | Some t \<Rightarrow> Some t) \<rparr>) db1
      in if dist_gt (distanceKm fl (last_location_lat a) (last_location_lng a) (Some lat) (Some lng))
              CONTEST_CAMPING_DISTANCE_KM
         then update_assignment (cw_id contest) userId
                (\<lambda>a. a\<lparr> camping_violation := False, last_move_at := Some now \<rparr>) stored
         else if now - previous_move a now > CONTEST_CAMPING_THRESHOLD_MS
         then (update_assignment (cw_id contest) userId (\<lambda>a. a\<lparr> camping_violation := True \<rparr>) stored)
                \<lparr> inbox_messages := inbox_messages db @ [camping_warning (ids 0) userId now] \<rparr>
         else stored)"
proof -
  have "inbox_messages db1 = inbox_messages db"
    using ensure_frame(3) [of amb db] e by simp
  then show ?thesis
    by (simp add: handleContestLocationUpdate_def e a g Let_def previous_move_def createInboxEntry_def
        camping_warning_def)
qed

lemma window_monday: "getContestWindow monday = \<lparr> startsAt = 1704657600000, endsAt = 1705262400000 \<rparr>"
  by (simp add: getContestWindow_closed monday_def Day_def WeekDay_def msPerDay_def MakeDate_def MakeTime_def
      CONTEST_DURATION_MS_def)

lemma ghost_row_facts [simp]:
  "contest_id g = ''w1'' \<Longrightarrow> user_id g = ''mina'' \<Longrightarrow>
     syncContestAssignments ''w1'' t rnd (duel_db g) = duel_db g"
  by (simp add: syncContestAssignments_def duel_db_def example_defs Let_def)

lemma ensure_duel:
  "contest_id g = ''w1'' \<Longrightarrow> user_id g = ''mina'' \<Longrightarrow>
     ensureActiveContest amb0 (duel_db g) = (week1, duel_db g)"
proof -
  assume g: "contest_id g = ''w1''" "user_id g = ''mina''"
  have "find (\<lambda>c. starts_at c = 1704657600000) (contest_weeks (duel_db g)) = Some week1"
    by (simp add: duel_db_def week1_def empty_db_def)
  moreover have "cw_id week1 = ''w1''" by (simp add: week1_def)
  ultimately show ?thesis
    using ghost_row_facts [OF g]
    by (simp add: ensureActiveContest_def amb0_def window_monday Let_def)
qed

lemma get_mina: "user_id g = ''mina'' \<Longrightarrow> contest_id g = ''w1'' \<Longrightarrow> get_assignment ''w1'' ''mina'' (duel_db g) = Some g"
  by (simp add: get_assignment_def duel_db_def example_defs)

lemma distance_same_place:
  "distanceKm exact (Some (Finite x)) (Some (Finite y)) (Some (Finite x)) (Some (Finite y)) = Km 0"
  by (simp add: distanceKm_def exact_def deg2rad_def atan2_def)

text \<open>
  Claim C3, as the code has it. A ghost's location update emits a camping warning
  whenever the test \<open>movedDistance > 0.1\<close> fails, which it does for a distance of at
  most 0.1 km and for a distance that is \<open>NaN\<close>, and more than 6 hours have passed since
  \<open>last_move_at\<close>; whether \<open>camping_violation\<close> is set already plays no part: the flag
  is not read. Such an update sets the flag and appends exactly one \<open>contest_warning\<close>; an
  update that passes the distance test, or that comes within the 6 hours, appends
  nothing. This holds whatever the rounding of the distance computation is.
\<close>

theorem camping_warning_each_update:
  assumes "ensureActiveContest amb db = (contest, db1)"
    and "get_assignment (cw_id contest) userId db1 = Some a"
    and "role a = ''ghost''"
  shows "inbox_messages (handleContestLocationUpdate fl amb now ids userId lat lng db) =
           inbox_messages db @
           (if \<not> dist_gt (distanceKm fl (last_location_lat a) (last_location_lng a) (Some lat) (Some lng))
                    CONTEST_CAMPING_DISTANCE_KM \<and>
               now - previous_move a now > CONTEST_CAMPING_THRESHOLD_MS
            then [camping_warning (ids 0) userId now] else []) \<and>
         (\<not> dist_gt (distanceKm fl (last_location_lat a) (last_location_lng a) (Some lat) (Some lng))
                    CONTEST_CAMPING_DISTANCE_KM \<and>
          now - previous_move a now > CONTEST_CAMPING_THRESHOLD_MS \<longrightarrow>
          map_option camping_violation
            (get_assignment (cw_id contest) userId (handleContestLocationUpdate fl amb now ids userId lat lng db))
            = Some True)"
proof -
  have "inbox_messages db1 = inbox_messages db"
    using ensure_frame(3) [of amb db] assms(1) by simp
  then show ?thesis
    unfolding ghost_update [OF assms]
    by (simp add: Let_def get_assignment_update update_assignment_twice assms(2))
qed

lemma antipodal_sum:
  "sin (deg2rad (- 16) / 2) * sin (deg2rad (- 16) / 2) +
   cos (deg2rad 8) * cos (deg2rad (- 8)) * sin (deg2rad 180 / 2) * sin (deg2rad 180 / 2) = 1"
proof -
  have 1: "deg2rad (- 16) / 2 = - deg2rad 8" "deg2rad (- 8) = - deg2rad 8" "deg2rad 180 / 2 = pi / 2"
    by (simp_all add: deg2rad_def)
  show ?thesis
    unfolding 1 using sin_cos_squared_add [of "deg2rad 8"] by (simp add: power2_eq_square)
qed

lemma distance_antipodal:
  "distanceKm one_ulp_up (Some (Finite 8)) (Some (Finite (- 180))) (Some (Finite (- 8))) (Some (Finite 0)) = NaN"
  by (simp add: distanceKm_def one_ulp_up_def Let_def antipodal_sum)

theorem camping_warning_each_update_witness:
  "ensureActiveContest amb0 (duel_db camping_ghost) = (week1, duel_db camping_ghost) \<and>
   get_assignment (cw_id week1) ''mina'' (duel_db camping_ghost) = Some camping_ghost \<and>
   role camping_ghost = ''ghost'' \<and>
   inbox_messages (handleContestLocationUpdate exact amb0 monday no_ids ''mina'' (Finite 10) (Finite 20)
     (duel_db camping_ghost)) = [camping_warning (no_ids 0) ''mina'' monday] \<and>
   ensureActiveContest amb0 (duel_db antipodal_ghost) = (week1, duel_db antipodal_ghost) \<and>
   get_assignment (cw_id week1) ''mina'' (duel_db antipodal_ghost) = Some antipodal_ghost \<and>
   role antipodal_ghost = ''ghost'' \<and> \<not> camping_violation antipodal_ghost \<and>
   distanceKm one_ulp_up (last_location_lat antipodal_ghost) (last_location_lng antipodal_ghost)
     (Some (Finite (- 8))) (Some (Finite 0)) = NaN \<and>
   inbox_messages (handleContestLocationUpdate one_ulp_up amb0 monday no_ids ''mina'' (Finite (- 8)) (Finite 0)
     (duel_db antipodal_ghost)) = [camping_warning (no_ids 0) ''mina'' monday] \<and>
   map_option camping_violation (get_assignment (cw_id week1) ''mina''
     (handleContestLocationUpdate one_ulp_up amb0 monday no_ids ''mina'' (Finite (- 8)) (Finite 0)
        (duel_db antipodal_ghost))) = Some True"
proof -
  have g: "contest_id camping_ghost = ''w1''" "user_id camping_ghost = ''mina''" "role camping_ghost = ''ghost''"
    by (simp_all add: camping_ghost_def example_defs)
  have e: "ensureActiveContest amb0 (duel_db camping_ghost) = (week1, duel_db camping_ghost)"
    by (rule ensure_duel [OF g(1,2)])
  have a: "get_assignment (cw_id week1) ''mina'' (duel_db camping_ghost) = Some camping_ghost"
    using get_mina [OF g(2,1)] by (simp add: week1_def)
  have d: "distanceKm exact (last_location_lat camping_ghost) (last_location_lng camping_ghost)
      (Some (Finite 10)) (Some (Finite 20)) = Km 0"
    by (simp add: camping_ghost_def distance_same_place)
  have t: "monday - previous_move camping_ghost monday > CONTEST_CAMPING_THRESHOLD_MS"
    by (simp add: previous_move_def camping_ghost_def monday_def CONTEST_CAMPING_THRESHOLD_MS_def)
  have i: "inbox_messages (duel_db x) = []" for x
    by (simp add: duel_db_def empty_db_def)
  from camping_warning_each_update [OF e a g(3), where fl = exact and now = monday and ids = no_ids
      and lat = "Finite 10" and lng = "Finite 20"] d t i
  have 1: "inbox_messages (handleContestLocationUpdate exact amb0 monday no_ids ''mina'' (Finite 10) (Finite 20)
     (duel_db camping_ghost)) = [camping_warning (no_ids 0) ''mina'' monday]"
    by (simp add: CONTEST_CAMPING_DISTANCE_KM_def)
  have g': "contest_id antipodal_ghost = ''w1''" "user_id antipodal_ghost = ''mina''"
    "role antipodal_ghost = ''ghost''" "\<not> camping_violation antipodal_ghost"
    by (simp_all add: antipodal_ghost_def example_defs)
  have e': "ensureActiveContest amb0 (duel_db antipodal_ghost) = (week1, duel_db antipodal_ghost)"
    by (rule ensure_duel [OF g'(1,2)])
  have a': "get_assignment (cw_id week1) ''mina'' (duel_db antipodal_ghost) = Some antipodal_ghost"
    using get_mina [OF g'(2,1)] by (simp add: week1_def)
  have d': "distanceKm one_ulp_up (last_location_lat antipodal_ghost) (last_location_lng antipodal_ghost)
      (Some (Finite (- 8))) (Some (Finite 0)) = NaN"
    by (simp add: antipodal_ghost_def distance_antipodal)
  have t': "monday - previous_move antipodal_ghost monday > CONTEST_CAMPING_THRESHOLD_MS"
    by (simp add: previous_move_def antipodal_ghost_def monday_def CONTEST_CAMPING_THRESHOLD_MS_def)
  from camping_warning_each_update [OF e' a' g'(3), where fl = one_ulp_up and now = monday and ids = no_ids
      and lat = "Finite (- 8)" and lng = "Finite 0"] d' t' i
  have 2: "inbox_messages (handleContestLocationUpdate one_ulp_up amb0 monday no_ids ''mina'' (Finite (- 8)) (Finite 0)
     (duel_db antipodal_ghost)) = [camping_warning (no_ids 0) ''mina'' monday]"
    "map_option camping_violation (get_assignment (cw_id week1) ''mina''
     (handleContestLocationUpdate one_ulp_up amb0 monday no_ids ''mina'' (Finite (- 8)) (Finite 0)
        (duel_db antipodal_ghost))) = Some True"
    by simp_all
  from e a g(3) 1 e' a' g'(3,4) d' 2 show ?thesis by blast
qed

text \<open>
  The claim as it was stated fails on a ghost whose flag is set: Mina is flagged, has not
  moved for eleven hours, reports the place she was at, and is warned once more.
\<close>

theorem camping_warning_repeats_counterexample:
  "camping_violation camping_ghost \<and>
   last_move_at camping_ghost = Some 1704660000000 \<and>
   monday - 1704660000000 > CONTEST_CAMPING_THRESHOLD_MS \<and>
   \<not> dist_gt (distanceKm exact (last_location_lat camping_ghost) (last_location_lng camping_ghost) (Some (Finite 10)) (Some (Finite 20)))
       CONTEST_CAMPING_DISTANCE_KM \<and>
   get_assignment ''w1'' ''mina'' (duel_db camping_ghost) = Some camping_ghost \<and>
   inbox_messages (duel_db camping_ghost) = [] \<and>
   inbox_messages (handleContestLocationUpdate exact amb0 monday no_ids ''mina'' (Finite 10) (Finite 20) (duel_db camping_ghost)) =
     [\<lparr> msg_id = no_ids 0, recipient_id = ''mina'', msg_post_id = None, sender_id = ''mina'',
        msg_created_at = monday, read = False, msg_type = ''contest_warning'',
        message = Some ''Ghost alert: move around! Staying put will get you disqualified.'' \<rparr>]"
proof -
  have g: "contest_id camping_ghost = ''w1''" "user_id camping_ghost = ''mina''" "role camping_ghost = ''ghost''"
    by (simp_all add: camping_ghost_def example_defs)
  have e: "ensureActiveContest amb0 (duel_db camping_ghost) = (week1, duel_db camping_ghost)"
    by (rule ensure_duel [OF g(1,2)])
  have a: "get_assignment ''w1'' ''mina'' (duel_db camping_ghost) = Some camping_ghost"
    by (rule get_mina [OF g(2,1)])
  have a': "get_assignment (cw_id week1) ''mina'' (duel_db camping_ghost) = Some camping_ghost"
    using a by (simp add: week1_def)
  have d: "distanceKm exact (last_location_lat camping_ghost) (last_location_lng camping_ghost) (Some (Finite 10)) (Some (Finite 20)) = Km 0"
    by (simp add: camping_ghost_def distance_same_place)
  have t: "monday - previous_move camping_ghost monday > CONTEST_CAMPING_THRESHOLD_MS"
    by (simp add: previous_move_def camping_ghost_def monday_def CONTEST_CAMPING_THRESHOLD_MS_def)
  have i: "inbox_messages (duel_db camping_ghost) = []"
    by (simp add: duel_db_def empty_db_def)
  have "inbox_messages (handleContestLocationUpdate exact amb0 monday no_ids ''mina'' (Finite 10) (Finite 20) (duel_db camping_ghost)) =
     [camping_warning (no_ids 0) ''mina'' monday]"
    unfolding ghost_update [OF e a' g(3)]
    using d t i by (simp add: Let_def CONTEST_CAMPING_DISTANCE_KM_def)
  moreover have "camping_violation camping_ghost" "last_move_at camping_ghost = Some 1704660000000"
    by (simp_all add: camping_ghost_def)
  moreover have "monday - 1704660000000 > CONTEST_CAMPING_THRESHOLD_MS"
    by (simp add: monday_def CONTEST_CAMPING_THRESHOLD_MS_def)
  ultimately show ?thesis using a i d by (simp add: camping_warning_def CONTEST_CAMPING_DISTANCE_KM_def)
qed

text \<open>
  Claim C4, as the code has it. When the stored coordinates of a ghost are \<open>null\<close> the
  distance is \<open>Infinity\<close>. \<open>Infinity\<close> is never within the 0.3 km proximity threshold,
  but it does exceed the 0.1 km camping distance: the update takes the movement branch,
  which writes \<open>camping_violation = 0\<close> and \<open>last_move_at = now\<close>, and sends no warning.
\<close>

theorem null_coordinates_count_as_movement:
  assumes "ensureActiveContest amb db = (contest, db1)"
    and "get_assignment (cw_id contest) userId db1 = Some a"
    and "role a = ''ghost''"
    and "last_location_lat a = None \<or> last_location_lng a = None"
  shows "distanceKm fl (last_location_lat a) (last_location_lng a) (Some lat) (Some lng) = Infinity \<and>
         dist_gt Infinity CONTEST_CAMPING_DISTANCE_KM \<and>
         \<not> dist_le Infinity CONTEST_PROXIMITY_KM \<and>
         get_assignment (cw_id contest) userId (handleContestLocationUpdate fl amb now ids userId lat lng db) =
           Some (a\<lparr> last_location_lat := Some lat, last_location_lng := Some lng,
                     camping_violation := False, last_move_at := Some now \<rparr>) \<and>
         inbox_messages (handleContestLocationUpdate fl amb now ids userId lat lng db) = inbox_messages db"
proof -
  have d: "distanceKm fl (last_location_lat a) (last_location_lng a) (Some lat) (Some lng) = Infinity"
    using assms(4) by (auto simp: distanceKm_def split: option.splits)
  have "inbox_messages db1 = inbox_messages db"
    using ensure_frame(3) [of amb db] assms(1) by simp
  then show ?thesis
    unfolding ghost_update [OF assms(1-3)] d
    by (simp add: Let_def get_assignment_update update_assignment_twice assms(2))
qed

theorem null_coordinates_count_as_movement_witness:
  "ensureActiveContest amb0 (duel_db (mk_assignment ''mina'' ''ghost'')) =
     (week1, duel_db (mk_assignment ''mina'' ''ghost'')) \<and>
   get_assignment (cw_id week1) ''mina'' (duel_db (mk_assignment ''mina'' ''ghost'')) =
     Some (mk_assignment ''mina'' ''ghost'') \<and>
   role (mk_assignment ''mina'' ''ghost'') = ''ghost'' \<and>
   last_location_lat (mk_assignment ''mina'' ''ghost'') = None \<and>
   map_option last_move_at (get_assignment (cw_id week1) ''mina''
     (handleContestLocationUpdate exact amb0 monday no_ids ''mina'' (Finite 10) (Finite 20) (duel_db (mk_assignment ''mina'' ''ghost''))))
     = Some (Some monday)"
proof -
  let ?g = "mk_assignment ''mina'' ''ghost''"
  have g: "contest_id ?g = ''w1''" "user_id ?g = ''mina''" "role ?g = ''ghost''" "last_location_lat ?g = None"
    by (simp_all add: example_defs)
  have e: "ensureActiveContest amb0 (duel_db ?g) = (week1, duel_db ?g)"
    by (rule ensure_duel [OF g(1,2)])
  have a: "get_assignment (cw_id week1) ''mina'' (duel_db ?g) = Some ?g"
    using get_mina [OF g(2,1)] by (simp add: week1_def)
  from null_coordinates_count_as_movement [OF e a g(3) disjI1 [OF g(4)], where fl = exact and now = monday and ids = no_ids and lat = "Finite 10" and lng = "Finite 20"]
  have "map_option last_move_at (get_assignment (cw_id week1) ''mina''
     (handleContestLocationUpdate exact amb0 monday no_ids ''mina'' (Finite 10) (Finite 20) (duel_db ?g))) = Some (Some monday)"
    by simp
  with e a g(3,4) show ?thesis by blast
qed

text \<open>
  The claim as it was stated fails on the first report of a freshly assigned ghost: Mina
  was assigned on Sunday at 20:00 and has no stored coordinates; her first report, on
  Monday morning, moves \<open>last_move_at\<close> from the time of the assignment to the time of
  the report, and no warning is sent although more than six hours have passed.
\<close>

theorem null_coordinates_reset_clock_counterexample:
  "last_location_lat (mk_assignment ''mina'' ''ghost'') = None \<and>
   last_location_lng (mk_assignment ''mina'' ''ghost'') = None \<and>
   last_move_at (mk_assignment ''mina'' ''ghost'') = Some 1704657600000 \<and>
   monday - 1704657600000 > CONTEST_CAMPING_THRESHOLD_MS \<and>
   get_assignment ''w1'' ''mina'' (duel_db (mk_assignment ''mina'' ''ghost'')) = Some (mk_assignment ''mina'' ''ghost'') \<and>
   get_assignment ''w1'' ''mina''
     (handleContestLocationUpdate exact amb0 monday no_ids ''mina'' (Finite 10) (Finite 20) (duel_db (mk_assignment ''mina'' ''ghost''))) =
     Some ((mk_assignment ''mina'' ''ghost'')\<lparr> last_location_lat := Some (Finite 10), last_location_lng := Some (Finite 20),
                 camping_violation := False, last_move_at := Some monday \<rparr>) \<and>
   monday \<noteq> 1704657600000 \<and>
   inbox_messages (handleContestLocationUpdate exact amb0 monday no_ids ''mina'' (Finite 10) (Finite 20) (duel_db (mk_assignment ''mina'' ''ghost''))) = []"
proof -
  let ?g = "mk_assignment ''mina'' ''ghost''"
  have g: "contest_id ?g = ''w1''" "user_id ?g = ''mina''" "role ?g = ''ghost''"
    "last_location_lat ?g = None" "last_location_lng ?g = None" "last_move_at ?g = Some 1704657600000"
    by (simp_all add: example_defs)
  have e: "ensureActiveContest amb0 (duel_db ?g) = (week1, duel_db ?g)"
    by (rule ensure_duel [OF g(1,2)])
  have a: "get_assignment ''w1'' ''mina'' (duel_db ?g) = Some ?g"
    by (rule get_mina [OF g(2,1)])
  have a': "get_assignment (cw_id week1) ''mina'' (duel_db ?g) = Some ?g"
    using a by (simp add: week1_def)
  have w: "cw_id week1 = ''w1''" by (simp add: week1_def)
  have i: "inbox_messages (duel_db ?g) = []"
    by (simp add: duel_db_def empty_db_def)
  have d: "distanceKm exact (last_location_lat ?g) (last_location_lng ?g) (Some (Finite 10)) (Some (Finite 20)) = Infinity"
    by (simp add: g distanceKm_def)
  have h: "handleContestLocationUpdate exact amb0 monday no_ids ''mina'' (Finite 10) (Finite 20) (duel_db ?g) =
      update_assignment ''w1'' ''mina''
        ((\<lambda>a. a\<lparr> camping_violation := False, last_move_at := Some monday \<rparr>) \<circ>
         (\<lambda>a. a\<lparr> last_location_lat := Some (Finite 10), last_location_lng := Some (Finite 20),
                 last_move_at := (case last_move_at a of None \<Rightarrow> Some monday | Some t \<Rightarrow> Some t) \<rparr>))
        (duel_db ?g)"
    unfolding ghost_update [OF e a' g(3)] d w
    by (simp add: Let_def update_assignment_twice)
  have "get_assignment ''w1'' ''mina'' (handleContestLocationUpdate exact amb0 monday no_ids ''mina'' (Finite 10) (Finite 20) (duel_db ?g)) =
     Some (?g\<lparr> last_location_lat := Some (Finite 10), last_location_lng := Some (Finite 20),
                 camping_violation := False, last_move_at := Some monday \<rparr>)"
    unfolding h by (simp add: get_assignment_update a)
  moreover have "inbox_messages (handleContestLocationUpdate exact amb0 monday no_ids ''mina'' (Finite 10) (Finite 20) (duel_db ?g)) = []"
    unfolding h by (simp add: i)
  moreover have "monday - 1704657600000 > CONTEST_CAMPING_THRESHOLD_MS" "monday \<noteq> 1704657600000"
    by (simp_all add: monday_def CONTEST_CAMPING_THRESHOLD_MS_def)
  ultimately show ?thesis using g(4,5,6) a by blast
qed

subsection \<open>Location updates of a hunter\<close>

lemma fold_latest:
  "fold (\<lambda>x best. if msg_created_at x > msg_created_at best then x else best) ms m \<in> set (m # ms) \<and>
   (\<forall>x \<in> set (m # ms). msg_created_at x \<le>
      msg_created_at (fold (\<lambda>x best. if msg_created_at x > msg_created_at (best::inbox_message) then x else best) ms m))"
proof (induction ms arbitrary: m)
  case Nil
  then show ?case by simp
next
  case (Cons y ys)
  let ?b = "if msg_created_at y > msg_created_at m then y else m"
  from Cons.IH [of ?b] show ?case by (auto split: if_splits)
qed

lemma recentAlert_None:
  "recentAlert h g inbox = None \<longleftrightarrow> (\<forall>m \<in> set inbox. \<not> is_alert h g m)"
proof -
  let ?f = "filter (\<lambda>m. recipient_id m = h \<and> sender_id m = g \<and> msg_type m = ''contest_alert'') inbox"
  have "recentAlert h g inbox = None \<longleftrightarrow> ?f = []"
    by (simp add: recentAlert_def split: list.splits)
  also have "\<dots> \<longleftrightarrow> (\<forall>m \<in> set inbox. \<not> is_alert h g m)"
    by (simp only: filter_empty_conv is_alert_def)
  finally show ?thesis .
qed

lemma recentAlert_Some:
  assumes "recentAlert h g inbox = Some r"
  shows "r \<in> set inbox" "is_alert h g r" "\<And>m. m \<in> set inbox \<Longrightarrow> is_alert h g m \<Longrightarrow> msg_created_at m \<le> msg_created_at r"
proof -
  let ?f = "filter (\<lambda>m. recipient_id m = h \<and> sender_id m = g \<and> msg_type m = ''contest_alert'') inbox"
  from assms obtain x xs where f: "?f = x # xs"
    and r: "r = fold (\<lambda>x best. if msg_created_at x > msg_created_at best then x else best) xs x"
    by (auto simp: recentAlert_def split: list.splits)
  from fold_latest [of xs x] have in_f: "r \<in> set ?f" and mx: "\<forall>y \<in> set ?f. msg_created_at y \<le> msg_created_at r"
    unfolding r f by blast+
  from in_f show "r \<in> set inbox" "is_alert h g r" by (simp_all add: is_alert_def)
  show "msg_created_at m \<le> msg_created_at r" if "m \<in> set inbox" "is_alert h g m" for m
    using mx that by (simp add: is_alert_def)
qed

lemma cooldown_over_iff:
  "cooldown_over h g now inbox \<longleftrightarrow>
     (\<forall>m \<in> set inbox. is_alert h g m \<longrightarrow> now - msg_created_at m > CONTEST_ALERT_COOLDOWN_MS)"
proof (cases "recentAlert h g inbox")
  case None
  then show ?thesis using recentAlert_None [of h g inbox] by (simp add: cooldown_over_def)
next
  case (Some r)
  note r = recentAlert_Some [OF Some]
  show ?thesis
  proof
    assume "cooldown_over h g now inbox"
    then have "now - msg_created_at r > CONTEST_ALERT_COOLDOWN_MS" by (simp add: cooldown_over_def Some)
    then show "\<forall>m \<in> set inbox. is_alert h g m \<longrightarrow> now - msg_created_at m > CONTEST_ALERT_COOLDOWN_MS"
      using r(3) by fastforce
  next
    assume "\<forall>m \<in> set inbox. is_alert h g m \<longrightarrow> now - msg_created_at m > CONTEST_ALERT_COOLDOWN_MS"
    then show "cooldown_over h g now inbox" using r(1,2) by (simp add: cooldown_over_def Some)
  qed
qed

lemma alerts_spaced_append:
  "alerts_spaced (xs @ [m]) \<longleftrightarrow>
     alerts_spaced xs \<and>
     (\<forall>x \<in> set xs. is_alert (recipient_id m) (sender_id m) m \<and> is_alert (recipient_id m) (sender_id m) x
        \<longrightarrow> \<bar>msg_created_at x - msg_created_at m\<bar> > CONTEST_ALERT_COOLDOWN_MS)"
  by (induction xs) (auto simp: is_alert_def)

lemma alerts_spaced_other:
  "msg_type m \<noteq> ''contest_alert'' \<Longrightarrow> alerts_spaced (xs @ [m]) = alerts_spaced xs"
  by (simp add: alerts_spaced_append is_alert_def)

lemma alerts_spaced_alert:
  assumes "alerts_spaced xs" "cooldown_over h (g_user_id g) now xs"
  shows "alerts_spaced (xs @ [proximity_alert i h g d now])"
proof -
  have "\<bar>msg_created_at x - now\<bar> > CONTEST_ALERT_COOLDOWN_MS"
    if "x \<in> set xs" "is_alert h (g_user_id g) x" for x
    using assms(2) that unfolding cooldown_over_iff by fastforce
  then show ?thesis
    using assms(1) by (simp add: alerts_spaced_append proximity_alert_def)
qed

lemma alert_loop_step:
  "alert_loop fl ids k h lat lng now (g # gs) db =
     alert_loop fl ids (Suc k) h lat lng now gs
       (if in_range fl lat lng g \<and> cooldown_over h (g_user_id g) now (inbox_messages db)
        then db\<lparr> inbox_messages := inbox_messages db @
               [proximity_alert (ids k) h g
                  (distanceKm fl (Some lat) (Some lng) (g_location_lat g) (g_location_lng g)) now] \<rparr>
        else db)"
  by (simp add: alert_loop.simps(2) Let_def in_range_def cooldown_over_def createInboxEntry_def
      proximity_alert_def split: option.splits)

lemma alert_loop_spaced:
  "alerts_spaced (inbox_messages db) \<Longrightarrow> alerts_spaced (inbox_messages (alert_loop fl ids k h lat lng now gs db))"
proof (induction gs arbitrary: k db)
  case Nil
  then show ?case by simp
next
  case (Cons g gs)
  show ?case
    unfolding alert_loop_step
    by (rule Cons.IH) (use Cons.prems in \<open>simp add: alerts_spaced_alert\<close>)
qed

lemma alert_loop_grows:
  "set (inbox_messages db) \<subseteq> set (inbox_messages (alert_loop fl ids k h lat lng now gs db))"
proof (induction gs arbitrary: k db)
  case Nil
  then show ?case by simp
next
  case (Cons g gs)
  let ?db = "if in_range fl lat lng g \<and> cooldown_over h (g_user_id g) now (inbox_messages db)
        then db\<lparr> inbox_messages := inbox_messages db @
               [proximity_alert (ids k) h g
                  (distanceKm fl (Some lat) (Some lng) (g_location_lat g) (g_location_lng g)) now] \<rparr>
        else db"
  have "set (inbox_messages db) \<subseteq> set (inbox_messages ?db)" by auto
  also have "\<dots> \<subseteq> set (inbox_messages (alert_loop fl ids (Suc k) h lat lng now gs ?db))" by (rule Cons.IH)
  finally show ?case unfolding alert_loop_step .
qed

lemma alert_loop_frame [simp]:
  "users (alert_loop fl ids k h lat lng now gs db) = users db"
  "contest_weeks (alert_loop fl ids k h lat lng now gs db) = contest_weeks db"
  "contest_assignments (alert_loop fl ids k h lat lng now gs db) = contest_assignments db"
  "contest_captures (alert_loop fl ids k h lat lng now gs db) = contest_captures db"
  "posts (alert_loop fl ids k h lat lng now gs db) = posts db"
  by (induction gs arbitrary: k db; simp add: alert_loop_step)+

lemma alert_loop_emits:
  assumes "g \<in> set gs" "in_range fl lat lng g" "cooldown_over h (g_user_id g) now (inbox_messages db)"
  shows "\<exists>m \<in> set (inbox_messages (alert_loop fl ids k h lat lng now gs db)).
           is_alert h (g_user_id g) m \<and> msg_created_at m = now"
  using assms
proof (induction gs arbitrary: k db)
  case Nil
  then show ?case by simp
next
  case (Cons g' gs)
  let ?m = "proximity_alert (ids k) h g' (distanceKm fl (Some lat) (Some lng) (g_location_lat g') (g_location_lng g')) now"
  let ?db = "if in_range fl lat lng g' \<and> cooldown_over h (g_user_id g') now (inbox_messages db)
        then db\<lparr> inbox_messages := inbox_messages db @ [?m] \<rparr> else db"
  show ?case
  proof (cases "g_user_id g' = g_user_id g \<and> in_range fl lat lng g'")
    case True
    with Cons.prems(3) have "?m \<in> set (inbox_messages ?db)" by simp
    moreover have "is_alert h (g_user_id g) ?m \<and> msg_created_at ?m = now"
      using True by (simp add: is_alert_def proximity_alert_def)
    ultimately show ?thesis
      unfolding alert_loop_step using alert_loop_grows [of ?db fl ids "Suc k" h lat lng now gs] by blast
  next
    case False
    then have g: "g \<in> set gs" using Cons.prems(1,2) by auto
    have "cooldown_over h (g_user_id g) now (inbox_messages ?db)"
      using False Cons.prems(3) by (auto simp: cooldown_over_iff is_alert_def proximity_alert_def)
    from Cons.IH [OF g Cons.prems(2) this] show ?thesis unfolding alert_loop_step .
  qed
qed

lemma window_of_spaced:
  "alerts_spaced inbox \<Longrightarrow> length (alerts_in_window h g w inbox) \<le> 1"
proof (induction inbox)
  case Nil
  then show ?case by (simp add: alerts_in_window_def)
next
  case (Cons m ms)
  then have IH: "length (alerts_in_window h g w ms) \<le> 1" by simp
  show ?case
  proof (cases "is_alert h g m \<and> w \<le> msg_created_at m \<and> msg_created_at m \<le> w + CONTEST_ALERT_COOLDOWN_MS")
    case True
    then have hg: "recipient_id m = h" "sender_id m = g" by (simp_all add: is_alert_def)
    have "\<not> (is_alert h g m' \<and> w \<le> msg_created_at m' \<and> msg_created_at m' \<le> w + CONTEST_ALERT_COOLDOWN_MS)"
      if "m' \<in> set ms" for m'
    proof
      assume a: "is_alert h g m' \<and> w \<le> msg_created_at m' \<and> msg_created_at m' \<le> w + CONTEST_ALERT_COOLDOWN_MS"
      with Cons.prems that True hg have "\<bar>msg_created_at m - msg_created_at m'\<bar> > CONTEST_ALERT_COOLDOWN_MS"
        by auto
      with a True show False by linarith
    qed
    then have "alerts_in_window h g w ms = []"
      by (simp add: alerts_in_window_def filter_empty_conv)
    then show ?thesis using True by (simp add: alerts_in_window_def)
  next
    case False
    then show ?thesis using IH by (auto simp: alerts_in_window_def)
  qed
qed

lemma select_ghosts_update:
  assumes "\<And>a. contest_id (f a) = contest_id a" "\<And>a. user_id (f a) = user_id a"
    "\<And>a. role (f a) = role a" "\<And>a. survival_flag (f a) = survival_flag a"
  shows "select_ghosts cid (update_assignment cid' uid f db) = select_ghosts cid db"
proof -
  let ?F = "\<lambda>a. if contest_id a = cid' \<and> user_id a = uid then f a else a"
  let ?P = "\<lambda>ca. contest_id ca = cid \<and> role ca = ''ghost'' \<and> survival_flag ca"
  have P: "?P (?F a) = ?P a" for a using assms by simp
  have U: "user_id (?F a) = user_id a" for a using assms by simp
  have "filter ?P (map ?F (contest_assignments db)) = map ?F (filter ?P (contest_assignments db))"
    unfolding filter_map comp_def P ..
  then show ?thesis
    unfolding select_ghosts_def update_assignment_def
    by (simp add: comp_def U del: if_split cong: if_cong)
qed

lemma in_concat_map: "y \<in> set ys \<Longrightarrow> x \<in> set (G y) \<Longrightarrow> x \<in> set (concat (map G ys))"
  by auto

lemma in_select_ghosts:
  assumes "ca \<in> set (contest_assignments db)" "contest_id ca = cid" "role ca = ''ghost''" "survival_flag ca"
    "u \<in> set (users db)" "u_id u = user_id ca"
  shows "\<lparr> g_user_id = user_id ca, g_display_name = display_name u,
           g_location_lat = location_lat u, g_location_lng = location_lng u \<rparr> \<in> set (select_ghosts cid db)"
  unfolding select_ghosts_def
proof (rule in_concat_map [where y = ca])
  show "ca \<in> set (filter (\<lambda>ca. contest_id ca = cid \<and> role ca = ''ghost'' \<and> survival_flag ca) (contest_assignments db))"
    using assms(1-4) by simp
  have "u \<in> set (filter (\<lambda>u. user_id ca = u_id u) (users db))" using assms(5,6) by simp
  then show "\<lparr> g_user_id = user_id ca, g_display_name = display_name u,
           g_location_lat = location_lat u, g_location_lng = location_lng u \<rparr>
        \<in> set (map (\<lambda>u. \<lparr> g_user_id = user_id ca, g_display_name = display_name u,
                                   g_location_lat = location_lat u, g_location_lng = location_lng u \<rparr>)
                          (filter (\<lambda>u. user_id ca = u_id u) (users db)))"
    by (simp only: set_map) (rule imageI)
qed

lemma hunter_update:
  assumes e: "ensureActiveContest amb db = (contest, db1)"
    and a: "get_assignment (cw_id contest) userId db1 = Some a"
    and h: "role a = ''hunter''"
  shows "handleContestLocationUpdate fl amb now ids userId lat lng db =
     (let stored = update_assignment (cw_id contest) userId
                     (\<lambda>a. a\<lparr> last_location_lat := Some lat, last_location_lng := Some lng,
                             last_move_at := (case last_move_at a of None \<Rightarrow> Some now | Some t \<Rightarrow> Some t) \<rparr>) db1
      in alert_loop fl ids 0 userId lat lng now (select_ghosts (cw_id contest) db1) stored)"
proof -
  let ?f = "\<lambda>a. a\<lparr> last_location_lat := Some lat, last_location_lng := Some lng,
                             last_move_at := (case last_move_at a of None \<Rightarrow> Some now | Some t \<Rightarrow> Some t) \<rparr>"
  have s: "select_ghosts (cw_id contest) (update_assignment (cw_id contest) userId ?f db1) =
        select_ghosts (cw_id contest) db1"
    by (rule select_ghosts_update) simp_all
  have r: "role a \<noteq> ''ghost''" using h by simp
  show ?thesis
    unfolding handleContestLocationUpdate_def e Let_def prod.case a option.case s
    using h r by (simp only: if_False if_True not_not refl not_True_eq_False)
qed

lemma location_update_spaced:
  assumes "alerts_spaced (inbox_messages db)"
  shows "alerts_spaced (inbox_messages (handleContestLocationUpdate fl amb now ids userId lat lng db))"
proof -
  obtain contest db1 where e: "ensureActiveContest amb db = (contest, db1)" by force
  have i: "inbox_messages db1 = inbox_messages db"
    using ensure_frame(3) [of amb db] e by simp
  show ?thesis
  proof (cases "get_assignment (cw_id contest) userId db1")
    case None
    then show ?thesis using assms i by (simp add: handleContestLocationUpdate_def e)
  next
    case (Some a)
    consider "role a = ''ghost''" | "role a = ''hunter''" | "role a \<noteq> ''ghost''" "role a \<noteq> ''hunter''"
      by blast
    then show ?thesis
    proof cases
      case 1
      show ?thesis
        unfolding ghost_update [OF e Some 1]
        using assms i by (simp add: Let_def alerts_spaced_other camping_warning_def)
    next
      case 2
      show ?thesis
        unfolding hunter_update [OF e Some 2] Let_def
        by (rule alert_loop_spaced) (use assms i in simp)
    next
      case 3
      then show ?thesis using assms i by (simp add: handleContestLocationUpdate_def e Some Let_def)
    qed
  qed
qed

lemma cooldown_over_other_ghost:
  "sender_id m \<noteq> g \<Longrightarrow> cooldown_over h g now (inbox @ [m]) = cooldown_over h g now inbox"
  by (auto simp: cooldown_over_iff is_alert_def)

lemma cooldown_over_other_hunter:
  "recipient_id m \<noteq> h \<Longrightarrow> cooldown_over h g now (inbox @ [m]) = cooldown_over h g now inbox"
  by (auto simp: cooldown_over_iff is_alert_def)

text \<open>
  Claim C8. If no two alerts of a pair in the inbox are within one hour of each other,
  then after a location update the same holds, and every window of one hour holds at
  most one alert of any (hunter, ghost) pair, however many updates have run. When a
  hunter reports a position within 0.3 km of a surviving ghost of the week, and the
  pair has no earlier alert or its most recent alert is more than one hour old, the
  update leaves an alert of that pair, created now, in the inbox. The cooldown of a
  pair is not affected by a message of another ghost or for another hunter.
\<close>

theorem proximity_alert_cooldown:
  assumes "alerts_spaced (inbox_messages db)"
  shows "alerts_spaced (inbox_messages (handleContestLocationUpdate fl amb now ids userId lat lng db)) \<and>
         (\<forall>h g w. length (alerts_in_window h g w
             (inbox_messages (handleContestLocationUpdate fl amb now ids userId lat lng db))) \<le> 1) \<and>
         (\<forall>contest db1 a ca u.
             ensureActiveContest amb db = (contest, db1) \<and>
             get_assignment (cw_id contest) userId db1 = Some a \<and> role a = ''hunter'' \<and>
             ca \<in> set (contest_assignments db1) \<and> contest_id ca = cw_id contest \<and>
             role ca = ''ghost'' \<and> survival_flag ca \<and>
             u \<in> set (users db) \<and> u_id u = user_id ca \<and>
             dist_le (distanceKm fl (Some lat) (Some lng) (location_lat u) (location_lng u)) CONTEST_PROXIMITY_KM \<and>
             cooldown_over userId (user_id ca) now (inbox_messages db)
             \<longrightarrow> (\<exists>m \<in> set (inbox_messages (handleContestLocationUpdate fl amb now ids userId lat lng db)).
                    is_alert userId (user_id ca) m \<and> msg_created_at m = now)) \<and>
         (\<forall>h g m inbox. sender_id m \<noteq> g \<or> recipient_id m \<noteq> h \<longrightarrow>
             cooldown_over h g now (inbox @ [m]) = cooldown_over h g now inbox)"
proof -
  let ?db' = "handleContestLocationUpdate fl amb now ids userId lat lng db"
  have sp: "alerts_spaced (inbox_messages ?db')"
    by (rule location_update_spaced [OF assms])
  have win: "\<forall>h g w. length (alerts_in_window h g w (inbox_messages ?db')) \<le> 1"
    using window_of_spaced [OF sp] by blast
  have emit: "\<exists>m \<in> set (inbox_messages ?db'). is_alert userId (user_id ca) m \<and> msg_created_at m = now"
    if e: "ensureActiveContest amb db = (contest, db1)"
      and a: "get_assignment (cw_id contest) userId db1 = Some a" and h: "role a = ''hunter''"
      and ca: "ca \<in> set (contest_assignments db1)" "contest_id ca = cw_id contest" "role ca = ''ghost''" "survival_flag ca"
      and u: "u \<in> set (users db)" "u_id u = user_id ca"
      and d: "dist_le (distanceKm fl (Some lat) (Some lng) (location_lat u) (location_lng u)) CONTEST_PROXIMITY_KM"
      and c: "cooldown_over userId (user_id ca) now (inbox_messages db)"
    for contest db1 a ca u
  proof -
    let ?g = "\<lparr> g_user_id = user_id ca, g_display_name = display_name u,
           g_location_lat = location_lat u, g_location_lng = location_lng u \<rparr>"
    have "users db1 = users db" "inbox_messages db1 = inbox_messages db"
      using ensure_frame(1,3) [of amb db] e by simp_all
    then have "?g \<in> set (select_ghosts (cw_id contest) db1)"
      using in_select_ghosts [OF ca(1) ca(2) ca(3) ca(4), of u] u by simp
    moreover have "in_range fl lat lng ?g" using d by (simp add: in_range_def)
    moreover have "cooldown_over userId (g_user_id ?g) now
        (inbox_messages (update_assignment (cw_id contest) userId
                     (\<lambda>a. a\<lparr> last_location_lat := Some lat, last_location_lng := Some lng,
                             last_move_at := (case last_move_at a of None \<Rightarrow> Some now | Some t \<Rightarrow> Some t) \<rparr>) db1))"
      using c \<open>inbox_messages db1 = inbox_messages db\<close> by simp
    ultimately show ?thesis
      unfolding hunter_update [OF e a h] Let_def
      using alert_loop_emits [where g = ?g] by simp
  qed
  have em: "\<forall>contest db1 a ca u.
             ensureActiveContest amb db = (contest, db1) \<and>
             get_assignment (cw_id contest) userId db1 = Some a \<and> role a = ''hunter'' \<and>
             ca \<in> set (contest_assignments db1) \<and> contest_id ca = cw_id contest \<and>
             role ca = ''ghost'' \<and> survival_flag ca \<and>
             u \<in> set (users db) \<and> u_id u = user_id ca \<and>
             dist_le (distanceKm fl (Some lat) (Some lng) (location_lat u) (location_lng u)) CONTEST_PROXIMITY_KM \<and>
             cooldown_over userId (user_id ca) now (inbox_messages db)
             \<longrightarrow> (\<exists>m \<in> set (inbox_messages ?db'). is_alert userId (user_id ca) m \<and> msg_created_at m = now)"
    using emit by blast
  have indep: "\<forall>h g m inbox. sender_id m \<noteq> g \<or> recipient_id m \<noteq> h \<longrightarrow>
             cooldown_over h g now (inbox @ [m]) = cooldown_over h g now inbox"
    using cooldown_over_other_ghost cooldown_over_other_hunter by blast
  show ?thesis
    by (intro conjI sp win em indep)
qed

text \<open>A state in which nobody has opted out and every eligible user has a row is left alone.\<close>

lemma sync_settled:
  assumes "opted_out_ids db = []" "set (eligible_ids db) \<subseteq> user_id ` set (contest_rows cid db)"
  shows "syncContestAssignments cid now rnd db = db"
proof -
  have r: "retract cid db = contest_assignments db"
    using assms(1) by (simp add: retract_def)
  have "filter (\<lambda>p. p \<notin> user_id ` set (filter (\<lambda>a. contest_id a = cid) (retract cid db))) (eligible_ids db) = []"
    unfolding r filter_empty_conv using assms(2) by (auto simp: contest_rows_def)
  from sync_nothing_to_assign [OF this, of now rnd]
  have "contest_assignments (syncContestAssignments cid now rnd db) = contest_assignments db"
    by (simp only: r)
  moreover have "syncContestAssignments cid now rnd db =
      db\<lparr> contest_assignments := contest_assignments (syncContestAssignments cid now rnd db) \<rparr>"
    by (simp add: sync_eq Let_def)
  ultimately show ?thesis by simp
qed

lemma ensure_settled:
  assumes "find (\<lambda>c. starts_at c = startsAt (getContestWindow (contest_now amb))) (contest_weeks db) = Some c"
    and "opted_out_ids db = []" "set (eligible_ids db) \<subseteq> user_id ` set (contest_rows (cw_id c) db)"
  shows "ensureActiveContest amb db = (c, db)"
  using assms(1) sync_settled [OF assms(2,3)] by (simp add: ensureActiveContest_def Let_def)

lemma nearby_ensure: "ensureActiveContest amb0 nearby_db = (week1, nearby_db)"
proof (rule ensure_settled)
  show "find (\<lambda>c. starts_at c = startsAt (getContestWindow (contest_now amb0))) (contest_weeks nearby_db) = Some week1"
    by (simp add: amb0_def window_monday nearby_db_def duel_db_def week1_def)
  show "opted_out_ids nearby_db = []"
    by (simp add: opted_out_ids_def nearby_db_def mk_user_def)
  show "set (eligible_ids nearby_db) \<subseteq> user_id ` set (contest_rows (cw_id week1) nearby_db)"
    by (simp add: eligible_ids_def contest_rows_def nearby_db_def duel_db_def example_defs)
qed

lemma show_nat_0: "show_nat 0 = ''0''"
  by code_simp

lemma alerted_inbox:
  "inbox_messages alerted_db =
     [\<lparr> msg_id = no_ids 0, recipient_id = ''ari'', msg_post_id = None, sender_id = ''mina'',
        msg_created_at = monday, read = False, msg_type = ''contest_alert'',
        message = Some ''Mina is within 0 meters!'' \<rparr>]"
proof -
  have a: "get_assignment (cw_id week1) ''ari'' nearby_db = Some (mk_assignment ''ari'' ''hunter'')"
    by (simp add: get_assignment_def nearby_db_def duel_db_def example_defs)
  have h: "role (mk_assignment ''ari'' ''hunter'') = ''hunter''"
    by (simp add: example_defs)
  have g: "select_ghosts (cw_id week1) nearby_db =
      [\<lparr> g_user_id = ''mina'', g_display_name = ''Mina'', g_location_lat = Some (Finite 10), g_location_lng = Some (Finite 20) \<rparr>]"
    by (simp add: select_ghosts_def nearby_db_def duel_db_def example_defs)
  have c: "cooldown_over ''ari'' ''mina'' monday []"
    by (simp add: cooldown_over_def recentAlert_def)
  have i: "inbox_messages nearby_db = []"
    by (simp add: nearby_db_def duel_db_def empty_db_def)
  show ?thesis
    unfolding alerted_db_def hunter_update [OF nearby_ensure a h] Let_def g
    using c i
    by (simp add: alert_loop_step in_range_def distance_same_place CONTEST_PROXIMITY_KM_def
        proximity_alert_def alert_message_def show_int_def Math_round_def show_nat_0)
qed

lemma alerted_tables:
  "users alerted_db = users nearby_db" "contest_weeks alerted_db = contest_weeks nearby_db"
  "contest_assignments alerted_db =
     [(mk_assignment ''ari'' ''hunter'')\<lparr> last_location_lat := Some (Finite 10), last_location_lng := Some (Finite 20) \<rparr>,
      mk_assignment ''mina'' ''ghost'']"
proof -
  have a: "get_assignment (cw_id week1) ''ari'' nearby_db = Some (mk_assignment ''ari'' ''hunter'')"
    by (simp add: get_assignment_def nearby_db_def duel_db_def example_defs)
  have h: "role (mk_assignment ''ari'' ''hunter'') = ''hunter''"
    by (simp add: example_defs)
  show "users alerted_db = users nearby_db" "contest_weeks alerted_db = contest_weeks nearby_db"
    "contest_assignments alerted_db =
     [(mk_assignment ''ari'' ''hunter'')\<lparr> last_location_lat := Some (Finite 10), last_location_lng := Some (Finite 20) \<rparr>,
      mk_assignment ''mina'' ''ghost'']"
    unfolding alerted_db_def hunter_update [OF nearby_ensure a h] Let_def
    by (simp_all add: update_assignment_def nearby_db_def duel_db_def example_defs)
qed

lemma alerted_ensure: "ensureActiveContest amb0 alerted_db = (week1, alerted_db)"
proof (rule ensure_settled)
  show "find (\<lambda>c. starts_at c = startsAt (getContestWindow (contest_now amb0))) (contest_weeks alerted_db) = Some week1"
    by (simp add: alerted_tables amb0_def window_monday nearby_db_def duel_db_def week1_def)
  show "opted_out_ids alerted_db = []"
    by (simp add: opted_out_ids_def alerted_tables nearby_db_def mk_user_def)
  show "set (eligible_ids alerted_db) \<subseteq> user_id ` set (contest_rows (cw_id week1) alerted_db)"
    by (simp add: eligible_ids_def contest_rows_def alerted_tables nearby_db_def example_defs)
qed

lemma no_second_alert:
  "inbox_messages (handleContestLocationUpdate exact amb0 (monday + 600000) no_ids ''ari'' (Finite 10) (Finite 20) alerted_db) =
   inbox_messages alerted_db"
proof -
  let ?a = "(mk_assignment ''ari'' ''hunter'')\<lparr> last_location_lat := Some (Finite 10), last_location_lng := Some (Finite 20) \<rparr>"
  have a: "get_assignment (cw_id week1) ''ari'' alerted_db = Some ?a"
    by (simp add: get_assignment_def alerted_tables example_defs)
  have h: "role ?a = ''hunter''"
    by (simp add: example_defs)
  have g: "select_ghosts (cw_id week1) alerted_db =
      [\<lparr> g_user_id = ''mina'', g_display_name = ''Mina'', g_location_lat = Some (Finite 10), g_location_lng = Some (Finite 20) \<rparr>]"
    by (simp add: select_ghosts_def alerted_tables nearby_db_def example_defs)
  have c: "\<not> cooldown_over ''ari'' ''mina'' (monday + 600000) (inbox_messages alerted_db)"
    by (simp add: cooldown_over_def recentAlert_def alerted_inbox CONTEST_ALERT_COOLDOWN_MS_def)
  show ?thesis
    unfolding hunter_update [OF alerted_ensure a h] Let_def g
    using c by (simp add: alert_loop_step)
qed

theorem proximity_alert_cooldown_witness:
  "alerts_spaced (inbox_messages nearby_db) \<and>
   alerts_spaced (inbox_messages alerted_db) \<and>
   length (alerts_in_window ''ari'' ''mina'' monday (inbox_messages alerted_db)) \<le> 1 \<and>
   (\<exists>m \<in> set (inbox_messages alerted_db). is_alert ''ari'' ''mina'' m \<and> msg_created_at m = monday) \<and>
   map message (inbox_messages alerted_db) = [Some ''Mina is within 0 meters!''] \<and>
   inbox_messages (handleContestLocationUpdate exact amb0 (monday + 600000) no_ids ''ari'' (Finite 10) (Finite 20) alerted_db) =
     inbox_messages alerted_db"
proof -
  let ?mina = "(mk_user ''mina'' ''Mina'' False)\<lparr> location_lat := Some (Finite 10), location_lng := Some (Finite 20) \<rparr>"
  let ?ca = "mk_assignment ''mina'' ''ghost''"
  have sp: "alerts_spaced (inbox_messages nearby_db)"
    by (simp add: nearby_db_def duel_db_def empty_db_def)
  note inst = proximity_alert_cooldown [OF sp, of exact amb0 monday no_ids "''ari''" "Finite 10" "Finite 20",
      folded alerted_db_def]
  have a: "get_assignment (cw_id week1) ''ari'' nearby_db = Some (mk_assignment ''ari'' ''hunter'')"
    by (simp add: get_assignment_def nearby_db_def duel_db_def example_defs)
  have hyp: "role (mk_assignment ''ari'' ''hunter'') = ''hunter''"
    "?ca \<in> set (contest_assignments nearby_db)" "contest_id ?ca = cw_id week1" "role ?ca = ''ghost''"
    "survival_flag ?ca" "?mina \<in> set (users nearby_db)" "u_id ?mina = user_id ?ca"
    "dist_le (distanceKm exact (Some (Finite 10)) (Some (Finite 20)) (location_lat ?mina) (location_lng ?mina)) CONTEST_PROXIMITY_KM"
    "cooldown_over ''ari'' (user_id ?ca) monday (inbox_messages nearby_db)"
    by (simp_all add: nearby_db_def duel_db_def example_defs distance_same_place CONTEST_PROXIMITY_KM_def
        cooldown_over_def recentAlert_def)
  have id: "user_id ?ca = ''mina''" by (simp add: example_defs)
  from inst have "alerts_spaced (inbox_messages alerted_db)"
    and "length (alerts_in_window ''ari'' ''mina'' monday (inbox_messages alerted_db)) \<le> 1"
    by blast+
  moreover from inst nearby_ensure a hyp
  have "\<exists>m \<in> set (inbox_messages alerted_db). is_alert ''ari'' (user_id ?ca) m \<and> msg_created_at m = monday"
    by blast
  ultimately show ?thesis
    using sp no_second_alert unfolding id by (simp add: alerted_inbox)
qed

subsection \<open>Capture submissions\<close>

lemma capture_thrown_mismatch:
  assumes "ensureActiveContest amb db = (contest, db1)" "challenge contest \<noteq> chal"
  shows "handleContestCapture amb now ids hunterId ghostId postId chal db = (Thrown challenge_mismatch, db1)"
  using assms by (simp add: handleContestCapture_def)

lemma capture_returned:
  assumes "ensureActiveContest amb db = (contest, db1)" "challenge contest = chal"
    and "get_assignment (cw_id contest) hunterId db1 = Some h" "role h = ''hunter''"
    and "get_assignment (cw_id contest) ghostId db1 = Some g" "role g = ''ghost''"
  shows "handleContestCapture amb now ids hunterId ghostId postId chal db =
     (Returned,
      (update_assignment (cw_id contest) ghostId (\<lambda>a. a\<lparr> survival_flag := False \<rparr>)
        (update_assignment (cw_id contest) hunterId (\<lambda>a. a\<lparr> captures := captures a + 1 \<rparr>) db1))
      \<lparr> contest_captures := contest_captures db @
           [\<lparr> cap_id = capture_row_id ids, cap_contest_id = cw_id contest,
              hunter_id = hunterId, ghost_id = ghostId, cap_post_id = postId,
              cap_challenge = chal, cap_created_at = now \<rparr>],
        inbox_messages := inbox_messages db @
           [\<lparr> msg_id = hunter_msg_id ids, recipient_id = hunterId, msg_post_id = Some postId,
              sender_id = ghostId, msg_created_at = now, read = False,
              msg_type = ''contest_capture'', message = Some ''Capture logged! Score updated.'' \<rparr>,
            \<lparr> msg_id = ghost_msg_id ids, recipient_id = ghostId, msg_post_id = Some postId,
              sender_id = hunterId, msg_created_at = now, read = False,
              msg_type = ''contest_captured'', message = Some ''You were captured! Better luck next week.'' \<rparr>] \<rparr>)"
proof -
  have f: "contest_captures db1 = contest_captures db" "inbox_messages db1 = inbox_messages db"
    using ensure_frame(2,3) [of amb db] assms(1) by simp_all
  show ?thesis
    using assms f by (simp add: handleContestCapture_def Let_def createInboxEntry_def update_assignment_def)
qed

lemma duel_tables:
  "users (duel_db g) = [mk_user ''ari'' ''Ari'' False, mk_user ''mina'' ''Mina'' False]"
  "contest_weeks (duel_db g) = [week1]"
  "contest_assignments (duel_db g) = [mk_assignment ''ari'' ''hunter'', g]"
  "contest_captures (duel_db g) = []" "inbox_messages (duel_db g) = []" "posts (duel_db g) = []"
  by (simp_all add: duel_db_def empty_db_def)

lemma captured_db_eq:
  "captured_db = (duel_db ((mk_assignment ''mina'' ''ghost'')\<lparr> survival_flag := False \<rparr>))
     \<lparr> contest_assignments :=
         [(mk_assignment ''ari'' ''hunter'')\<lparr> captures := 1 \<rparr>,
          (mk_assignment ''mina'' ''ghost'')\<lparr> survival_flag := False \<rparr>],
       contest_captures :=
         [\<lparr> cap_id = ''c1'', cap_contest_id = ''w1'', hunter_id = ''ari'', ghost_id = ''mina'',
            cap_post_id = ''p1'', cap_challenge = ''Capture them eating'', cap_created_at = monday \<rparr>],
       inbox_messages :=
         [\<lparr> msg_id = ''n1'', recipient_id = ''ari'', msg_post_id = Some ''p1'', sender_id = ''mina'',
            msg_created_at = monday, read = False, msg_type = ''contest_capture'',
            message = Some ''Capture logged! Score updated.'' \<rparr>,
          \<lparr> msg_id = ''n2'', recipient_id = ''mina'', msg_post_id = Some ''p1'', sender_id = ''ari'',
            msg_created_at = monday, read = False, msg_type = ''contest_captured'',
            message = Some ''You were captured! Better luck next week.'' \<rparr>] \<rparr>"
proof -
  let ?g = "mk_assignment ''mina'' ''ghost''"
  have g: "contest_id ?g = ''w1''" "user_id ?g = ''mina''" "role ?g = ''ghost''"
    by (simp_all add: example_defs)
  have e: "ensureActiveContest amb0 (duel_db ?g) = (week1, duel_db ?g)"
    by (rule ensure_duel [OF g(1,2)])
  have c: "challenge week1 = ''Capture them eating''" "cw_id week1 = ''w1''"
    by (simp_all add: week1_def)
  have h: "get_assignment (cw_id week1) ''ari'' (duel_db ?g) = Some (mk_assignment ''ari'' ''hunter'')"
    "role (mk_assignment ''ari'' ''hunter'') = ''hunter''"
    by (simp_all add: get_assignment_def duel_tables c example_defs)
  have m: "get_assignment (cw_id week1) ''mina'' (duel_db ?g) = Some ?g"
    by (simp add: get_assignment_def duel_tables c example_defs)
  show ?thesis
    unfolding captured_db_def capture_returned [OF e c(1) h m g(3)] snd_conv
    by (simp add: update_assignment_def duel_db_def empty_db_def ids1_def c example_defs)
qed

lemma captured_ensure: "ensureActiveContest amb0 captured_db = (week1, captured_db)"
proof (rule ensure_settled)
  show "find (\<lambda>c. starts_at c = startsAt (getContestWindow (contest_now amb0))) (contest_weeks captured_db) = Some week1"
    by (simp add: captured_db_eq duel_tables amb0_def window_monday week1_def)
  show "opted_out_ids captured_db = []"
    by (simp add: opted_out_ids_def captured_db_eq duel_tables mk_user_def)
  show "set (eligible_ids captured_db) \<subseteq> user_id ` set (contest_rows (cw_id week1) captured_db)"
    by (simp add: eligible_ids_def contest_rows_def captured_db_eq duel_tables example_defs)
qed

text \<open>
  Claim C1 on the code. Mina was captured and her \<open>survival_flag\<close> is false. Ari submits a
  second capture of her with the right challenge: the validator looks at her role
  only, so the submission is accepted, a second capture row is written, Ari's score goes
  from 1 to 2 and both are notified again.
\<close>

theorem captured_ghost_captured_again:
  "map_option survival_flag (get_assignment ''w1'' ''mina'' captured_db) = Some False \<and>
   fst (handleContestCapture amb0 (monday + 60000) ids2 ''ari'' ''mina'' ''p2'' ''Capture them eating'' captured_db)
     = Returned \<and>
   map cap_id (contest_captures (snd (handleContestCapture amb0 (monday + 60000) ids2 ''ari'' ''mina'' ''p2''
     ''Capture them eating'' captured_db))) = [''c1'', ''c2''] \<and>
   map_option captures (get_assignment ''w1'' ''ari'' captured_db) = Some 1 \<and>
   map_option captures (get_assignment ''w1'' ''ari'' (snd (handleContestCapture amb0 (monday + 60000) ids2
     ''ari'' ''mina'' ''p2'' ''Capture them eating'' captured_db))) = Some 2 \<and>
   map msg_type (inbox_messages (snd (handleContestCapture amb0 (monday + 60000) ids2 ''ari'' ''mina'' ''p2''
     ''Capture them eating'' captured_db))) =
     [''contest_capture'', ''contest_captured'', ''contest_capture'', ''contest_captured'']"
proof -
  let ?h = "(mk_assignment ''ari'' ''hunter'')\<lparr> captures := 1 \<rparr>"
  let ?g = "(mk_assignment ''mina'' ''ghost'')\<lparr> survival_flag := False \<rparr>"
  have c: "challenge week1 = ''Capture them eating''" "cw_id week1 = ''w1''"
    by (simp_all add: week1_def)
  have h: "get_assignment (cw_id week1) ''ari'' captured_db = Some ?h" "role ?h = ''hunter''"
    by (simp_all add: get_assignment_def captured_db_eq c example_defs)
  have g: "get_assignment (cw_id week1) ''mina'' captured_db = Some ?g" "role ?g = ''ghost''"
    by (simp_all add: get_assignment_def captured_db_eq c example_defs)
  have r: "contest_assignments captured_db = [?h, ?g]"
    "map cap_id (contest_captures captured_db) = [''c1'']"
    "map msg_type (inbox_messages captured_db) = [''contest_capture'', ''contest_captured'']"
    by (simp_all add: captured_db_eq)
  show ?thesis
    unfolding capture_returned [OF captured_ensure c(1) h g] fst_conv snd_conv
    using h(1) g(1) r unfolding c
    by (simp add: get_assignment_def update_assignment_def ids2_def example_defs)
qed

lemma sync_assignments_cong:
  assumes "users db' = users db" "contest_assignments db' = contest_assignments db"
  shows "contest_assignments (syncContestAssignments cid now rnd db') =
         contest_assignments (syncContestAssignments cid now rnd db)"
  by (simp add: syncContestAssignments_def Let_def assms)

lemma sync_other_tables:
  "syncContestAssignments cid now rnd (db\<lparr> posts := p, inbox_messages := i \<rparr>) =
     (syncContestAssignments cid now rnd db)\<lparr> posts := p, inbox_messages := i \<rparr>"
  by (rule database.equality)
    (simp_all add: sync_assignments_cong [of "db\<lparr> posts := p, inbox_messages := i \<rparr>" db])

lemma ensure_cong:
  assumes "users db' = users db" "contest_weeks db' = contest_weeks db"
    "contest_assignments db' = contest_assignments db"
  shows "fst (ensureActiveContest amb db') = fst (ensureActiveContest amb db)"
    and "contest_weeks (snd (ensureActiveContest amb db')) = contest_weeks (snd (ensureActiveContest amb db))"
    and "contest_assignments (snd (ensureActiveContest amb db')) =
         contest_assignments (snd (ensureActiveContest amb db))"
proof -
  show "fst (ensureActiveContest amb db') = fst (ensureActiveContest amb db)"
    by (simp add: ensureActiveContest_def Let_def assms(2) split: option.splits)
  show "contest_weeks (snd (ensureActiveContest amb db')) = contest_weeks (snd (ensureActiveContest amb db))"
    by (simp add: ensureActiveContest_def Let_def assms(2) split: option.splits)
  have "contest_assignments (syncContestAssignments cid now rnd (db'\<lparr> contest_weeks := w \<rparr>)) =
        contest_assignments (syncContestAssignments cid now rnd (db\<lparr> contest_weeks := w \<rparr>))" for cid now rnd w
    by (rule sync_assignments_cong) (simp_all add: assms)
  moreover have "contest_assignments (syncContestAssignments cid now rnd db') =
        contest_assignments (syncContestAssignments cid now rnd db)" for cid now rnd
    by (rule sync_assignments_cong) (simp_all add: assms)
  ultimately show "contest_assignments (snd (ensureActiveContest amb db')) =
         contest_assignments (snd (ensureActiveContest amb db))"
    by (simp add: ensureActiveContest_def Let_def assms(2) split: option.splits)
qed

lemma ensure_other_tables:
  "ensureActiveContest amb (db\<lparr> posts := p, inbox_messages := i \<rparr>) =
     (fst (ensureActiveContest amb db), (snd (ensureActiveContest amb db))\<lparr> posts := p, inbox_messages := i \<rparr>)"
proof (rule prod_eqI)
  note c = ensure_cong [of "db\<lparr> posts := p, inbox_messages := i \<rparr>" db amb]
  show "fst (ensureActiveContest amb (db\<lparr> posts := p, inbox_messages := i \<rparr>)) =
        fst (fst (ensureActiveContest amb db), (snd (ensureActiveContest amb db))\<lparr> posts := p, inbox_messages := i \<rparr>)"
    using c(1) by simp
  show "snd (ensureActiveContest amb (db\<lparr> posts := p, inbox_messages := i \<rparr>)) =
        snd (fst (ensureActiveContest amb db), (snd (ensureActiveContest amb db))\<lparr> posts := p, inbox_messages := i \<rparr>)"
    using c(2,3) by (intro database.equality) simp_all
qed

lemma ensure_weeks:
  "contest_weeks (snd (ensureActiveContest amb db)) = contest_weeks db \<or>
   contest_weeks (snd (ensureActiveContest amb db)) = contest_weeks db @ [fst (ensureActiveContest amb db)]"
  by (simp add: ensureActiveContest_def Let_def split: option.splits)

lemma ensure_assignments:
  assumes "ensureActiveContest amb db = (contest, db1)" "a \<in> set (contest_assignments db1)"
  shows "a \<in> set (contest_assignments db) \<or> fresh_row (cw_id contest) (sync_now amb) a"
proof -
  obtain db0 where db0: "db1 = syncContestAssignments (cw_id contest) (sync_now amb) (sync_random amb) db0"
    "contest_assignments db0 = contest_assignments db" "users db0 = users db"
    using assms(1) by (auto simp: ensureActiveContest_def Let_def split: option.splits)
  obtain new where new: "contest_assignments db1 = retract (cw_id contest) db0 @ new"
    "\<forall>a \<in> set new. fresh_row (cw_id contest) (sync_now amb) a"
    using sync_assignments [of "cw_id contest" "sync_now amb" "sync_random amb" db0] db0(1) by blast
  have "set (retract (cw_id contest) db0) \<subseteq> set (contest_assignments db)"
    by (auto simp: retract_def db0(2))
  then show ?thesis using assms(2) new by auto
qed

text \<open>
  Claim C2, as the code has it. A capture request whose claimed challenge differs from the
  challenge of the active week is answered with status 400 and the challenge-mismatch
  text. It writes no capture row and sends no capture notification, and it changes no
  assignment row: every assignment row afterwards was there before or has just been
  inserted by the sync. The contest tables are as the registry left them, which may
  have created the week and synced the assignments before the challenge was compared.
\<close>

theorem post_with_wrong_challenge:
  assumes "\<not> falsy (body_recipientId req)" and "\<not> falsy (body_image req)"
    and "req_userId req \<in> set (map u_id (users db))"
    and "the (body_recipientId req) \<in> set (map u_id (users db))"
    and "body_contestCapture req"
    and "challenge (fst (ensureActiveContest (capture_ambient pa) db)) \<noteq> claimed_challenge req"
  shows "fst (post_api_posts pa req db) =
           \<lparr> status = 400, error_text = Some ''This capture does not match the weekly contest challenge.'' \<rparr> \<and>
         contest_captures (snd (post_api_posts pa req db)) = contest_captures db \<and>
         filter is_capture_notice (inbox_messages (snd (post_api_posts pa req db))) =
           filter is_capture_notice (inbox_messages db) \<and>
         (\<forall>a \<in> set (contest_assignments (snd (post_api_posts pa req db))).
            a \<in> set (contest_assignments db) \<or>
            fresh_row (cw_id (fst (ensureActiveContest (capture_ambient pa) db))) (sync_now (capture_ambient pa)) a) \<and>
         contest_assignments (snd (post_api_posts pa req db)) =
           contest_assignments (snd (ensureActiveContest (capture_ambient pa) db)) \<and>
         contest_weeks (snd (post_api_posts pa req db)) =
           contest_weeks (snd (ensureActiveContest (capture_ambient pa) db)) \<and>
         users (snd (post_api_posts pa req db)) = users db"
proof -
  let ?amb = "capture_ambient pa"
  let ?rid = "the (body_recipientId req)"
  define p where "p = posts db @
      [\<lparr> p_id = post_new_id pa, author_id = req_userId req, p_recipient_id = ?rid,
         image = the (body_image req), caption = (case body_caption req of None \<Rightarrow> [] | Some c \<Rightarrow> c),
         p_created_at = post_now pa, visibility = (case body_visibility req of None \<Rightarrow> ''public'' | Some v \<Rightarrow> v),
         original_post_id = None \<rparr>]"
  define t where "t = (if (case find (\<lambda>u. u_id u = ?rid) (users db) of None \<Rightarrow> False | Some u \<Rightarrow> bekandid_enabled u)
                           then ''bekandid_drop'' else ''drop'')"
  define i where "i = inbox_messages db @
      [\<lparr> msg_id = drop_msg_id pa, recipient_id = ?rid, msg_post_id = Some (post_new_id pa),
         sender_id = req_userId req, msg_created_at = post_now pa, read = False,
         msg_type = t, message = None \<rparr>]"
  obtain contest db1 where e: "ensureActiveContest ?amb db = (contest, db1)" by force
  have e': "ensureActiveContest ?amb (db\<lparr> posts := p, inbox_messages := i \<rparr>) =
      (contest, db1\<lparr> posts := p, inbox_messages := i \<rparr>)"
    by (simp add: ensure_other_tables e)
  have c: "challenge contest \<noteq> claimed_challenge req" using assms(6) e by simp
  have cap: "handleContestCapture ?amb (capture_now pa) (capture_new_ids pa) (req_userId req) ?rid (post_new_id pa)
      (claimed_challenge req) (db\<lparr> posts := p, inbox_messages := i \<rparr>) =
      (Thrown challenge_mismatch, db1\<lparr> posts := p, inbox_messages := i \<rparr>)"
    by (rule capture_thrown_mismatch [OF e' c])
  have route: "post_api_posts pa req db =
      (\<lparr> status = 400, error_text = Some ''This capture does not match the weekly contest challenge.'' \<rparr>,
       db1\<lparr> posts := p, inbox_messages := i \<rparr>)"
    using assms(1-5) cap
    by (simp add: post_api_posts_def Let_def createInboxEntry_def claimed_challenge_def challenge_mismatch_def
        p_def i_def t_def)
  have f: "contest_captures db1 = contest_captures db" "users db1 = users db"
    using ensure_frame(1,2) [of ?amb db] e by simp_all
  have n: "filter is_capture_notice i = filter is_capture_notice (inbox_messages db)"
    by (simp add: i_def t_def is_capture_notice_def)
  show ?thesis
    unfolding route fst_conv snd_conv e
    using f n ensure_assignments [OF e] by simp
qed

lemma signup_ensure:
  "ensureActiveContest amb0 signup_db =
     (week2, signup_db\<lparr> contest_weeks := [week2],
               contest_assignments := [new_assignment ''w2'' ''mina'' ''hunter'' monday,
                                       new_assignment ''w2'' ''ari'' ''ghost'' monday] \<rparr>)"
proof -
  have "CONTEST_CHALLENGES ! nat \<lfloor>0 * real (length CONTEST_CHALLENGES)\<rfloor> = ''Capture them eating''"
    by (simp add: CONTEST_CHALLENGES_def)
  moreover have "shuffle no_random [''ari'', ''mina''] = [''mina'', ''ari'']"
    by (simp add: shuffle_def no_random_def Let_def)
  ultimately show ?thesis
    by (simp add: ensureActiveContest_def amb0_def window_monday signup_db_def empty_db_def week2_def
        syncContestAssignments_def mk_user_def Let_def)
qed

lemma signup_post_wrong:
  "post_api_posts pa0 (capture_request ''Catch them laughing'') signup_db =
     (\<lparr> status = 400, error_text = Some ''This capture does not match the weekly contest challenge.'' \<rparr>,
      signup_db\<lparr>
        contest_weeks := [week2],
        contest_assignments := [new_assignment ''w2'' ''mina'' ''hunter'' monday,
                                new_assignment ''w2'' ''ari'' ''ghost'' monday],
        posts := [\<lparr> p_id = ''p1'', author_id = ''ari'', p_recipient_id = ''mina'',
                    image = ''data:image/png;base64,AAAA'', caption = [], p_created_at = monday,
                    visibility = ''public'', original_post_id = None \<rparr>],
        inbox_messages := [\<lparr> msg_id = ''d1'', recipient_id = ''mina'', msg_post_id = Some ''p1'',
                             sender_id = ''ari'', msg_created_at = monday, read = False,
                             msg_type = ''drop'', message = None \<rparr>] \<rparr>)"
proof -
  let ?p = "[\<lparr> p_id = ''p1'', author_id = ''ari'', p_recipient_id = ''mina'',
                    image = ''data:image/png;base64,AAAA'', caption = [], p_created_at = monday,
                    visibility = ''public'', original_post_id = None \<rparr>]"
  let ?i = "[\<lparr> msg_id = ''d1'', recipient_id = ''mina'', msg_post_id = Some ''p1'',
                             sender_id = ''ari'', msg_created_at = monday, read = False,
                             msg_type = ''drop'', message = None \<rparr>]"
  have e: "ensureActiveContest amb0 (signup_db\<lparr> posts := ?p, inbox_messages := ?i \<rparr>) =
      (week2, (signup_db\<lparr> contest_weeks := [week2],
               contest_assignments := [new_assignment ''w2'' ''mina'' ''hunter'' monday,
                                       new_assignment ''w2'' ''ari'' ''ghost'' monday] \<rparr>)
              \<lparr> posts := ?p, inbox_messages := ?i \<rparr>)"
    by (simp add: ensure_other_tables signup_ensure)
  have c: "challenge week2 \<noteq> ''Catch them laughing''" by (simp add: week2_def)
  note t = capture_thrown_mismatch [OF e c, of monday ids1 "''ari''" "''mina''" "''p1''"]
  have s: "posts signup_db = []" "inbox_messages signup_db = []"
    "users signup_db = [mk_user ''ari'' ''Ari'' False, mk_user ''mina'' ''Mina'' False]"
    by (simp_all add: signup_db_def empty_db_def)
  show ?thesis
    using t
    by (simp add: post_api_posts_def capture_request_def pa0_def falsy_def Let_def createInboxEntry_def
        s mk_user_def challenge_mismatch_def)
qed

theorem post_with_wrong_challenge_witness:
  "\<not> falsy (body_recipientId (capture_request ''Catch them laughing'')) \<and>
   \<not> falsy (body_image (capture_request ''Catch them laughing'')) \<and>
   req_userId (capture_request ''Catch them laughing'') \<in> set (map u_id (users signup_db)) \<and>
   the (body_recipientId (capture_request ''Catch them laughing'')) \<in> set (map u_id (users signup_db)) \<and>
   body_contestCapture (capture_request ''Catch them laughing'') \<and>
   challenge (fst (ensureActiveContest (capture_ambient pa0) signup_db)) = ''Capture them eating'' \<and>
   claimed_challenge (capture_request ''Catch them laughing'') = ''Catch them laughing'' \<and>
   fst (post_api_posts pa0 (capture_request ''Catch them laughing'') signup_db) =
     \<lparr> status = 400, error_text = Some ''This capture does not match the weekly contest challenge.'' \<rparr> \<and>
   contest_captures (snd (post_api_posts pa0 (capture_request ''Catch them laughing'') signup_db)) = []"
proof -
  let ?req = "capture_request ''Catch them laughing''"
  have h: "\<not> falsy (body_recipientId ?req)" "\<not> falsy (body_image ?req)"
    "req_userId ?req \<in> set (map u_id (users signup_db))"
    "the (body_recipientId ?req) \<in> set (map u_id (users signup_db))"
    "body_contestCapture ?req"
    by (simp_all add: capture_request_def falsy_def signup_db_def empty_db_def mk_user_def)
  have c: "challenge (fst (ensureActiveContest (capture_ambient pa0) signup_db)) = ''Capture them eating''"
    "claimed_challenge ?req = ''Catch them laughing''"
    by (simp_all add: pa0_def signup_ensure week2_def claimed_challenge_def capture_request_def falsy_def)
  have ne: "challenge (fst (ensureActiveContest (capture_ambient pa0) signup_db)) \<noteq> claimed_challenge ?req"
    unfolding c by simp
  have "contest_captures signup_db = []" by (simp add: signup_db_def empty_db_def)
  with post_with_wrong_challenge [OF h ne]
  have "fst (post_api_posts pa0 ?req signup_db) =
     \<lparr> status = 400, error_text = Some ''This capture does not match the weekly contest challenge.'' \<rparr>"
    "contest_captures (snd (post_api_posts pa0 ?req signup_db)) = []"
    by simp_all
  with h c show ?thesis by blast
qed

text \<open>
  The claim as it was stated fails on the first capture request of a week. Ari and Mina
  have signed up and no week exists. Ari's request names last week's challenge; it is
  rejected with the mismatch error, and yet the post row and the drop message of the
  request are stored, the week has been created and both users have been assigned.
\<close>

theorem wrong_challenge_changes_state_counterexample:
  "posts signup_db = [] \<and> inbox_messages signup_db = [] \<and>
   contest_weeks signup_db = [] \<and> contest_assignments signup_db = [] \<and>
   fst (post_api_posts pa0 (capture_request ''Catch them laughing'') signup_db) =
     \<lparr> status = 400, error_text = Some ''This capture does not match the weekly contest challenge.'' \<rparr> \<and>
   map p_id (posts (snd (post_api_posts pa0 (capture_request ''Catch them laughing'') signup_db))) = [''p1''] \<and>
   map msg_type (inbox_messages (snd (post_api_posts pa0 (capture_request ''Catch them laughing'') signup_db)))
     = [''drop''] \<and>
   contest_weeks (snd (post_api_posts pa0 (capture_request ''Catch them laughing'') signup_db)) = [week2] \<and>
   map user_id (contest_assignments (snd (post_api_posts pa0 (capture_request ''Catch them laughing'') signup_db)))
     = [''mina'', ''ari''] \<and>
   snd (post_api_posts pa0 (capture_request ''Catch them laughing'') signup_db) \<noteq> signup_db"
proof -
  have s: "posts signup_db = []" "inbox_messages signup_db = []"
    "contest_weeks signup_db = []" "contest_assignments signup_db = []"
    by (simp_all add: signup_db_def empty_db_def)
  have "posts (snd (post_api_posts pa0 (capture_request ''Catch them laughing'') signup_db)) \<noteq> posts signup_db"
    unfolding signup_post_wrong s by simp
  then have "snd (post_api_posts pa0 (capture_request ''Catch them laughing'') signup_db) \<noteq> signup_db"
    by auto
  then show ?thesis
    using s unfolding signup_post_wrong by simp
qed

lemma erase_fields [simp]:
  "u_id (erase_user_location u) = u_id u" "bekandid_enabled (erase_user_location u) = bekandid_enabled u"
  "contest_id (erase_assignment_location a) = contest_id a" "user_id (erase_assignment_location a) = user_id a"
  "role (erase_assignment_location a) = role a"
  "erase_assignment_location (new_assignment cid p r now) = new_assignment cid p r now"
  by (simp_all add: erase_user_location_def erase_assignment_location_def new_assignment_def)

lemma erase_tables [simp]:
  "users (erase_locations db) = map erase_user_location (users db)"
  "contest_assignments (erase_locations db) = map erase_assignment_location (contest_assignments db)"
  "contest_weeks (erase_locations db) = contest_weeks db"
  "contest_captures (erase_locations db) = contest_captures db"
  "inbox_messages (erase_locations db) = inbox_messages db"
  "posts (erase_locations db) = posts db"
  by (simp_all add: erase_locations_def)

lemma eligible_erase [simp]: "eligible_ids (erase_locations db) = eligible_ids db"
  by (simp add: eligible_ids_def filter_map comp_def)

lemma opted_out_erase [simp]: "opted_out_ids (erase_locations db) = opted_out_ids db"
  by (simp add: opted_out_ids_def filter_map comp_def)

lemma retract_erase [simp]:
  "retract cid (erase_locations db) = map erase_assignment_location (retract cid db)"
  by (simp add: retract_def filter_map comp_def)

lemma assign_loop_erase:
  "assign_loop cid now hc gc ps (map erase_assignment_location rows) =
   map erase_assignment_location (assign_loop cid now hc gc ps rows)"
proof (induction ps arbitrary: hc gc rows)
  case Nil
  then show ?case by simp
next
  case (Cons p ps)
  have a: "map erase_assignment_location rows @ [new_assignment cid p r now] =
           map erase_assignment_location (rows @ [new_assignment cid p r now])" for r
    by simp
  show ?case
    by (simp add: Let_def a Cons.IH del: map_append)
qed

lemma sync_erase_assignments:
  "contest_assignments (syncContestAssignments cid now rnd (erase_locations db)) =
   map erase_assignment_location (contest_assignments (syncContestAssignments cid now rnd db))"
proof -
  let ?E = "filter (\<lambda>a. contest_id a = cid) (retract cid db)"
  have f: "filter (\<lambda>a. contest_id a = cid) (map erase_assignment_location (retract cid db)) =
           map erase_assignment_location ?E"
    by (simp add: filter_map comp_def)
  have i: "user_id ` erase_assignment_location ` set ?E = user_id ` set ?E"
    by (simp add: image_image)
  have r: "filter (\<lambda>a. role (erase_assignment_location a) = x) ?E = filter (\<lambda>a. role a = x) ?E" for x
    by simp
  show ?thesis
    unfolding sync_eq [of cid now rnd "erase_locations db"] sync_eq [of cid now rnd db] Let_def
      retract_erase eligible_erase f
    by (simp add: assign_loop_erase filter_map comp_def image_image del: One_nat_def)
qed

lemma sync_erase:
  "syncContestAssignments cid now rnd (erase_locations db) =
   erase_locations (syncContestAssignments cid now rnd db)"
  by (rule database.equality) (simp_all add: sync_erase_assignments)

lemma ensure_erase:
  "ensureActiveContest amb (erase_locations db) =
     (fst (ensureActiveContest amb db), erase_locations (snd (ensureActiveContest amb db)))"
proof (cases "find (\<lambda>c. starts_at c = startsAt (getContestWindow (contest_now amb))) (contest_weeks db)")
  case None
  let ?w = "\<lparr> cw_id = contest_new_id amb, starts_at = startsAt (getContestWindow (contest_now amb)),
             ends_at = endsAt (getContestWindow (contest_now amb)),
             challenge = CONTEST_CHALLENGES ! nat \<lfloor>contest_random amb * real (length CONTEST_CHALLENGES)\<rfloor> \<rparr>"
  have h: "(erase_locations db)\<lparr> contest_weeks := contest_weeks db @ [?w] \<rparr> =
           erase_locations (db\<lparr> contest_weeks := contest_weeks db @ [?w] \<rparr>)"
    by (simp add: erase_locations_def)
  have l: "ensureActiveContest amb (erase_locations db) =
      (?w, syncContestAssignments (contest_new_id amb) (sync_now amb) (sync_random amb)
             ((erase_locations db)\<lparr> contest_weeks := contest_weeks db @ [?w] \<rparr>))"
    using None by (simp add: ensureActiveContest_def Let_def)
  have r: "ensureActiveContest amb db =
      (?w, syncContestAssignments (contest_new_id amb) (sync_now amb) (sync_random amb)
             (db\<lparr> contest_weeks := contest_weeks db @ [?w] \<rparr>))"
    using None by (simp add: ensureActiveContest_def Let_def)
  show ?thesis
    unfolding l r fst_conv snd_conv h sync_erase ..
next
  case (Some c)
  then show ?thesis by (simp add: ensureActiveContest_def Let_def sync_erase)
qed

lemma get_assignment_erase:
  "get_assignment cid uid (erase_locations db) = map_option erase_assignment_location (get_assignment cid uid db)"
proof -
  have "find (\<lambda>a. contest_id a = cid \<and> user_id a = uid) (map erase_assignment_location xs) =
        map_option erase_assignment_location (find (\<lambda>a. contest_id a = cid \<and> user_id a = uid) xs)" for xs
    by (induction xs) simp_all
  then show ?thesis by (simp add: get_assignment_def)
qed

lemma update_assignment_erase:
  assumes "\<And>a. f (erase_assignment_location a) = erase_assignment_location (f a)"
  shows "update_assignment cid uid f (erase_locations db) = erase_locations (update_assignment cid uid f db)"
  by (rule database.equality) (simp_all add: update_assignment_def assms)

lemma capture_erase:
  "handleContestCapture amb now ids hunterId ghostId postId chal (erase_locations db) =
     (fst (handleContestCapture amb now ids hunterId ghostId postId chal db),
      erase_locations (snd (handleContestCapture amb now ids hunterId ghostId postId chal db)))"
proof -
  obtain contest db1 where e: "ensureActiveContest amb db = (contest, db1)" by force
  have e': "ensureActiveContest amb (erase_locations db) = (contest, erase_locations db1)"
    by (simp add: ensure_erase e)
  have u1: "update_assignment cid uid (\<lambda>a. a\<lparr> captures := captures a + 1 \<rparr>) (erase_locations d) =
            erase_locations (update_assignment cid uid (\<lambda>a. a\<lparr> captures := captures a + 1 \<rparr>) d)" for cid uid d
    by (rule update_assignment_erase) (simp add: erase_assignment_location_def)
  have u2: "update_assignment cid uid (\<lambda>a. a\<lparr> survival_flag := False \<rparr>) (erase_locations d) =
            erase_locations (update_assignment cid uid (\<lambda>a. a\<lparr> survival_flag := False \<rparr>) d)" for cid uid d
    by (rule update_assignment_erase) (simp add: erase_assignment_location_def)
  have c: "(erase_locations d)\<lparr> contest_captures := x \<rparr> = erase_locations (d\<lparr> contest_captures := x \<rparr>)" for d x
    by (simp add: erase_locations_def)
  have m: "createInboxEntry i r s p t msg c (erase_locations d) = erase_locations (createInboxEntry i r s p t msg c d)"
    for i r s p t msg c d
    by (simp add: createInboxEntry_def erase_locations_def)
  show ?thesis
    unfolding handleContestCapture_def e e' prod.case Let_def get_assignment_erase
    by (cases "get_assignment (cw_id contest) hunterId db1"; cases "get_assignment (cw_id contest) ghostId db1")
      (simp_all add: c u1 u2 m)
qed

lemma update_assignment_rows:
  assumes "a' \<in> set (contest_assignments (update_assignment cid uid f d))"
  shows "\<exists>a \<in> set (contest_assignments d). a' = a \<or> a' = f a"
  using assms by (auto simp: update_assignment_def split: if_splits)

lemma capture_keeps_locations:
  assumes "a' \<in> set (contest_assignments (snd (handleContestCapture amb now ids hunterId ghostId postId chal db)))"
  shows "(\<exists>a \<in> set (contest_assignments db).
            contest_id a = contest_id a' \<and> user_id a = user_id a' \<and>
            last_location_lat a = last_location_lat a' \<and> last_location_lng a = last_location_lng a') \<or>
         (last_location_lat a' = None \<and> last_location_lng a' = None)"
proof -
  obtain contest db1 where e: "ensureActiveContest amb db = (contest, db1)" by force
  let ?db2 = "update_assignment (cw_id contest) ghostId (\<lambda>a. a\<lparr> survival_flag := False \<rparr>)
        (update_assignment (cw_id contest) hunterId (\<lambda>a. a\<lparr> captures := captures a + 1 \<rparr>) db1)"
  have "contest_assignments (snd (handleContestCapture amb now ids hunterId ghostId postId chal db)) =
          contest_assignments db1 \<or>
        contest_assignments (snd (handleContestCapture amb now ids hunterId ghostId postId chal db)) =
          contest_assignments ?db2"
    by (simp add: handleContestCapture_def e Let_def createInboxEntry_def update_assignment_def
        split: option.splits)
  then obtain a1 where a1: "a1 \<in> set (contest_assignments db1)"
    "contest_id a1 = contest_id a'" "user_id a1 = user_id a'"
    "last_location_lat a1 = last_location_lat a'" "last_location_lng a1 = last_location_lng a'"
  proof
    assume "contest_assignments (snd (handleContestCapture amb now ids hunterId ghostId postId chal db)) =
          contest_assignments db1"
    with assms that show ?thesis by auto
  next
    assume "contest_assignments (snd (handleContestCapture amb now ids hunterId ghostId postId chal db)) =
          contest_assignments ?db2"
    with assms have "a' \<in> set (contest_assignments ?db2)" by simp
    from update_assignment_rows [OF this] obtain a2
      where a2: "a2 \<in> set (contest_assignments (update_assignment (cw_id contest) hunterId
                   (\<lambda>a. a\<lparr> captures := captures a + 1 \<rparr>) db1))"
        "a' = a2 \<or> a' = a2\<lparr> survival_flag := False \<rparr>" by blast
    from update_assignment_rows [OF a2(1)] obtain a3
      where a3: "a3 \<in> set (contest_assignments db1)" "a2 = a3 \<or> a2 = a3\<lparr> captures := captures a3 + 1 \<rparr>"
      by blast
    from a2(2) a3(2) have "contest_id a3 = contest_id a'" "user_id a3 = user_id a'"
      "last_location_lat a3 = last_location_lat a'" "last_location_lng a3 = last_location_lng a'"
      by auto
    with a3(1) that show ?thesis by blast
  qed
  from ensure_assignments [OF e a1(1)] show ?thesis
  proof
    assume "a1 \<in> set (contest_assignments db)"
    with a1 show ?thesis by blast
  next
    assume "fresh_row (cw_id contest) (sync_now amb) a1"
    with a1 show ?thesis by (simp add: fresh_row_def)
  qed
qed

lemma get_assignment_tables [simp]:
  "get_assignment cid uid (db\<lparr> contest_captures := cs \<rparr>) = get_assignment cid uid db"
  by (simp add: get_assignment_def)

lemma get_assignment_update_other:
  assumes "uid \<noteq> uid'" "\<And>a. contest_id (f a) = contest_id a" "\<And>a. user_id (f a) = user_id a"
  shows "get_assignment cid uid (update_assignment cid' uid' f db) = get_assignment cid uid db"
proof -
  have "find (\<lambda>a. contest_id a = cid \<and> user_id a = uid)
          (map (\<lambda>a. if contest_id a = cid' \<and> user_id a = uid' then f a else a) xs) =
        find (\<lambda>a. contest_id a = cid \<and> user_id a = uid) xs" for xs
    using assms by (induction xs) auto
  then show ?thesis by (simp add: get_assignment_def update_assignment_def)
qed

text \<open>What an accepted capture writes.\<close>

lemma capture_recorded:
  fixes now :: int and ids :: capture_ids and postId :: id
  assumes e: "ensureActiveContest amb db = (contest, db1)" and c: "challenge contest = chal"
    and h: "get_assignment (cw_id contest) hunterId db1 = Some h" "role h = ''hunter''"
    and g: "get_assignment (cw_id contest) ghostId db1 = Some g" "role g = ''ghost''"
  defines "r \<equiv> handleContestCapture amb now ids hunterId ghostId postId chal db"
  shows "fst r = Returned"
    and "contest_captures (snd r) = contest_captures db @
           [\<lparr> cap_id = capture_row_id ids, cap_contest_id = cw_id contest,
              hunter_id = hunterId, ghost_id = ghostId, cap_post_id = postId,
              cap_challenge = chal, cap_created_at = now \<rparr>]"
    and "get_assignment (cw_id contest) hunterId (snd r) = Some (h\<lparr> captures := captures h + 1 \<rparr>)"
    and "get_assignment (cw_id contest) ghostId (snd r) = Some (g\<lparr> survival_flag := False \<rparr>)"
    and "inbox_messages (snd r) = inbox_messages db @
           [\<lparr> msg_id = hunter_msg_id ids, recipient_id = hunterId, msg_post_id = Some postId,
              sender_id = ghostId, msg_created_at = now, read = False,
              msg_type = ''contest_capture'', message = Some ''Capture logged! Score updated.'' \<rparr>,
            \<lparr> msg_id = ghost_msg_id ids, recipient_id = ghostId, msg_post_id = Some postId,
              sender_id = hunterId, msg_created_at = now, read = False,
              msg_type = ''contest_captured'', message = Some ''You were captured! Better luck next week.'' \<rparr>]"
proof -
  have ne: "hunterId \<noteq> ghostId"
  proof
    assume "hunterId = ghostId"
    with h(1) g(1) have "h = g" by simp
    with h(2) g(2) show False by simp
  qed
  note r = capture_returned [OF e c h g, of now ids postId, folded r_def]
  show "fst r = Returned" unfolding r by simp
  show "contest_captures (snd r) = contest_captures db @
           [\<lparr> cap_id = capture_row_id ids, cap_contest_id = cw_id contest,
              hunter_id = hunterId, ghost_id = ghostId, cap_post_id = postId,
              cap_challenge = chal, cap_created_at = now \<rparr>]"
    unfolding r by simp
  show "inbox_messages (snd r) = inbox_messages db @
           [\<lparr> msg_id = hunter_msg_id ids, recipient_id = hunterId, msg_post_id = Some postId,
              sender_id = ghostId, msg_created_at = now, read = False,
              msg_type = ''contest_capture'', message = Some ''Capture logged! Score updated.'' \<rparr>,
            \<lparr> msg_id = ghost_msg_id ids, recipient_id = ghostId, msg_post_id = Some postId,
              sender_id = hunterId, msg_created_at = now, read = False,
              msg_type = ''contest_captured'', message = Some ''You were captured! Better luck next week.'' \<rparr>]"
    unfolding r by simp
  show "get_assignment (cw_id contest) hunterId (snd r) = Some (h\<lparr> captures := captures h + 1 \<rparr>)"
    unfolding r using ne h(1)
    by (simp add: get_assignment_update_other get_assignment_update)
  show "get_assignment (cw_id contest) ghostId (snd r) = Some (g\<lparr> survival_flag := False \<rparr>)"
    unfolding r using ne g(1)
    by (simp add: get_assignment_update_other get_assignment_update)
qed

text \<open>
  Claim C10. Two databases that differ in location fields only give the same outcome of a
  capture submission and, location fields aside, the same database afterwards. The
  capture leaves the \<open>users\<close> table as it is, and the position recorded on an
  assignment afterwards is the one that was recorded before, or none on a row the sync
  has inserted: a capture reads no position and writes none. What decides the
  submission is the challenge and the two roles only: when the post is stored and both
  are users (the notifications reference the post and the two users, and the route stores
  the post before it calls the handler), the claimed challenge is the week's, the
  submitter has a hunter row and the target a ghost row, the capture is recorded,
  wherever the two are and whether or not they have reported a position at all: the
  capture row is appended, the hunter's count goes up by one, the ghost's
  \<open>survival_flag\<close> is cleared and both are notified.
\<close>

theorem capture_ignores_locations:
  assumes "erase_locations db = erase_locations db'"
  shows "fst (handleContestCapture amb now ids hunterId ghostId postId chal db) =
           fst (handleContestCapture amb now ids hunterId ghostId postId chal db') \<and>
         erase_locations (snd (handleContestCapture amb now ids hunterId ghostId postId chal db)) =
           erase_locations (snd (handleContestCapture amb now ids hunterId ghostId postId chal db')) \<and>
         users (snd (handleContestCapture amb now ids hunterId ghostId postId chal db)) = users db \<and>
         (\<forall>a' \<in> set (contest_assignments (snd (handleContestCapture amb now ids hunterId ghostId postId chal db))).
            (\<exists>a \<in> set (contest_assignments db).
               contest_id a = contest_id a' \<and> user_id a = user_id a' \<and>
               last_location_lat a = last_location_lat a' \<and> last_location_lng a = last_location_lng a') \<or>
            (last_location_lat a' = None \<and> last_location_lng a' = None)) \<and>
         (\<forall>contest db1 h g.
            postId \<in> set (map p_id (posts db)) \<and>
            hunterId \<in> set (map u_id (users db)) \<and> ghostId \<in> set (map u_id (users db)) \<and>
            ensureActiveContest amb db = (contest, db1) \<and> challenge contest = chal \<and>
            get_assignment (cw_id contest) hunterId db1 = Some h \<and> role h = ''hunter'' \<and>
            get_assignment (cw_id contest) ghostId db1 = Some g \<and> role g = ''ghost'' \<longrightarrow>
            fst (handleContestCapture amb now ids hunterId ghostId postId chal db) = Returned \<and>
            fst (handleContestCapture amb now ids hunterId ghostId postId chal db') = Returned \<and>
            contest_captures (snd (handleContestCapture amb now ids hunterId ghostId postId chal db)) =
              contest_captures db @
              [\<lparr> cap_id = capture_row_id ids, cap_contest_id = cw_id contest,
                 hunter_id = hunterId, ghost_id = ghostId, cap_post_id = postId,
                 cap_challenge = chal, cap_created_at = now \<rparr>] \<and>
            contest_captures (snd (handleContestCapture amb now ids hunterId ghostId postId chal db')) =
              contest_captures (snd (handleContestCapture amb now ids hunterId ghostId postId chal db)) \<and>
            get_assignment (cw_id contest) hunterId
              (snd (handleContestCapture amb now ids hunterId ghostId postId chal db)) =
              Some (h\<lparr> captures := captures h + 1 \<rparr>) \<and>
            get_assignment (cw_id contest) ghostId
              (snd (handleContestCapture amb now ids hunterId ghostId postId chal db)) =
              Some (g\<lparr> survival_flag := False \<rparr>) \<and>
            inbox_messages (snd (handleContestCapture amb now ids hunterId ghostId postId chal db)) =
              inbox_messages db @
              [\<lparr> msg_id = hunter_msg_id ids, recipient_id = hunterId, msg_post_id = Some postId,
                 sender_id = ghostId, msg_created_at = now, read = False,
                 msg_type = ''contest_capture'', message = Some ''Capture logged! Score updated.'' \<rparr>,
               \<lparr> msg_id = ghost_msg_id ids, recipient_id = ghostId, msg_post_id = Some postId,
                 sender_id = hunterId, msg_created_at = now, read = False,
                 msg_type = ''contest_captured'',
                 message = Some ''You were captured! Better luck next week.'' \<rparr>])"
proof -
  let ?c = "handleContestCapture amb now ids hunterId ghostId postId chal"
  have "?c (erase_locations db) = ?c (erase_locations db')" using assms by simp
  then have "(fst (?c db), erase_locations (snd (?c db))) = (fst (?c db'), erase_locations (snd (?c db')))"
    by (simp only: capture_erase)
  then have 1: "fst (?c db) = fst (?c db')" "erase_locations (snd (?c db)) = erase_locations (snd (?c db'))"
    by simp_all
  from 1(2) have "contest_captures (erase_locations (snd (?c db'))) = contest_captures (erase_locations (snd (?c db)))"
    by simp
  then have 3: "contest_captures (snd (?c db')) = contest_captures (snd (?c db))"
    by (simp only: erase_tables)
  obtain contest0 db0 where e: "ensureActiveContest amb db = (contest0, db0)" by force
  have "users db0 = users db" using ensure_frame(1) [of amb db] e by simp
  then have 2: "users (snd (?c db)) = users db"
    by (simp add: handleContestCapture_def e Let_def split: option.splits)
  have 4: "\<forall>a' \<in> set (contest_assignments (snd (?c db))).
            (\<exists>a \<in> set (contest_assignments db).
               contest_id a = contest_id a' \<and> user_id a = user_id a' \<and>
               last_location_lat a = last_location_lat a' \<and> last_location_lng a = last_location_lng a') \<or>
            (last_location_lat a' = None \<and> last_location_lng a' = None)"
    using capture_keeps_locations [of _ amb now ids hunterId ghostId postId chal db] by blast
  have 5: "fst (?c db) = Returned \<and> fst (?c db') = Returned \<and>
      contest_captures (snd (?c db)) = contest_captures db @
        [\<lparr> cap_id = capture_row_id ids, cap_contest_id = cw_id contest,
           hunter_id = hunterId, ghost_id = ghostId, cap_post_id = postId,
           cap_challenge = chal, cap_created_at = now \<rparr>] \<and>
      contest_captures (snd (?c db')) = contest_captures (snd (?c db)) \<and>
      get_assignment (cw_id contest) hunterId (snd (?c db)) = Some (h\<lparr> captures := captures h + 1 \<rparr>) \<and>
      get_assignment (cw_id contest) ghostId (snd (?c db)) = Some (g\<lparr> survival_flag := False \<rparr>) \<and>
      inbox_messages (snd (?c db)) = inbox_messages db @
        [\<lparr> msg_id = hunter_msg_id ids, recipient_id = hunterId, msg_post_id = Some postId,
           sender_id = ghostId, msg_created_at = now, read = False,
           msg_type = ''contest_capture'', message = Some ''Capture logged! Score updated.'' \<rparr>,
         \<lparr> msg_id = ghost_msg_id ids, recipient_id = ghostId, msg_post_id = Some postId,
           sender_id = hunterId, msg_created_at = now, read = False,
           msg_type = ''contest_captured'',
           message = Some ''You were captured! Better luck next week.'' \<rparr>]"
    if "postId \<in> set (map p_id (posts db)) \<and>
        hunterId \<in> set (map u_id (users db)) \<and> ghostId \<in> set (map u_id (users db)) \<and>
        ensureActiveContest amb db = (contest, db1) \<and> challenge contest = chal \<and>
        get_assignment (cw_id contest) hunterId db1 = Some h \<and> role h = ''hunter'' \<and>
        get_assignment (cw_id contest) ghostId db1 = Some g \<and> role g = ''ghost''"
    for contest db1 h g
  proof -
    from that have p: "ensureActiveContest amb db = (contest, db1)" "challenge contest = chal"
      "get_assignment (cw_id contest) hunterId db1 = Some h" "role h = ''hunter''"
      "get_assignment (cw_id contest) ghostId db1 = Some g" "role g = ''ghost''"
      by simp_all
    note rec = capture_recorded [OF p, of now ids postId]
    from rec(1) 1(1) have "fst (?c db') = Returned" by simp
    with rec 3 show ?thesis by (intro conjI)
  qed
  show ?thesis
    using 1 2 4 5 by (intro conjI allI impI) blast+
qed

text \<open>
  In both states Ari's capture of Mina is recorded: with no position of Ari at all, and
  with Ari on another continent.
\<close>

lemma posted_ensure: "ensureActiveContest amb0 (posted nearby_db) = (week1, posted nearby_db)"
  unfolding posted_def by (simp add: ensure_other_tables nearby_ensure)

theorem capture_ignores_locations_witness:
  "erase_locations (posted nearby_db) = erase_locations (posted far_db) \<and>
   map location_lat (users (posted nearby_db)) = [None, Some (Finite 10)] \<and>
   map location_lat (users (posted far_db)) = [Some (Finite (- 34)), Some (Finite 10)] \<and>
   map p_id (posts (posted nearby_db)) = [''p1''] \<and>
   challenge week1 = ''Capture them eating'' \<and>
   fst (handleContestCapture amb0 monday ids1 ''ari'' ''mina'' ''p1'' ''Capture them eating'' (posted nearby_db))
     = Returned \<and>
   fst (handleContestCapture amb0 monday ids1 ''ari'' ''mina'' ''p1'' ''Capture them eating'' (posted far_db))
     = Returned \<and>
   contest_captures (snd (handleContestCapture amb0 monday ids1 ''ari'' ''mina'' ''p1'' ''Capture them eating''
     (posted nearby_db))) =
     [\<lparr> cap_id = ''c1'', cap_contest_id = ''w1'', hunter_id = ''ari'', ghost_id = ''mina'',
        cap_post_id = ''p1'', cap_challenge = ''Capture them eating'', cap_created_at = monday \<rparr>] \<and>
   contest_captures (snd (handleContestCapture amb0 monday ids1 ''ari'' ''mina'' ''p1'' ''Capture them eating''
     (posted far_db))) =
     [\<lparr> cap_id = ''c1'', cap_contest_id = ''w1'', hunter_id = ''ari'', ghost_id = ''mina'',
        cap_post_id = ''p1'', cap_challenge = ''Capture them eating'', cap_created_at = monday \<rparr>] \<and>
   map_option captures (get_assignment ''w1'' ''ari'' (snd (handleContestCapture amb0 monday ids1 ''ari'' ''mina''
     ''p1'' ''Capture them eating'' (posted nearby_db)))) = Some 1 \<and>
   map_option survival_flag (get_assignment ''w1'' ''mina'' (snd (handleContestCapture amb0 monday ids1 ''ari''
     ''mina'' ''p1'' ''Capture them eating'' (posted nearby_db)))) = Some False \<and>
   map msg_type (inbox_messages (snd (handleContestCapture amb0 monday ids1 ''ari'' ''mina'' ''p1''
     ''Capture them eating'' (posted nearby_db)))) = [''drop'', ''contest_capture'', ''contest_captured'']"
proof -
  let ?g = "mk_assignment ''mina'' ''ghost''"
  let ?h = "mk_assignment ''ari'' ''hunter''"
  have e: "erase_locations (posted nearby_db) = erase_locations (posted far_db)"
    by (simp add: posted_def erase_locations_def far_db_def nearby_db_def erase_user_location_def mk_user_def)
  have l: "map location_lat (users (posted nearby_db)) = [None, Some (Finite 10)]"
    "map location_lat (users (posted far_db)) = [Some (Finite (- 34)), Some (Finite 10)]"
    "map p_id (posts (posted nearby_db)) = [''p1'']"
    by (simp_all add: posted_def far_db_def nearby_db_def mk_user_def)
  have c: "challenge week1 = ''Capture them eating''" "cw_id week1 = ''w1''"
    by (simp_all add: week1_def)
  have h: "get_assignment (cw_id week1) ''ari'' (posted nearby_db) = Some ?h" "role ?h = ''hunter''"
    "captures ?h = 0"
    by (simp_all add: get_assignment_def posted_def nearby_db_def duel_tables c example_defs)
  have m: "get_assignment (cw_id week1) ''mina'' (posted nearby_db) = Some ?g" "role ?g = ''ghost''"
    by (simp_all add: get_assignment_def posted_def nearby_db_def duel_tables c example_defs)
  have s: "contest_captures (posted nearby_db) = []" "map msg_type (inbox_messages (posted nearby_db)) = [''drop'']"
    by (simp_all add: posted_def nearby_db_def duel_tables)
  have k: "''p1'' \<in> set (map p_id (posts (posted nearby_db)))"
    "''ari'' \<in> set (map u_id (users (posted nearby_db)))"
    "''mina'' \<in> set (map u_id (users (posted nearby_db)))"
    by (simp_all add: posted_def nearby_db_def mk_user_def)
  note inst = capture_ignores_locations [OF e, of amb0 monday ids1 "''ari''" "''mina''" "''p1''"
      "''Capture them eating''"]
  from inst k posted_ensure c(1) h(1,2) m
  have r: "fst (handleContestCapture amb0 monday ids1 ''ari'' ''mina'' ''p1'' ''Capture them eating''
        (posted nearby_db)) = Returned"
    "fst (handleContestCapture amb0 monday ids1 ''ari'' ''mina'' ''p1'' ''Capture them eating''
        (posted far_db)) = Returned"
    "contest_captures (snd (handleContestCapture amb0 monday ids1 ''ari'' ''mina'' ''p1'' ''Capture them eating''
        (posted nearby_db))) = contest_captures (posted nearby_db) @
        [\<lparr> cap_id = capture_row_id ids1, cap_contest_id = cw_id week1, hunter_id = ''ari'', ghost_id = ''mina'',
           cap_post_id = ''p1'', cap_challenge = ''Capture them eating'', cap_created_at = monday \<rparr>]"
    "contest_captures (snd (handleContestCapture amb0 monday ids1 ''ari'' ''mina'' ''p1'' ''Capture them eating''
        (posted far_db))) =
     contest_captures (snd (handleContestCapture amb0 monday ids1 ''ari'' ''mina'' ''p1'' ''Capture them eating''
        (posted nearby_db)))"
    "get_assignment (cw_id week1) ''ari'' (snd (handleContestCapture amb0 monday ids1 ''ari'' ''mina'' ''p1''
        ''Capture them eating'' (posted nearby_db))) = Some (?h\<lparr> captures := captures ?h + 1 \<rparr>)"
    "get_assignment (cw_id week1) ''mina'' (snd (handleContestCapture amb0 monday ids1 ''ari'' ''mina'' ''p1''
        ''Capture them eating'' (posted nearby_db))) = Some (?g\<lparr> survival_flag := False \<rparr>)"
    "inbox_messages (snd (handleContestCapture amb0 monday ids1 ''ari'' ''mina'' ''p1''
        ''Capture them eating'' (posted nearby_db))) = inbox_messages (posted nearby_db) @
        [\<lparr> msg_id = hunter_msg_id ids1, recipient_id = ''ari'', msg_post_id = Some ''p1'',
           sender_id = ''mina'', msg_created_at = monday, read = False,
           msg_type = ''contest_capture'', message = Some ''Capture logged! Score updated.'' \<rparr>,
         \<lparr> msg_id = ghost_msg_id ids1, recipient_id = ''mina'', msg_post_id = Some ''p1'',
           sender_id = ''ari'', msg_created_at = monday, read = False,
           msg_type = ''contest_captured'',
           message = Some ''You were captured! Better luck next week.'' \<rparr>]"
    by blast+
  show ?thesis
    using e l c(1) r(1,2) unfolding r(4) r(3) r(5)[unfolded c] r(6)[unfolded c] r(7)
    by (simp add: s h(3) ids1_def c(2))
qed

text \<open>
  The other writers of the inbox send no proximity alert, so the spacing of the alerts
  holds in every state the modelled operations reach from an inbox without alerts.
\<close>

lemma capture_keeps_spacing:
  assumes "alerts_spaced (inbox_messages db)"
  shows "alerts_spaced (inbox_messages (snd (handleContestCapture amb now ids hunterId ghostId postId chal db)))"
proof -
  obtain contest db1 where e: "ensureActiveContest amb db = (contest, db1)" by force
  have i: "inbox_messages db1 = inbox_messages db"
    using ensure_frame(3) [of amb db] e by simp
  have two: "alerts_spaced (xs @ [m1, m2])"
    if "alerts_spaced xs" "msg_type m1 \<noteq> ''contest_alert''" "msg_type m2 \<noteq> ''contest_alert''" for xs m1 m2
  proof -
    have "alerts_spaced ((xs @ [m1]) @ [m2]) = alerts_spaced (xs @ [m1])"
      by (rule alerts_spaced_other) (rule that(3))
    also have "\<dots> = alerts_spaced xs"
      by (rule alerts_spaced_other) (rule that(2))
    finally show ?thesis using that(1) by simp
  qed
  show ?thesis
    using assms i two [of "inbox_messages db"]
    by (simp add: handleContestCapture_def e Let_def createInboxEntry_def split: option.splits)
qed

lemma post_keeps_spacing:
  assumes "alerts_spaced (inbox_messages db)"
  shows "alerts_spaced (inbox_messages (snd (post_api_posts pa req db)))"
proof (cases "falsy (body_recipientId req) \<or> falsy (body_image req) \<or>
    req_userId req \<notin> set (map u_id (users db)) \<or> the (body_recipientId req) \<notin> set (map u_id (users db))")
  case True
  then show ?thesis using assms by (auto simp: post_api_posts_def Let_def)
next
  case False
  define db2 where "db2 = createInboxEntry (drop_msg_id pa) (the (body_recipientId req)) (req_userId req)
      (Some (post_new_id pa))
      (if (case find (\<lambda>u. u_id u = the (body_recipientId req)) (users db) of None \<Rightarrow> False
             | Some u \<Rightarrow> bekandid_enabled u) then ''bekandid_drop'' else ''drop'')
      None (post_now pa)
      (db\<lparr> posts := posts db @
          [\<lparr> p_id = post_new_id pa, author_id = req_userId req, p_recipient_id = the (body_recipientId req),
             image = the (body_image req), caption = (case body_caption req of None \<Rightarrow> [] | Some c \<Rightarrow> c),
             p_created_at = post_now pa,
             visibility = (case body_visibility req of None \<Rightarrow> ''public'' | Some v \<Rightarrow> v),
             original_post_id = None \<rparr>] \<rparr>)"
  have s2: "alerts_spaced (inbox_messages db2)"
    using assms by (simp add: db2_def createInboxEntry_def alerts_spaced_other)
  let ?c = "handleContestCapture (capture_ambient pa) (capture_now pa) (capture_new_ids pa) (req_userId req)
      (the (body_recipientId req)) (post_new_id pa)
      (if falsy (body_contestChallenge req) then [] else the (body_contestChallenge req)) db2"
  have s3: "alerts_spaced (inbox_messages (snd ?c))"
    by (rule capture_keeps_spacing [OF s2])
  have r: "post_api_posts pa req db =
      (let (result, d) = (if body_contestCapture req then ?c else (Returned, db2))
       in case result of
            Thrown (Error code msg) \<Rightarrow>
              (if code \<noteq> 0 then \<lparr> status = code, error_text = Some msg \<rparr>
               else \<lparr> status = 500, error_text = Some ''Failed to create post.'' \<rparr>, d)
          | Returned \<Rightarrow> (\<lparr> status = 201, error_text = None \<rparr>,
                         snd (ensureActiveContest (state_ambient pa) d)))"
    unfolding post_api_posts_def db2_def Let_def using False by simp
  have "inbox_messages (snd (post_api_posts pa req db)) = inbox_messages db2 \<or>
        inbox_messages (snd (post_api_posts pa req db)) = inbox_messages (snd ?c)"
    unfolding r
    by (cases ?c) (simp add: Let_def split: outcome.splits error.splits)
  with s2 s3 show ?thesis by auto
qed

end
